(* ===== verification/Prelude.thy ===== *)
theory Prelude
  imports "HOL-Library.Word"
begin

text \<open>
  Shared vocabulary of the development: results that may fail (\<open>failure + 'a\<close>), computations
  that mutate a structure and may fail (\<open>'s \<Rightarrow> ('e + 'a) \<times> 's\<close>), the functions of the Rust
  standard library on strings and integers that the program calls, and the rules on them that
  the component theories use. A string is a list of characters, each read as the Unicode
  scalar value of its code (so the model covers scalar values up to 255).
\<close>

named_theorems result_defs "definitions of the result combinators"

section \<open>Results\<close>

text \<open>
  A call fails with an \<^verbatim>\<open>anyhow::Error\<close>, the chain of its messages with the outermost context
  first, or by a panic, which no caller handles and \<^verbatim>\<open>?\<close> and \<^verbatim>\<open>context\<close> do not touch.
\<close>

datatype failure = Err "string list" | Panic string

fun add_context :: "string \<Rightarrow> failure \<Rightarrow> failure" where
  "add_context c (Err ms) = Err (c # ms)"
| "add_context c (Panic m) = Panic m"

definition rbind :: "'e + 'a \<Rightarrow> ('a \<Rightarrow> 'e + 'b) \<Rightarrow> 'e + 'b" where
  "rbind r f = (case r of Inl e \<Rightarrow> Inl e | Inr a \<Rightarrow> f a)"

definition rmap :: "('a \<Rightarrow> 'b) \<Rightarrow> 'e + 'a \<Rightarrow> 'e + 'b" where
  "rmap f r = (case r of Inl e \<Rightarrow> Inl e | Inr a \<Rightarrow> Inr (f a))"

definition bail :: "string \<Rightarrow> failure + 'a" where
  "bail m = Inl (Err [m])"

text \<open>\<^verbatim>\<open>Result::context\<close> and \<^verbatim>\<open>Option::context\<close>.\<close>

definition with_context :: "string \<Rightarrow> failure + 'a \<Rightarrow> failure + 'a" where
  "with_context c r = (case r of Inl e \<Rightarrow> Inl (add_context c e) | Inr a \<Rightarrow> Inr a)"

definition ok_or :: "string \<Rightarrow> 'a option \<Rightarrow> failure + 'a" where
  "ok_or c x = (case x of None \<Rightarrow> Inl (Err [c]) | Some a \<Rightarrow> Inr a)"

definition is_ok :: "'e + 'a \<Rightarrow> bool" where
  "is_ok r = (case r of Inl _ \<Rightarrow> False | Inr _ \<Rightarrow> True)"

declare rbind_def [result_defs] rmap_def [result_defs] bail_def [result_defs]
  with_context_def [result_defs] ok_or_def [result_defs] is_ok_def [result_defs]

lemma rbind_simps [simp]:
  "rbind (Inl e) f = Inl e" "rbind (Inr a) f = f a"
  by (simp_all add: rbind_def)

lemma rmap_simps [simp]:
  "rmap f (Inl e) = Inl e" "rmap f (Inr a) = Inr (f a)"
  by (simp_all add: rmap_def)

lemma with_context_simps [simp]:
  "with_context c (Inl e) = Inl (add_context c e)" "with_context c (Inr a) = Inr a"
  by (simp_all add: with_context_def)

lemma ok_or_simps [simp]:
  "ok_or c None = Inl (Err [c])" "ok_or c (Some a) = Inr a"
  by (simp_all add: ok_or_def)

lemma is_ok_simps [simp]: "\<not> is_ok (Inl e)" "is_ok (Inr a)"
  by (simp_all add: is_ok_def)

lemma is_ok_iff: "is_ok r \<longleftrightarrow> (\<exists>a. r = Inr a)"
  by (cases r) auto

lemma rbind_eq_Inr_iff: "rbind r f = Inr b \<longleftrightarrow> (\<exists>a. r = Inr a \<and> f a = Inr b)"
  by (cases r) auto

lemma rbind_eq_Inl_iff:
  "rbind r f = Inl e \<longleftrightarrow> r = Inl e \<or> (\<exists>a. r = Inr a \<and> f a = Inl e)"
  by (cases r) auto

lemma rmap_eq_Inr_iff: "rmap f r = Inr b \<longleftrightarrow> (\<exists>a. r = Inr a \<and> b = f a)"
  by (cases r) auto

lemma with_context_eq_Inr_iff [simp]: "with_context c r = Inr a \<longleftrightarrow> r = Inr a"
  by (cases r) auto

lemma ok_or_eq_Inr_iff [simp]: "ok_or c x = Inr a \<longleftrightarrow> x = Some a"
  by (cases x) auto

lemma bail_not_Inr [simp]: "bail m \<noteq> Inr a" "is_ok (bail m) = False"
  by (simp_all add: bail_def)

lemma bail_absorbs [simp]: "rbind (bail m) f = bail m" "rmap g (bail m) = bail m"
  by (simp_all add: bail_def)

lemma rbind_cong [fundef_cong]:
  "r = r' \<Longrightarrow> (\<And>a. r' = Inr a \<Longrightarrow> f a = g a) \<Longrightarrow> rbind r f = rbind r' g"
  by (cases r') auto

text \<open>\<^verbatim>\<open>collect::<Result<Vec<_>, _>>()\<close>: the first error, or all the values.\<close>

fun collect_ok :: "('e + 'a) list \<Rightarrow> 'e + 'a list" where
  "collect_ok [] = Inr []"
| "collect_ok (r # rs) = rbind r (\<lambda>a. rmap ((#) a) (collect_ok rs))"

lemma collect_ok_iff: "collect_ok rs = Inr xs \<longleftrightarrow> rs = map Inr xs"
  by (induction rs arbitrary: xs) (auto simp: rbind_eq_Inr_iff rmap_eq_Inr_iff)

lemmas result_iffs = rbind_eq_Inr_iff rbind_eq_Inl_iff rmap_eq_Inr_iff

section \<open>Computations that mutate a structure and may fail\<close>

text \<open>
  A Rust function that takes \<^verbatim>\<open>&mut T\<close> and returns a \<^verbatim>\<open>Result\<close> is a function from the
  structure to the result and the structure it leaves behind, on the error paths too. The
  operator \<^verbatim>\<open>?\<close> is \<open>sbind\<close>.
\<close>

definition sret :: "'a \<Rightarrow> 's \<Rightarrow> ('e + 'a) \<times> 's" where
  "sret a s = (Inr a, s)"

definition slift :: "'e + 'a \<Rightarrow> 's \<Rightarrow> ('e + 'a) \<times> 's" where
  "slift r s = (r, s)"

definition sbind ::
  "('s \<Rightarrow> ('e + 'a) \<times> 's) \<Rightarrow> ('a \<Rightarrow> 's \<Rightarrow> ('e + 'b) \<times> 's) \<Rightarrow> 's \<Rightarrow> ('e + 'b) \<times> 's"
where
  "sbind m f s = (case m s of (Inl e, s') \<Rightarrow> (Inl e, s') | (Inr a, s') \<Rightarrow> f a s')"

definition scontext :: "string \<Rightarrow> ('s \<Rightarrow> (failure + 'a) \<times> 's) \<Rightarrow> 's \<Rightarrow> (failure + 'a) \<times> 's" where
  "scontext c m s = (case m s of (r, s') \<Rightarrow> (with_context c r, s'))"

lemma sret_simps [simp]: "sret a s = (Inr a, s)"
  by (simp add: sret_def)

lemma slift_simps [simp]: "slift r s = (r, s)"
  by (simp add: slift_def)

lemma sbind_eq_Inr_iff:
  "sbind m f s = (Inr b, t) \<longleftrightarrow> (\<exists>a u. m s = (Inr a, u) \<and> f a u = (Inr b, t))"
  by (auto simp: sbind_def split: prod.splits sum.splits)

lemma sbind_eq_Inl_iff:
  "sbind m f s = (Inl e, t) \<longleftrightarrow>
     m s = (Inl e, t) \<or> (\<exists>a u. m s = (Inr a, u) \<and> f a u = (Inl e, t))"
  by (auto simp: sbind_def split: prod.splits sum.splits)

lemma scontext_eq_Inr_iff [simp]: "scontext c m s = (Inr a, t) \<longleftrightarrow> m s = (Inr a, t)"
  by (auto simp: scontext_def split: prod.splits)

lemma sbind_sret [simp]: "sbind (sret a) f s = f a s"
  by (simp add: sbind_def)

lemma sbind_slift [simp]:
  "sbind (slift (Inr a)) f s = f a s" "sbind (slift (Inl e)) f s = (Inl e, s)"
  by (simp_all add: sbind_def)

lemma fst_sbind:
  "fst (sbind m f s) = (case fst (m s) of Inl e \<Rightarrow> Inl e | Inr a \<Rightarrow> fst (f a (snd (m s))))"
  by (simp add: sbind_def split: prod.splits sum.splits)

lemma snd_sbind:
  "snd (sbind m f s) = (case fst (m s) of Inl e \<Rightarrow> snd (m s) | Inr a \<Rightarrow> snd (f a (snd (m s))))"
  by (simp add: sbind_def split: prod.splits sum.splits)

lemma fst_sbind_rbind: "fst (sbind m f s) = rbind (fst (m s)) (\<lambda>a. fst (f a (snd (m s))))"
  by (simp add: fst_sbind rbind_def)

lemma fst_sbind_ok:
  "fst (sbind m f s) = Inr b \<longleftrightarrow> (\<exists>a. fst (m s) = Inr a \<and> fst (f a (snd (m s))) = Inr b)"
  by (auto simp: fst_sbind split: sum.splits)

lemma snd_sbind_slift:
  "snd (sbind (slift r) f s) = (case r of Inl e \<Rightarrow> s | Inr a \<Rightarrow> snd (f a s))"
  by (cases r) simp_all

lemma fst_sbind_slift [simp]: "fst (sbind (slift r) f s) = rbind r (\<lambda>a. fst (f a s))"
  by (cases r) simp_all

lemma fst_scontext [simp]: "fst (scontext c m s) = with_context c (fst (m s))"
  by (simp add: scontext_def split: prod.splits)

lemma snd_scontext [simp]: "snd (scontext c m s) = snd (m s)"
  by (simp add: scontext_def split: prod.splits)

lemmas sbind_parts = fst_sbind snd_sbind

lemmas sresult_iffs = sbind_eq_Inr_iff sbind_eq_Inl_iff

section \<open>Strings\<close>

definition strip_prefix :: "string \<Rightarrow> string \<Rightarrow> string option" where
  "strip_prefix p s = (if take (length p) s = p then Some (drop (length p) s) else None)"

lemma strip_prefix_iff: "strip_prefix p s = Some r \<longleftrightarrow> s = p @ r"
  by (auto simp: strip_prefix_def) (metis append_take_drop_id)

lemma strip_prefix_None_iff: "strip_prefix p s = None \<longleftrightarrow> (\<forall>r. s \<noteq> p @ r)"
  by (metis option.distinct(1) option.exhaust strip_prefix_iff)

text \<open>
  \<^verbatim>\<open>format!\<close>: the pieces of a message, in order. It stays folded in proofs, so messages are
  compared by their pieces.
\<close>

definition fmt :: "string list \<Rightarrow> string" where
  "fmt pieces = concat pieces"

text \<open>\<^verbatim>\<open>[String]::join\<close>.\<close>

fun join_with :: "string \<Rightarrow> string list \<Rightarrow> string" where
  "join_with sep [] = []"
| "join_with sep [x] = x"
| "join_with sep (x # y # zs) = x @ sep @ join_with sep (y # zs)"

lemma join_with_empty_sep: "join_with [] xs = concat xs"
  by (induction "[] :: string" xs rule: join_with.induct) auto

text \<open>\<^verbatim>\<open>char::is_whitespace\<close> (the Unicode property White\_Space) and \<^verbatim>\<open>str::trim\<close>.\<close>

definition is_ws :: "char \<Rightarrow> bool" where
  "is_ws c = (let n = (of_char c :: nat) in 9 \<le> n \<and> n \<le> 13 \<or> n = 32 \<or> n = 133 \<or> n = 160)"

definition trim :: "string \<Rightarrow> string" where
  "trim s = rev (dropWhile is_ws (rev (dropWhile is_ws s)))"

lemma trim_Nil [simp]: "trim [] = []"
  by (simp add: trim_def)

lemma trim_eq_Nil_iff: "trim s = [] \<longleftrightarrow> (\<forall>c \<in> set s. is_ws c)"
  by (auto simp: trim_def dropWhile_eq_Nil_conv dest: set_dropWhileD)
    (metis dropWhile_eq_Nil_conv hd_dropWhile hd_in_set)

text \<open>\<^verbatim>\<open>str::to_lowercase\<close>.\<close>

definition lower_char :: "char \<Rightarrow> char" where
  "lower_char c = (let n = (of_char c :: nat)
     in if 65 \<le> n \<and> n \<le> 90 \<or> 192 \<le> n \<and> n \<le> 222 \<and> n \<noteq> 215 then char_of (n + 32) else c)"

definition to_lowercase :: "string \<Rightarrow> string" where
  "to_lowercase s = map lower_char s"

lemma to_lowercase_Nil [simp]: "to_lowercase [] = []"
  by (simp add: to_lowercase_def)

section \<open>Integers\<close>

text \<open>\<^verbatim>\<open>ToString\<close> of the integer types: decimal, no leading zero.\<close>

definition digit_char :: "nat \<Rightarrow> char" where
  "digit_char d = char_of (48 + d)"

fun show_nat :: "nat \<Rightarrow> string" where
  "show_nat n = (if n < 10 then [digit_char n] else show_nat (n div 10) @ [digit_char (n mod 10)])"

declare show_nat.simps [simp del]

definition show_int :: "int \<Rightarrow> string" where
  "show_int i = (if i < 0 then CHR ''-'' # show_nat (nat (- i)) else show_nat (nat i))"

text \<open>
  \<^verbatim>\<open>str::parse\<close> for the integer types (\<^verbatim>\<open>from_str_radix(10)\<close>): an optional sign (a minus only
  for signed types), at least one digit, and at each digit the checks in the order of the
  library: the digit itself, then the multiplication, then the addition. The messages are those
  of \<^verbatim>\<open>IntErrorKind\<close>.
\<close>

definition digit_val :: "char \<Rightarrow> nat option" where
  "digit_val c = (let n = (of_char c :: nat) in if 48 \<le> n \<and> n \<le> 57 then Some (n - 48) else None)"

fun parse_digits :: "nat \<Rightarrow> nat \<Rightarrow> string \<Rightarrow> string + nat" where
  "parse_digits limit acc [] = Inr acc"
| "parse_digits limit acc (c # cs) =
     (case digit_val c of
        None \<Rightarrow> Inl ''invalid digit found in string''
      | Some d \<Rightarrow>
          (if acc * 10 > limit \<or> acc * 10 + d > limit
           then Inl ''number too large to fit in target type''
           else parse_digits limit (acc * 10 + d) cs))"

definition parse_unsigned :: "nat \<Rightarrow> string \<Rightarrow> string + nat" where
  "parse_unsigned limit s =
     (case s of
        [] \<Rightarrow> Inl ''cannot parse integer from empty string''
      | c # cs \<Rightarrow>
          (if cs = [] \<and> (c = CHR ''+'' \<or> c = CHR ''-'') then Inl ''invalid digit found in string''
           else if c = CHR ''+'' then parse_digits limit 0 cs
           else parse_digits limit 0 (c # cs)))"

type_synonym u64 = "64 word"
type_synonym u32 = "32 word"

definition parse_u64 :: "string \<Rightarrow> string + u64" where
  "parse_u64 s = (case parse_unsigned (2 ^ 64 - 1) s of Inl e \<Rightarrow> Inl e | Inr n \<Rightarrow> Inr (of_nat n))"

lemma digit_val_digit_char: "d < 10 \<Longrightarrow> digit_val (digit_char d) = Some d"
  by (auto simp: digit_val_def digit_char_def Let_def)

lemma digit_char_not_sign: "d < 10 \<Longrightarrow> digit_char d \<noteq> CHR ''+'' \<and> digit_char d \<noteq> CHR ''-''"
proof -
  assume "d < 10"
  then have "(of_char (digit_char d) :: nat) = 48 + d"
    by (simp add: digit_char_def)
  moreover have "(of_char (CHR ''+'') :: nat) = 43" "(of_char (CHR ''-'') :: nat) = 45"
    by simp_all
  moreover have "48 + d \<noteq> 43" "48 + d \<noteq> 45" by simp_all
  ultimately show ?thesis by metis
qed

lemma parse_digits_append:
  "parse_digits limit acc (xs @ ys) =
     (case parse_digits limit acc xs of Inl e \<Rightarrow> Inl e | Inr a \<Rightarrow> parse_digits limit a ys)"
  by (induction xs arbitrary: acc) (auto split: option.splits)

lemma parse_digits_show_nat:
  "parse_digits limit 0 (show_nat n) =
     (if n \<le> limit then Inr n else Inl ''number too large to fit in target type'')"
proof (induction n rule: show_nat.induct)
  case (1 n)
  show ?case
  proof (cases "n < 10")
    case True
    then show ?thesis by (auto simp: show_nat.simps [of n] digit_val_digit_char)
  next
    case False
    have n: "n div 10 * 10 + n mod 10 = n" by presburger
    show ?thesis
      using "1.IH" [OF False] False n
      by (subst show_nat.simps) (auto simp: parse_digits_append digit_val_digit_char)
  qed
qed

lemma show_nat_neq_Nil [simp]: "show_nat n \<noteq> []"
  by (subst show_nat.simps) simp

lemma hd_show_nat: "hd (show_nat n) \<noteq> CHR ''+'' \<and> hd (show_nat n) \<noteq> CHR ''-''"
proof (induction n rule: show_nat.induct)
  case (1 n)
  show ?case
  proof (cases "n < 10")
    case True
    then have "show_nat n = [digit_char n]" by (subst show_nat.simps) simp
    then show ?thesis using digit_char_not_sign [OF True] by simp
  next
    case False
    then have "show_nat n = show_nat (n div 10) @ [digit_char (n mod 10)]"
      by (subst show_nat.simps) simp
    then have "hd (show_nat n) = hd (show_nat (n div 10))" by simp
    then show ?thesis using "1" [OF False] by simp
  qed
qed

lemma parse_unsigned_show_nat:
  "parse_unsigned limit (show_nat n) =
     (if n \<le> limit then Inr n else Inl ''number too large to fit in target type'')"
proof -
  obtain c cs where c: "show_nat n = c # cs" by (cases "show_nat n") auto
  moreover have "c \<noteq> CHR ''+''" "c \<noteq> CHR ''-''" using hd_show_nat [of n] c by auto
  ultimately show ?thesis
    using parse_digits_show_nat [of limit n] by (simp add: parse_unsigned_def)
qed

lemma parse_digits_bound: "parse_digits limit acc s = Inr n \<Longrightarrow> acc \<le> limit \<Longrightarrow> n \<le> limit"
  by (induction s arbitrary: acc) (auto split: option.splits if_splits)

end
