(* ===== verification/Filter_Names.thy ===== *)
theory Filter_Names
  imports Prelude
begin

text \<open>
  \<^verbatim>\<open>FilterNames\<close> of \<^verbatim>\<open>src/src/cli.rs\<close>: the names given on the command line, used up one by one
  as the configuration is read. A \<^verbatim>\<open>HashSet<String>\<close> is a set; which element its iterator
  yields first is a parameter of \<open>next_missing\<close>.
\<close>

datatype filter_names = FilterNames "string set option"

definition new :: filter_names where
  "new = FilterNames None"

text \<open>
  \<^verbatim>\<open>push\<close>; the flag says whether the warning about a duplicate name is logged.
\<close>

fun push :: "string \<Rightarrow> filter_names \<Rightarrow> bool \<times> filter_names" where
  "push n (FilterNames names) =
     (let s = (case names of None \<Rightarrow> {} | Some s \<Rightarrow> s)
      in (n \<in> s, FilterNames (Some (insert n s))))"

fun wants :: "string \<Rightarrow> filter_names \<Rightarrow> bool \<times> filter_names" where
  "wants name (FilterNames (Some s)) = (name \<in> s, FilterNames (Some (s - {name})))"
| "wants name (FilterNames None) = (True, FilterNames None)"

fun next_missing :: "(string set \<Rightarrow> string) \<Rightarrow> filter_names \<Rightarrow> string option" where
  "next_missing pick (FilterNames (Some names)) = (if names = {} then None else Some (pick names))"
| "next_missing pick (FilterNames None) = None"

fun wanted :: "filter_names \<Rightarrow> string set option" where
  "wanted (FilterNames names) = names"

section \<open>What the readers of the configuration rely on\<close>

text \<open>The loop of the readers: keep the names that are wanted, in order.\<close>

fun select_names :: "(string \<Rightarrow> 'f \<Rightarrow> bool \<times> 'f) \<Rightarrow> string list \<Rightarrow> 'f \<Rightarrow> string list \<times> 'f" where
  "select_names asks [] f = ([], f)"
| "select_names asks (n # ns) f =
     (case asks n f of (b, f') \<Rightarrow>
       (case select_names asks ns f' of (sel, f'') \<Rightarrow> (if b then n # sel else sel, f'')))"

locale name_filter =
  fixes asks :: "string \<Rightarrow> 'f \<Rightarrow> bool \<times> 'f"
    and missing :: "'f \<Rightarrow> string option"
    and names_of :: "'f \<Rightarrow> string set option"
  assumes asks_all: "names_of f = None \<Longrightarrow> asks n f = (True, f)"
    and asks_some: "names_of f = Some S \<Longrightarrow> fst (asks n f) = (n \<in> S)"
    and asks_spends: "names_of f = Some S \<Longrightarrow> names_of (snd (asks n f)) = Some (S - {n})"
    and missing_iff: "missing f = None \<longleftrightarrow> names_of f = None \<or> names_of f = Some {}"
begin

lemma select_all: "names_of f = None \<Longrightarrow> select_names asks ns f = (ns, f)"
  by (induction ns) (auto simp: asks_all)

lemma asks_someE:
  assumes "names_of f = Some S"
  obtains f' where "asks n f = (n \<in> S, f')" "names_of f' = Some (S - {n})"
proof (rule that [of "snd (asks n f)"])
  show "asks n f = (n \<in> S, snd (asks n f))"
    using asks_some [OF assms, of n] by (simp add: prod_eq_iff)
qed (rule asks_spends [OF assms])

lemma select_some:
  "names_of f = Some S \<Longrightarrow>
     names_of (snd (select_names asks ns f)) = Some (S - set ns) \<and>
     set (fst (select_names asks ns f)) = set ns \<inter> S \<and>
     distinct (fst (select_names asks ns f))"
proof (induction ns arbitrary: f S)
  case (Cons n ns)
  obtain f' where f': "asks n f = (n \<in> S, f')" "names_of f' = Some (S - {n})"
    using asks_someE [OF Cons.prems] .
  obtain sel f'' where sel: "select_names asks ns f' = (sel, f'')" by (cases "select_names asks ns f'")
  from Cons.IH [OF f'(2)] have "names_of f'' = Some (S - {n} - set ns)"
    "set sel = set ns \<inter> (S - {n})" "distinct sel"
    by (simp_all add: sel)
  moreover have "S - {n} - set ns = S - set (n # ns)" by auto
  ultimately show ?case by (auto simp: f'(1) sel)
qed simp

lemma select_distinct:
  "names_of f = Some S \<Longrightarrow> distinct ns \<Longrightarrow>
     fst (select_names asks ns f) = filter (\<lambda>n. n \<in> S) ns"
proof (induction ns arbitrary: f S)
  case (Cons n ns)
  obtain f' where f': "asks n f = (n \<in> S, f')" "names_of f' = Some (S - {n})"
    using asks_someE [OF Cons.prems(1)] .
  have "filter (\<lambda>m. m \<in> S - {n}) ns = filter (\<lambda>m. m \<in> S) ns"
    using Cons.prems(2) by (auto intro: filter_cong)
  with Cons.IH [OF f'(2)] Cons.prems(2) show ?case
    by (auto simp: f'(1) split: prod.splits)
qed simp

lemma all_found_iff:
  assumes "names_of f = Some S"
  shows "missing (snd (select_names asks ns f)) = None \<longleftrightarrow> S \<subseteq> set ns"
  using select_some [OF assms, of ns] by (auto simp: missing_iff)

end

lemma filter_names_cases [case_names All Some]:
  obtains "f = FilterNames None" | S where "f = FilterNames (Some S)"
  by (metis filter_names.exhaust option.exhaust)

interpretation names: name_filter wants "next_missing pick" wanted for pick
proof unfold_locales
  fix f n S
  assume "wanted f = Some S"
  then show "fst (wants n f) = (n \<in> S)" "wanted (snd (wants n f)) = Some (S - {n})"
    by (cases f; simp)+
next
  fix f n
  assume "wanted f = None"
  then show "wants n f = (True, f)" by (cases f) simp
next
  fix f
  show "next_missing pick f = None \<longleftrightarrow> wanted f = None \<or> wanted f = Some {}"
    by (cases f rule: filter_names_cases) auto
qed

lemma wanted_push:
  "wanted (snd (push n f)) = Some (insert n (case wanted f of None \<Rightarrow> {} | Some s \<Rightarrow> s))"
  by (cases f) (simp add: Let_def)

lemma wanted_new [simp]: "wanted new = None"
  by (simp add: new_def)

text \<open>
  A name given on the command line is wanted exactly once: asking for it a second time
  answers no. Without names on the command line every name is wanted, every time.
\<close>
theorem wants_twice:
  "fst (wants n (snd (wants n f))) = (wanted f = None)"
  by (cases f rule: filter_names_cases) auto

end
