(* ===== verification/Scfg_Api.thy ===== *)
theory Scfg_Api
  imports Prelude
begin

text \<open>
  The interface of the \<^verbatim>\<open>scfg\<close> crate, which is not part of the repository: an opaque type
  \<open>'s\<close> of blocks (\<^verbatim>\<open>Scfg\<close>), an opaque type \<open>'d\<close> of directives (\<^verbatim>\<open>Directive\<close>) and the
  operations the program calls on them. Every definition that reads configuration takes this
  record as its first argument. \<open>scfg_laws\<close> states the documented behaviour of the crate that
  some properties rely on; no definition depends on it.
\<close>

record ('s, 'd) scfg_api =
  sc_parse :: "string \<Rightarrow> failure + 's"                      \<comment> \<open>\<^verbatim>\<open>str::parse::<Scfg>\<close>\<close>
  sc_remove :: "'s \<Rightarrow> string \<Rightarrow> 'd list option \<times> 's"      \<comment> \<open>\<^verbatim>\<open>Scfg::remove\<close>\<close>
  sc_get :: "'s \<Rightarrow> string \<Rightarrow> 'd option"                    \<comment> \<open>\<^verbatim>\<open>Scfg::get\<close>\<close>
  sc_add_with :: "'s \<Rightarrow> string \<Rightarrow> ('d \<Rightarrow> 'd) \<Rightarrow> 's"
    \<comment> \<open>\<^verbatim>\<open>Scfg::add\<close>, with what the caller does to the \<^verbatim>\<open>&mut Directive\<close> it returns\<close>
  d_params :: "'d \<Rightarrow> string list"                          \<comment> \<open>\<^verbatim>\<open>Directive::params\<close>\<close>
  d_take_params :: "'d \<Rightarrow> string list \<times> 'd"               \<comment> \<open>\<^verbatim>\<open>Directive::take_params\<close>\<close>
  d_take_child :: "'d \<Rightarrow> 's option \<times> 'd"                  \<comment> \<open>\<^verbatim>\<open>Directive::take_child\<close>\<close>
  d_append_param :: "'d \<Rightarrow> string \<Rightarrow> 'd"                   \<comment> \<open>\<^verbatim>\<open>Directive::append_param\<close>\<close>

text \<open>
  What a block says: for each name, the directives with that name in their order, as
  \<open>sc_remove\<close> would hand them out.
\<close>

abbreviation dirs :: "('s, 'd) scfg_api \<Rightarrow> 's \<Rightarrow> string \<Rightarrow> 'd list option" where
  "dirs A s n \<equiv> fst (sc_remove A s n)"

abbreviation without :: "('s, 'd) scfg_api \<Rightarrow> 's \<Rightarrow> string \<Rightarrow> 's" where
  "without A s n \<equiv> snd (sc_remove A s n)"

definition scfg_laws :: "('s, 'd) scfg_api \<Rightarrow> bool" where
  "scfg_laws A \<longleftrightarrow>
     (\<forall>s n m. dirs A (without A s n) m = (if m = n then None else dirs A s m)) \<and>
     (\<forall>s n. sc_get A s n = Option.bind (dirs A s n) (\<lambda>ds. case ds of [] \<Rightarrow> None | d # _ \<Rightarrow> Some d)) \<and>
     (\<forall>s n. \<exists>fresh. d_params A fresh = [] \<and>
        (\<forall>f m. dirs A (sc_add_with A s n f) m =
          (if m = n then Some (case_option [] id (dirs A s n) @ [f fresh]) else dirs A s m))) \<and>
     (\<forall>d. fst (d_take_params A d) = d_params A d) \<and>
     (\<forall>d. fst (d_take_child A (snd (d_take_params A d))) = fst (d_take_child A d)) \<and>
     (\<forall>d v. d_params A (d_append_param A d v) = d_params A d @ [v])"

lemma scfg_lawsD:
  assumes "scfg_laws A"
  shows dirs_without: "dirs A (without A s n) m = (if m = n then None else dirs A s m)"
    and get_dirs: "sc_get A s n = Option.bind (dirs A s n) (\<lambda>ds. case ds of [] \<Rightarrow> None | d # _ \<Rightarrow> Some d)"
    and take_params_params: "fst (d_take_params A d) = d_params A d"
    and take_params_child: "fst (d_take_child A (snd (d_take_params A d))) = fst (d_take_child A d)"
    and append_param_params: "d_params A (d_append_param A d v) = d_params A d @ [v]"
  using assms by (auto simp: scfg_laws_def)

lemma scfg_laws_add:
  assumes "scfg_laws A"
  obtains fresh where "d_params A fresh = []"
    and "\<And>f m. dirs A (sc_add_with A s n f) m =
      (if m = n then Some (case_option [] id (dirs A s n) @ [f fresh]) else dirs A s m)"
proof -
  from assms have "\<exists>fresh. d_params A fresh = [] \<and>
      (\<forall>f m. dirs A (sc_add_with A s n f) m =
        (if m = n then Some (case_option [] id (dirs A s n) @ [f fresh]) else dirs A s m))"
    unfolding scfg_laws_def by blast
  then show thesis using that by blast
qed

end
