(* ===== verification/Scfg_Tree.thy ===== *)
theory Scfg_Tree
  imports Scfg_Api
begin

text \<open>
  A concrete block structure that satisfies \<open>scfg_laws\<close>. It shows that the laws are
  consistent and lets the witnesses evaluate the model on documents; no definition of the
  program uses it.
\<close>

datatype tree = Block "(string \<times> tdir) list"
  and tdir = Dir "string list" "tree option"

fun entries :: "tree \<Rightarrow> (string \<times> tdir) list" where
  "entries (Block es) = es"

fun tdir_params :: "tdir \<Rightarrow> string list" where
  "tdir_params (Dir ps c) = ps"

fun tdir_child :: "tdir \<Rightarrow> tree option" where
  "tdir_child (Dir ps c) = c"

definition named :: "(string \<times> tdir) list \<Rightarrow> string \<Rightarrow> tdir list" where
  "named es n = map snd (filter (\<lambda>e. fst e = n) es)"

definition tree_remove :: "tree \<Rightarrow> string \<Rightarrow> tdir list option \<times> tree" where
  "tree_remove t n =
     (let ds = named (entries t) n
      in (if ds = [] then None else Some ds, Block (filter (\<lambda>e. fst e \<noteq> n) (entries t))))"

definition tree_get :: "tree \<Rightarrow> string \<Rightarrow> tdir option" where
  "tree_get t n = (case named (entries t) n of [] \<Rightarrow> None | d # _ \<Rightarrow> Some d)"

definition tree_api :: "tree \<Rightarrow> (tree, tdir) scfg_api" where
  "tree_api doc =
     \<lparr>sc_parse = (\<lambda>_. Inr doc),
      sc_remove = tree_remove,
      sc_get = tree_get,
      sc_add_with = (\<lambda>t n f. Block (entries t @ [(n, f (Dir [] None))])),
      d_params = tdir_params,
      d_take_params = (\<lambda>d. (tdir_params d, Dir [] (tdir_child d))),
      d_take_child = (\<lambda>d. (tdir_child d, Dir (tdir_params d) None)),
      d_append_param = (\<lambda>d v. Dir (tdir_params d @ [v]) (tdir_child d))\<rparr>"

lemma tree_api_simps [simp]:
  "sc_parse (tree_api doc) raw = Inr doc"
  "sc_remove (tree_api doc) = tree_remove"
  "sc_get (tree_api doc) = tree_get"
  "sc_add_with (tree_api doc) t n f = Block (entries t @ [(n, f (Dir [] None))])"
  "d_params (tree_api doc) = tdir_params"
  "d_take_params (tree_api doc) d = (tdir_params d, Dir [] (tdir_child d))"
  "d_take_child (tree_api doc) d = (tdir_child d, Dir (tdir_params d) None)"
  "d_append_param (tree_api doc) d v = Dir (tdir_params d @ [v]) (tdir_child d)"
  by (simp_all add: tree_api_def)

lemma named_filter: "named (filter (\<lambda>e. fst e \<noteq> n) es) m = (if m = n then [] else named es m)"
  by (induction es) (auto simp: named_def)

lemma named_append: "named (es @ es') n = named es n @ named es' n"
  by (simp add: named_def)

lemma named_single: "named [(n, d)] m = (if m = n then [d] else [])"
  by (simp add: named_def)

lemma fst_tree_remove: "fst (tree_remove t n) = (if named (entries t) n = [] then None else Some (named (entries t) n))"
  by (simp add: tree_remove_def Let_def)

lemma tree_laws: "scfg_laws (tree_api doc)"
proof -
  have "\<exists>fresh. d_params (tree_api doc) fresh = [] \<and>
      (\<forall>f m. dirs (tree_api doc) (sc_add_with (tree_api doc) s n f) m =
        (if m = n then Some (case_option [] id (dirs (tree_api doc) s n) @ [f fresh])
         else dirs (tree_api doc) s m))" for s n
    by (intro exI [of _ "Dir [] None"])
      (auto simp: fst_tree_remove named_append named_single)
  then show ?thesis
    unfolding scfg_laws_def
    by (auto simp: fst_tree_remove tree_remove_def Let_def named_filter tree_get_def
        split: list.splits)
qed

end
