(* ===== verification/Scfg_Util.thy ===== *)
theory Scfg_Util
  imports Scfg_Tree
begin

text \<open>
  \<^verbatim>\<open>src/src/scfg_util.rs\<close> and \<^verbatim>\<open>RawCommand\<close> of \<^verbatim>\<open>src/src/main.rs\<close>: reading a directive that
  must occur at most once, reading a parameter that must occur exactly once, and replacing a
  \<^verbatim>\<open>cmd\<close> or \<^verbatim>\<open>shell\<close> block by the output of the command it names.
\<close>

section \<open>Commands\<close>

record raw_command =
  command :: string
  args :: "string list"

text \<open>\<^verbatim>\<open>RawCommand::from_args\<close>: the first argument is the program.\<close>

definition from_args :: "string list \<Rightarrow> raw_command option" where
  "from_args xs = (case xs of [] \<Rightarrow> None | x # rest \<Rightarrow> Some \<lparr>command = x, args = rest\<rparr>)"

text \<open>\<^verbatim>\<open>RawCommand::command\<close>: the argument vector of the process it starts.\<close>

definition argv :: "raw_command \<Rightarrow> string list" where
  "argv c = command c # args c"

lemma from_args_argv: "from_args (argv c) = Some c"
  by (simp add: from_args_def argv_def)

lemma from_args_Some_iff: "from_args xs = Some c \<longleftrightarrow> xs = argv c"
  by (cases c) (auto simp: from_args_def argv_def split: list.splits)

text \<open>
  The outcome of running a process with its output captured: it could not be started, or it
  ended with an exit code (none when a signal ended it) and what it wrote, decoded as UTF-8
  (\<open>Inl\<close>: not UTF-8, with the message of the decoder).
\<close>

record cmd_output =
  exit_code :: "int option"
  stdout_utf8 :: "string + string"

text \<open>
  The world answers each command; its answer may depend on the commands run so far, which
  \<open>cmd_log\<close> lists in order.
\<close>

type_synonym cmd_log = "raw_command list"
type_synonym cmd_world = "cmd_log \<Rightarrow> raw_command \<Rightarrow> failure + cmd_output"

section \<open>Reading directives and parameters\<close>

definition flatten_single_vec :: "'a list \<Rightarrow> 'a option" where
  "flatten_single_vec v = (if length v = 1 then Some (last v) else None)"

lemma flatten_single_vec_iff: "flatten_single_vec v = Some x \<longleftrightarrow> v = [x]"
  by (auto simp: flatten_single_vec_def length_Suc_conv)

definition take_single_directive ::
  "('s, 'd) scfg_api \<Rightarrow> string \<Rightarrow> 's \<Rightarrow> (failure + 'd option) \<times> 's"
where
  "take_single_directive A name config =
     (case sc_remove A config name of
        (Some directives, config') \<Rightarrow>
          (if length directives = 1 then Inr (Some (last directives))
           else bail (fmt [name, '' may only be specified once per block.'']), config')
      | (None, config') \<Rightarrow> (Inr None, config'))"

definition take_single_param :: "('s, 'd) scfg_api \<Rightarrow> 'd \<Rightarrow> (failure + string) \<times> 'd" where
  "take_single_param A directive =
     (case d_take_params A directive of (params, directive') \<Rightarrow>
        (case params of
           [] \<Rightarrow> bail ''a parameter must be specified''
         | param # rest \<Rightarrow>
             (if rest \<noteq> [] then bail ''no more than one parameter must be specified''
              else Inr param),
         directive'))"

definition take_single_param_from_directive ::
  "('s, 'd) scfg_api \<Rightarrow> string \<Rightarrow> 's \<Rightarrow> (failure + string) \<times> 's"
where
  "take_single_param_from_directive A name =
     sbind (take_single_directive A name) (\<lambda>d.
     sbind (slift (ok_or (fmt [''directive '', name, '' not found'']) d)) (\<lambda>directive.
     slift (with_context (fmt [''Parsing directive '', name]) (fst (take_single_param A directive)))))"

lemma take_single_directive_snd [simp]:
  "snd (take_single_directive A name s) = without A s name"
  by (simp add: take_single_directive_def split: prod.splits option.splits)

lemma take_single_directive_fst:
  "fst (take_single_directive A name s) =
     (case dirs A s name of
        None \<Rightarrow> Inr None
      | Some ds \<Rightarrow> if length ds = 1 then Inr (Some (last ds))
                  else bail (fmt [name, '' may only be specified once per block.'']))"
  by (simp add: take_single_directive_def split: prod.splits option.splits)

lemma take_single_directive_Some_iff:
  "fst (take_single_directive A name s) = Inr (Some d) \<longleftrightarrow> dirs A s name = Some [d]"
  by (auto simp: take_single_directive_fst length_Suc_conv split: option.splits if_splits)

lemma take_single_directive_None_iff:
  "fst (take_single_directive A name s) = Inr None \<longleftrightarrow> dirs A s name = None"
  by (auto simp: take_single_directive_fst split: option.splits if_splits)

lemma take_single_param_ok_iff:
  "fst (take_single_param A d) = Inr p \<longleftrightarrow> fst (d_take_params A d) = [p]"
  by (auto simp: take_single_param_def split: prod.splits list.splits)

lemma take_single_param_snd [simp]:
  "snd (take_single_param A d) = snd (d_take_params A d)"
  by (simp add: take_single_param_def split: prod.splits)

lemma take_single_param_from_directive_snd [simp]:
  "snd (take_single_param_from_directive A name s) = without A s name"
  by (auto simp: take_single_param_from_directive_def sbind_parts split: sum.splits)

lemma take_single_param_from_directive_fst:
  "fst (take_single_param_from_directive A name s) =
     rbind (fst (take_single_directive A name s)) (\<lambda>d.
     rbind (ok_or (fmt [''directive '', name, '' not found'']) d) (\<lambda>directive.
     with_context (fmt [''Parsing directive '', name]) (fst (take_single_param A directive))))"
  by (simp add: take_single_param_from_directive_def fst_sbind rbind_def split: sum.splits)

lemma take_single_param_from_directive_ok_iff:
  "fst (take_single_param_from_directive A name s) = Inr p \<longleftrightarrow>
     (\<exists>d. dirs A s name = Some [d] \<and> fst (d_take_params A d) = [p])"
  by (auto simp: take_single_param_from_directive_def fst_sbind take_single_param_ok_iff
      take_single_directive_Some_iff [symmetric] split: sum.splits)

section \<open>Resolving commands\<close>

text \<open>
  The command of a \<^verbatim>\<open>cmd\<close> or \<^verbatim>\<open>shell\<close> block, in the order \<^verbatim>\<open>resolve_cmd_inplace\<close> looks for
  them.
\<close>

definition block_command :: "('s, 'd) scfg_api \<Rightarrow> 's \<Rightarrow> failure + raw_command" where
  "block_command A block =
     fst (sbind (take_single_directive A ''cmd'') (\<lambda>cmd.
       case cmd of
         Some cmd_block \<Rightarrow>
           slift (ok_or ''cmd must define at least one parameter''
             (from_args (fst (d_take_params A cmd_block))))
       | None \<Rightarrow>
           sbind (take_single_directive A ''shell'') (\<lambda>shell.
             case shell of
               Some shell_block \<Rightarrow>
                 slift (ok_or ''shell must define at least one parameter''
                   (from_args [''sh'', ''-c'', join_with '' '' (fst (d_take_params A shell_block))]))
             | None \<Rightarrow> slift (bail ''Block must include a 'cmd' or 'shell' directive''))) block)"

definition command_value :: "string \<Rightarrow> failure + cmd_output \<Rightarrow> failure + string" where
  "command_value name output =
     rbind (with_context (fmt [''Error executing command for '', name, '' directive'']) output) (\<lambda>out.
     rbind (case exit_code out of
              Some code \<Rightarrow>
                if code = 0 then (case stdout_utf8 out of Inl m \<Rightarrow> Inl (Err [m]) | Inr s \<Rightarrow> Inr (trim s))
                else bail (fmt [''Command exited with status '', show_int code, ''.''])
            | None \<Rightarrow> bail ''Command exited unexpectedly.'') (\<lambda>value.
     if name = ''password'' \<and> value = []
     then bail ''Password command returned an empty string.''
     else Inr value))"

text \<open>The value of a directive: its only parameter, or the output of its block's command.\<close>

definition directive_value ::
  "('s, 'd) scfg_api \<Rightarrow> cmd_world \<Rightarrow> string \<Rightarrow> 'd \<Rightarrow> cmd_log \<Rightarrow> (failure + string) \<times> cmd_log"
where
  "directive_value A run name directive log =
     (case d_take_params A directive of (params, directive') \<Rightarrow>
        (case params of
           param # rest \<Rightarrow>
             (if rest \<noteq> [] then bail (fmt [''Found more than one parameter for directive '', name])
              else Inr param, log)
         | [] \<Rightarrow>
             (case rbind (ok_or ''Must define a parameter or a block'' (fst (d_take_child A directive')))
                     (block_command A) of
                Inl e \<Rightarrow> (Inl e, log)
              | Inr raw_cmd \<Rightarrow> (command_value name (run log raw_cmd), log @ [raw_cmd]))))"

definition resolve_cmd_inplace ::
  "('s, 'd) scfg_api \<Rightarrow> cmd_world \<Rightarrow> string \<Rightarrow> 's \<times> cmd_log \<Rightarrow> (failure + unit) \<times> 's \<times> cmd_log"
where
  "resolve_cmd_inplace A run name = (\<lambda>(storage, log).
     (case take_single_directive A name storage of
        (Inl e, storage') \<Rightarrow> (Inl e, storage', log)
      | (Inr None, storage') \<Rightarrow> (Inr (), storage', log)
      | (Inr (Some directive), storage') \<Rightarrow>
          (case directive_value A run name directive log of
             (Inl e, log') \<Rightarrow> (Inl e, storage', log')
           | (Inr value, log') \<Rightarrow>
               (Inr (), sc_add_with A storage' name (\<lambda>d. d_append_param A d value), log'))))"

section \<open>The contract of a reader that consumes what it reads\<close>

text \<open>
  The callers read a block one directive after another. What they rely on is that a reader
  removes the directive it is asked for, leaves every other one alone, and looks at nothing
  else.
\<close>

locale consuming_reader =
  fixes laws :: "'api \<Rightarrow> bool"
    and view :: "'api \<Rightarrow> 's \<Rightarrow> string \<Rightarrow> 'd list option"
    and reads :: "'api \<Rightarrow> string \<Rightarrow> 's \<Rightarrow> (failure + 'a) \<times> 's"
  assumes leaves: "laws A \<Longrightarrow> view A (snd (reads A n s)) m = (if m = n then None else view A s m)"
    and looks_at: "view A s n = view A t n \<Longrightarrow> fst (reads A n s) = fst (reads A n t)"
begin

lemma others_unaffected:
  assumes "laws A" and "m \<noteq> n"
  shows "fst (reads A m (snd (reads A n s))) = fst (reads A m s)"
  by (rule looks_at) (use assms in \<open>simp add: leaves\<close>)

lemma order_irrelevant:
  assumes "laws A" and "m \<noteq> n"
  shows "fst (reads A m (snd (reads A n s))) = fst (reads A m s) \<and>
         fst (reads A n (snd (reads A m s))) = fst (reads A n s) \<and>
         view A (snd (reads A m (snd (reads A n s)))) = view A (snd (reads A n (snd (reads A m s))))"
  using others_unaffected [OF assms] others_unaffected [OF assms(1) assms(2) [symmetric]]
  by (auto simp: leaves [OF assms(1)] fun_eq_iff)

lemma consumed: "laws A \<Longrightarrow> view A (snd (reads A n s)) n = None"
  by (simp add: leaves)

end

interpretation single: consuming_reader scfg_laws "\<lambda>A s n. dirs A s n" take_single_directive
  by unfold_locales (auto simp: dirs_without take_single_directive_fst)

interpretation param: consuming_reader scfg_laws "\<lambda>A s n. dirs A s n" take_single_param_from_directive
proof unfold_locales
  fix A :: "('s, 'd) scfg_api" and s t n
  assume "dirs A s n = dirs A t n"
  then show "fst (take_single_param_from_directive A n s) = fst (take_single_param_from_directive A n t)"
    by (simp add: take_single_param_from_directive_fst take_single_directive_fst)
qed (simp add: dirs_without)

section \<open>What resolving a command does\<close>

lemma directive_value_ok_cases:
  assumes "directive_value A run name d log = (Inr v, log')"
  obtains (literal) "fst (d_take_params A d) = [v]" "log' = log"
  | (executed) block c out captured where
      "fst (d_take_params A d) = []"
      "fst (d_take_child A (snd (d_take_params A d))) = Some block"
      "block_command A block = Inr c" "run log c = Inr out"
      "exit_code out = Some 0" "stdout_utf8 out = Inr captured" "v = trim captured"
      "name = ''password'' \<longrightarrow> v \<noteq> []" "log' = log @ [c]"
proof (cases "fst (d_take_params A d)")
  case (Cons p rest)
  with assms show thesis
    by (intro literal) (auto simp: directive_value_def split: prod.splits if_splits)
next
  case Nil
  with assms obtain block c where bc:
    "fst (d_take_child A (snd (d_take_params A d))) = Some block"
    "block_command A block = Inr c" "log' = log @ [c]" "command_value name (run log c) = Inr v"
    by (auto simp: directive_value_def rbind_eq_Inr_iff split: prod.splits sum.splits)
  from bc(4) obtain out captured where
    "run log c = Inr out" "exit_code out = Some 0" "stdout_utf8 out = Inr captured" "v = trim captured"
    "name = ''password'' \<longrightarrow> v \<noteq> []"
    by (auto simp: command_value_def rbind_eq_Inr_iff split: option.splits if_splits sum.splits)
  with Nil bc show thesis by (intro executed)
qed

lemma directive_value_literal:
  "fst (d_take_params A d) = [v] \<Longrightarrow> directive_value A run name d log = (Inr v, log)"
  by (auto simp: directive_value_def split: prod.splits)

lemma directive_value_log:
  "snd (directive_value A run name d log) = log \<or>
   (\<exists>c. snd (directive_value A run name d log) = log @ [c])"
  by (auto simp: directive_value_def split: prod.splits list.splits sum.splits)

lemma resolve_ok_cases:
  assumes "resolve_cmd_inplace A run name (s, log) = (Inr (), s', log')"
  obtains (absent) "dirs A s name = None" "s' = without A s name" "log' = log"
  | (present) d v where "dirs A s name = Some [d]" "directive_value A run name d log = (Inr v, log')"
      "s' = sc_add_with A (without A s name) name (\<lambda>d. d_append_param A d v)"
proof -
  obtain r where r: "take_single_directive A name s = (r, without A s name)"
    by (metis prod.collapse take_single_directive_snd)
  then have fst_r: "fst (take_single_directive A name s) = r" by simp
  show thesis
  proof (cases r)
    case (Inl e)
    with r assms show thesis by (simp add: resolve_cmd_inplace_def)
  next
    case (Inr x)
    show thesis
    proof (cases x)
      case None
      with r Inr assms have "s' = without A s name" "log' = log"
        by (simp_all add: resolve_cmd_inplace_def)
      moreover have "dirs A s name = None"
        using fst_r Inr None take_single_directive_None_iff by metis
      ultimately show thesis by (intro absent)
    next
      case (Some d)
      with r Inr assms obtain v where "directive_value A run name d log = (Inr v, log')"
        "s' = sc_add_with A (without A s name) name (\<lambda>d. d_append_param A d v)"
        by (auto simp: resolve_cmd_inplace_def split: prod.splits sum.splits)
      moreover have "dirs A s name = Some [d]"
        using fst_r Inr Some take_single_directive_Some_iff by metis
      ultimately show thesis by (intro present)
    qed
  qed
qed

lemma resolve_log:
  "resolve_cmd_inplace A run name (s, log) = (r, s', log') \<Longrightarrow> log' = log \<or> (\<exists>c. log' = log @ [c])"
  using directive_value_log [of A run name _ log]
  by (auto simp: resolve_cmd_inplace_def split: prod.splits sum.splits option.splits)
    (metis snd_conv)+

lemma add_other:
  assumes "scfg_laws A" and "m \<noteq> n"
  shows "dirs A (sc_add_with A s n f) m = dirs A s m"
  using scfg_laws_add [OF assms(1), of s n] assms(2) by metis

lemma resolve_frame:
  assumes "scfg_laws A" and "resolve_cmd_inplace A run name (s, log) = (r, s', log')" and "m \<noteq> name"
  shows "dirs A s' m = dirs A s m"
proof -
  have "take_single_directive A name s = (fst (take_single_directive A name s), without A s name)"
    by (metis prod.collapse take_single_directive_snd)
  with assms(2) have "s' = without A s name \<or>
      (\<exists>v. s' = sc_add_with A (without A s name) name (\<lambda>d. d_append_param A d v))"
    by (auto simp: resolve_cmd_inplace_def split: prod.splits sum.splits option.splits)
  then show ?thesis
    using assms(3) by (auto simp: dirs_without [OF assms(1)] add_other [OF assms(1)])
qed

lemma resolved_value:
  assumes "scfg_laws A" and "dirs A s name = Some [d]"
    and "s' = sc_add_with A (without A s name) name (\<lambda>d. d_append_param A d v)"
  obtains d' where "dirs A s' name = Some [d']" "fst (d_take_params A d') = [v]"
proof -
  from scfg_laws_add [OF assms(1), of "without A s name" name] obtain fresh
    where "d_params A fresh = []"
      and "\<And>f. dirs A (sc_add_with A (without A s name) name f) name = Some [f fresh]"
    by (metis append_Nil assms(1) dirs_without option.simps(4))
  with assms(3) show thesis
    by (intro that [of "d_append_param A fresh v"])
      (simp_all add: take_params_params [OF assms(1)] append_param_params [OF assms(1)])
qed

lemma resolve_unchanged_value:
  assumes "scfg_laws A" and "dirs A s name = Some [d]" and "fst (d_take_params A d) = [v]"
  shows "resolve_cmd_inplace A run name (s, log) =
    (Inr (), sc_add_with A (without A s name) name (\<lambda>d. d_append_param A d v), log)"
proof -
  have "take_single_directive A name s = (Inr (Some d), without A s name)"
    by (metis assms(2) prod.collapse take_single_directive_Some_iff take_single_directive_snd)
  then show ?thesis
    by (simp add: resolve_cmd_inplace_def directive_value_literal [OF assms(3)])
qed

section \<open>Properties\<close>


definition echo_doc :: tree where
  "echo_doc = Block [(''password'', Dir [] (Some (Block [(''cmd'', Dir [''pass'', ''show''] None)]))),
                     (''url'', Dir [''u''] None)]"

definition echo_world :: cmd_world where
  "echo_world log c = Inr \<lparr>exit_code = Some 0, stdout_utf8 = Inr ('' s3cret'' @ [CHR 0x0A])\<rparr>"

lemma echo_resolves:
  "resolve_cmd_inplace (tree_api echo_doc) echo_world ''password'' (echo_doc, []) =
     (Inr (), Block [(''url'', Dir [''u''] None), (''password'', Dir [''s3cret''] None)],
      [\<lparr>command = ''pass'', args = [''show'']\<rparr>])"
  by code_simp


text \<open>
  C13. Resolving a directive a second time succeeds, runs no further command and leaves every
  value as it is: once a block has been resolved, the credentials are never asked for again.
\<close>
theorem resolve_cmd_inplace_idempotent:
  assumes "scfg_laws A" and "resolve_cmd_inplace A run name (s, log) = (Inr (), s', log')"
  shows "\<exists>s''. resolve_cmd_inplace A run name (s', log') = (Inr (), s'', log') \<and>
    fst (take_single_param_from_directive A name s'') = fst (take_single_param_from_directive A name s') \<and>
    (\<forall>m. m \<noteq> name \<longrightarrow> dirs A s'' m = dirs A s' m)"
  using assms(2)
proof (cases rule: resolve_ok_cases)
  case absent
  then have "dirs A s' name = None" by (simp add: dirs_without [OF assms(1)])
  then have "take_single_directive A name s' = (Inr None, without A s' name)"
    by (metis prod.collapse take_single_directive_None_iff take_single_directive_snd)
  then show ?thesis
    using \<open>dirs A s' name = None\<close>
    by (auto simp: resolve_cmd_inplace_def take_single_param_from_directive_fst
        take_single_directive_fst dirs_without [OF assms(1)])
next
  case (present d v)
  obtain d' where d': "dirs A s' name = Some [d']" "fst (d_take_params A d') = [v]"
    using resolved_value [OF assms(1) present(1,3)] .
  have again: "resolve_cmd_inplace A run name (s', log') =
      (Inr (), sc_add_with A (without A s' name) name (\<lambda>d. d_append_param A d v), log')"
    by (rule resolve_unchanged_value [OF assms(1) d'])
  obtain d'' where "dirs A (sc_add_with A (without A s' name) name (\<lambda>d. d_append_param A d v)) name = Some [d'']"
    "fst (d_take_params A d'') = [v]"
    using resolved_value [OF assms(1) d'(1) refl] .
  then have "fst (take_single_param_from_directive A name
      (sc_add_with A (without A s' name) name (\<lambda>d. d_append_param A d v))) = Inr v"
    by (auto simp: take_single_param_from_directive_ok_iff)
  moreover have "fst (take_single_param_from_directive A name s') = Inr v"
    using d' by (auto simp: take_single_param_from_directive_ok_iff)
  ultimately show ?thesis
    using again resolve_frame [OF assms(1) again] by auto
qed

theorem resolve_cmd_inplace_idempotent_witness:
  "\<exists>s''. resolve_cmd_inplace (tree_api echo_doc) echo_world ''password''
      (Block [(''url'', Dir [''u''] None), (''password'', Dir [''s3cret''] None)],
       [\<lparr>command = ''pass'', args = [''show'']\<rparr>]) =
    (Inr (), s'', [\<lparr>command = ''pass'', args = [''show'']\<rparr>])"
  using resolve_cmd_inplace_idempotent [OF tree_laws echo_resolves] by blast

text \<open>
  A \<^verbatim>\<open>shell\<close> directive always yields a command: even without a parameter it becomes
  \<^verbatim>\<open>sh -c ""\<close>, so the message that it must define at least one parameter is never produced.
\<close>
theorem shell_block_always_runs:
  assumes "scfg_laws A" and "dirs A block ''cmd'' = None" and "dirs A block ''shell'' = Some [d]"
  shows "block_command A block =
    Inr \<lparr>command = ''sh'', args = [''-c'', join_with '' '' (fst (d_take_params A d))]\<rparr>"
proof -
  have "take_single_directive A ''cmd'' block = (Inr None, without A block ''cmd'')"
    by (metis assms(2) prod.collapse take_single_directive_None_iff take_single_directive_snd)
  moreover have "fst (take_single_directive A ''shell'' (without A block ''cmd'')) = Inr (Some d)"
    by (simp add: take_single_directive_Some_iff dirs_without [OF assms(1)] assms(3))
  ultimately show ?thesis
    by (simp add: block_command_def fst_sbind from_args_def)
qed

theorem shell_block_always_runs_witness:
  "block_command (tree_api (Block [])) (Block [(''shell'', Dir [] None)]) =
     Inr \<lparr>command = ''sh'', args = [''-c'', []]\<rparr>"
  using shell_block_always_runs [OF tree_laws, of "Block []" "Block [(''shell'', Dir [] None)]" "Dir [] None"]
  by (simp add: fst_tree_remove named_def)

end
