(* ===== verification/Tls.thy ===== *)
theory Tls
  imports Prelude
begin

text \<open>
  \<^verbatim>\<open>src/src/tls.rs\<close>: the two certificate verifiers and the reader of PEM bundles. The digest,
  the hexadecimal decoder, the WebPKI verifier and the PEM parser are parameters.
\<close>

type_synonym bytes = "8 word list"

section \<open>Verifying a server certificate\<close>

text \<open>What the TLS library hands to \<^verbatim>\<open>verify_server_cert\<close>.\<close>

record handshake =
  end_entity :: bytes
  intermediates :: "bytes list"
  server_name :: string
  ocsp_response :: bytes
  now :: nat

datatype rustls_error = FingerprintError | OtherRustls string

record fingerprint_verifier =
  fingerprint :: bytes

definition fingerprint_new :: "(string \<Rightarrow> failure + bytes) \<Rightarrow> string \<Rightarrow> failure + fingerprint_verifier" where
  "fingerprint_new hex_decode hex_fingerprint =
     rmap (\<lambda>fp. \<lparr>fingerprint = fp\<rparr>) (hex_decode hex_fingerprint)"

definition fingerprint_verify ::
  "(bytes \<Rightarrow> bytes) \<Rightarrow> fingerprint_verifier \<Rightarrow> handshake \<Rightarrow> rustls_error + unit"
where
  "fingerprint_verify sha256 v h =
     (let fp = sha256 (end_entity h)
      in if fingerprint v = fp then Inr () else Inl FingerprintError)"

text \<open>
  \<^verbatim>\<open>FingerprintAndWebPkiVerifier\<close>: a fingerprint verifier and the WebPKI verifier that the
  library builds for the configured roots, represented by those roots; \<open>webpki\<close> is its
  \<^verbatim>\<open>verify_server_cert\<close>. The library may refuse to build a verifier.
\<close>

datatype both_verifier = FingerprintAndWebPki fingerprint_verifier "bytes list"

definition both_new ::
  "(bytes list \<Rightarrow> failure + unit) \<Rightarrow> fingerprint_verifier \<Rightarrow> bytes list \<Rightarrow> failure + both_verifier"
where
  "both_new webpki_build fp roots = rmap (\<lambda>_. FingerprintAndWebPki fp roots) (webpki_build roots)"

fun both_verify ::
  "(bytes \<Rightarrow> bytes) \<Rightarrow> (bytes list \<Rightarrow> handshake \<Rightarrow> rustls_error + unit) \<Rightarrow>
    both_verifier \<Rightarrow> handshake \<Rightarrow> rustls_error + unit"
where
  "both_verify sha256 webpki (FingerprintAndWebPki fp roots) h =
     rbind (fingerprint_verify sha256 fp h) (\<lambda>_. webpki roots h)"

fun both_pin :: "both_verifier \<Rightarrow> bytes" where
  "both_pin (FingerprintAndWebPki fp roots) = fingerprint fp"

text \<open>
  What a configuration with \<^verbatim>\<open>tls_fingerprint\<close> relies on, whichever verifier is built: only
  certificates with the pinned digest are accepted.
\<close>

locale pinned_verifier =
  fixes digest :: "bytes \<Rightarrow> bytes"
    and pin :: "'v \<Rightarrow> bytes"
    and verify :: "'v \<Rightarrow> handshake \<Rightarrow> rustls_error + unit"
  assumes accepts_pinned: "verify v h = Inr () \<Longrightarrow> digest (end_entity h) = pin v"
    and rejects_other: "digest (end_entity h) \<noteq> pin v \<Longrightarrow> verify v h = Inl FingerprintError"
begin

lemma accepted_same_digest:
  "verify v h = Inr () \<Longrightarrow> verify v h' = Inr () \<Longrightarrow> digest (end_entity h) = digest (end_entity h')"
  by (simp add: accepts_pinned)

lemma wrong_length_rejects:
  assumes "\<And>m. length (digest m) = n" and "length (pin v) \<noteq> n"
  shows "verify v h = Inl FingerprintError"
  using assms(1) [of "end_entity h"] assms(2) by (intro rejects_other) auto

end

interpretation fp_only: pinned_verifier sha256 fingerprint "fingerprint_verify sha256" for sha256
  by unfold_locales (auto simp: fingerprint_verify_def Let_def split: if_splits)

interpretation fp_both: pinned_verifier sha256 both_pin "both_verify sha256 webpki" for sha256 webpki
proof unfold_locales
  fix v h
  show "both_verify sha256 webpki v h = Inr () \<Longrightarrow> sha256 (end_entity h) = both_pin v"
    by (cases v) (auto simp: rbind_eq_Inr_iff dest: fp_only.accepts_pinned)
  show "sha256 (end_entity h) \<noteq> both_pin v \<Longrightarrow> both_verify sha256 webpki v h = Inl FingerprintError"
    by (cases v) (simp add: fp_only.rejects_other)
qed

section \<open>Signatures\<close>

text \<open>
  Neither verifier checks signatures itself: both hand them to \<^verbatim>\<open>rustls\<close>, with the algorithms
  of the \<^verbatim>\<open>ring\<close> provider, and neither consults the fingerprint or the roots for it.
\<close>

record ('alg, 'dss, 'scheme) rustls_crypto =
  rc_tls12 :: "bytes \<Rightarrow> bytes \<Rightarrow> 'dss \<Rightarrow> 'alg \<Rightarrow> rustls_error + unit"
  rc_tls13 :: "bytes \<Rightarrow> bytes \<Rightarrow> 'dss \<Rightarrow> 'alg \<Rightarrow> rustls_error + unit"
  rc_ring_algorithms :: 'alg
  rc_supported_schemes :: "'alg \<Rightarrow> 'scheme list"

definition fingerprint_tls12 ::
  "('alg, 'dss, 'scheme) rustls_crypto \<Rightarrow> fingerprint_verifier \<Rightarrow> bytes \<Rightarrow> bytes \<Rightarrow> 'dss \<Rightarrow> rustls_error + unit"
where
  "fingerprint_tls12 R v message cert dss = rc_tls12 R message cert dss (rc_ring_algorithms R)"

definition fingerprint_tls13 ::
  "('alg, 'dss, 'scheme) rustls_crypto \<Rightarrow> fingerprint_verifier \<Rightarrow> bytes \<Rightarrow> bytes \<Rightarrow> 'dss \<Rightarrow> rustls_error + unit"
where
  "fingerprint_tls13 R v message cert dss = rc_tls13 R message cert dss (rc_ring_algorithms R)"

definition fingerprint_schemes ::
  "('alg, 'dss, 'scheme) rustls_crypto \<Rightarrow> fingerprint_verifier \<Rightarrow> 'scheme list"
where
  "fingerprint_schemes R v = rc_supported_schemes R (rc_ring_algorithms R)"

definition both_tls12 ::
  "('alg, 'dss, 'scheme) rustls_crypto \<Rightarrow> both_verifier \<Rightarrow> bytes \<Rightarrow> bytes \<Rightarrow> 'dss \<Rightarrow> rustls_error + unit"
where
  "both_tls12 R v message cert dss = rc_tls12 R message cert dss (rc_ring_algorithms R)"

definition both_tls13 ::
  "('alg, 'dss, 'scheme) rustls_crypto \<Rightarrow> both_verifier \<Rightarrow> bytes \<Rightarrow> bytes \<Rightarrow> 'dss \<Rightarrow> rustls_error + unit"
where
  "both_tls13 R v message cert dss = rc_tls13 R message cert dss (rc_ring_algorithms R)"

definition both_schemes ::
  "('alg, 'dss, 'scheme) rustls_crypto \<Rightarrow> both_verifier \<Rightarrow> 'scheme list"
where
  "both_schemes R v = rc_supported_schemes R (rc_ring_algorithms R)"

definition fingerprint_error_text :: string where
  "fingerprint_error_text = ''certificate fingerprint does not match expectation''"

section \<open>PEM bundles\<close>

datatype section_kind = Certificate | EcPrivateKey | PrivateKey | RsaPrivateKey | OtherSection

datatype private_key = Sec1 bytes | Pkcs8 bytes | Pkcs1 bytes

type_synonym pem_items = "(failure + section_kind \<times> bytes) list"

fun pem_loop ::
  "string \<Rightarrow> pem_items \<Rightarrow> bytes list \<Rightarrow> private_key option \<Rightarrow> failure + (bytes list \<times> private_key option)"
where
  "pem_loop path [] certs raw_key = Inr (certs, raw_key)"
| "pem_loop path (Inl e # items) certs raw_key = Inl e"
| "pem_loop path (Inr (kind, der) # items) certs raw_key =
     (case kind of
        Certificate \<Rightarrow> pem_loop path items (certs @ [der]) raw_key
      | EcPrivateKey \<Rightarrow>
          (if raw_key \<noteq> None then bail (fmt [''multiple keys found in '', path])
           else pem_loop path items certs (Some (Sec1 der)))
      | PrivateKey \<Rightarrow>
          (if raw_key \<noteq> None then bail (fmt [''multiple keys found in '', path])
           else pem_loop path items certs (Some (Pkcs8 der)))
      | RsaPrivateKey \<Rightarrow>
          (if raw_key \<noteq> None then bail (fmt [''multiple keys found in '', path])
           else pem_loop path items certs (Some (Pkcs1 der)))
      | OtherSection \<Rightarrow> pem_loop path items certs raw_key)"

definition cert_and_key_from_pemfile ::
  "(string \<Rightarrow> failure + pem_items) \<Rightarrow> string \<Rightarrow> failure + (bytes list \<times> private_key)"
where
  "cert_and_key_from_pemfile pem_file_iter path =
     rbind (pem_file_iter path) (\<lambda>items.
     rbind (pem_loop path items [] None) (\<lambda>(certs, raw_key).
     rbind (ok_or (fmt [''no key found in '', path]) raw_key) (\<lambda>key.
     Inr (certs, key))))"

text \<open>What a bundle holds, read off without the loop.\<close>

fun key_of :: "section_kind \<times> bytes \<Rightarrow> private_key option" where
  "key_of (EcPrivateKey, der) = Some (Sec1 der)"
| "key_of (PrivateKey, der) = Some (Pkcs8 der)"
| "key_of (RsaPrivateKey, der) = Some (Pkcs1 der)"
| "key_of _ = None"

definition bundle_certs :: "(section_kind \<times> bytes) list \<Rightarrow> bytes list" where
  "bundle_certs xs = map snd (filter (\<lambda>x. fst x = Certificate) xs)"

definition bundle_keys :: "(section_kind \<times> bytes) list \<Rightarrow> private_key list" where
  "bundle_keys xs = List.map_filter key_of xs"

lemma bundle_simps [simp]:
  "bundle_certs [] = []" "bundle_keys [] = []"
  "bundle_certs (x # xs) = (if fst x = Certificate then [snd x] else []) @ bundle_certs xs"
  "bundle_keys (x # xs) = (case key_of x of None \<Rightarrow> [] | Some k \<Rightarrow> [k]) @ bundle_keys xs"
  by (simp_all add: bundle_certs_def bundle_keys_def map_filter_simps split: option.splits)

lemma pem_loop_readable: "pem_loop path items certs raw_key = Inr r \<Longrightarrow> \<exists>xs. items = map Inr xs"
proof (induction path items certs raw_key rule: pem_loop.induct)
  case (3 path kind der items certs raw_key)
  then have "\<exists>xs. items = map Inr xs"
    by (cases kind) (auto split: if_splits)
  then show ?case by (metis list.simps(9))
qed auto

lemma pem_loop_key:
  "pem_loop path (map Inr xs) certs (Some k) =
     (if bundle_keys xs = [] then Inr (certs @ bundle_certs xs, Some k)
      else bail (fmt [''multiple keys found in '', path]))"
proof (induction xs arbitrary: certs)
  case (Cons x xs)
  obtain kind der where x: "x = (kind, der)" by (cases x)
  show ?case by (cases kind) (simp_all add: x Cons)
qed simp

lemma pem_loop_no_key:
  "pem_loop path (map Inr xs) certs None =
     (case bundle_keys xs of
        [] \<Rightarrow> Inr (certs @ bundle_certs xs, None)
      | [k] \<Rightarrow> Inr (certs @ bundle_certs xs, Some k)
      | _ \<Rightarrow> bail (fmt [''multiple keys found in '', path]))"
proof (induction xs arbitrary: certs)
  case (Cons x xs)
  obtain kind der where x: "x = (kind, der)" by (cases x)
  show ?case by (cases kind) (simp_all add: x Cons pem_loop_key split: list.split)
qed simp

text \<open>
  C39. Reading a PEM bundle succeeds exactly when every section is readable and exactly one of
  them is a private key; it then returns the certificates in file order and that key, tagged
  with its encoding. Any other bundle is an error.
\<close>
theorem cert_and_key_iff:
  "cert_and_key_from_pemfile pem_file_iter path = Inr (certs, key) \<longleftrightarrow>
     (\<exists>xs. pem_file_iter path = Inr (map Inr xs) \<and>
       certs = bundle_certs xs \<and> bundle_keys xs = [key])"
  (is "?lhs \<longleftrightarrow> ?rhs")
proof
  assume lhs: ?lhs
  then obtain items where items: "pem_file_iter path = Inr items"
    "pem_loop path items [] None = Inr (certs, Some key)"
    by (auto simp: cert_and_key_from_pemfile_def rbind_eq_Inr_iff)
  with pem_loop_readable obtain xs where "items = map Inr xs" by blast
  with items show ?rhs by (auto simp: pem_loop_no_key split: list.splits)
next
  assume ?rhs
  then show ?lhs by (auto simp: cert_and_key_from_pemfile_def pem_loop_no_key)
qed

text \<open>
  A configured fingerprint whose length is not that of the digest is accepted when the
  configuration is read, and from then on every certificate is refused.
\<close>
theorem wrong_length_fingerprint:
  assumes "\<And>m. length (sha256 m) = 32" and "hex_decode s = Inr fp" and "length fp \<noteq> 32"
  shows "\<exists>v. fingerprint_new hex_decode s = Inr v \<and>
    (\<forall>h. fingerprint_verify sha256 v h = Inl FingerprintError)"
proof -
  have "fingerprint_verify sha256 \<lparr>fingerprint = fp\<rparr> h = Inl FingerprintError" for h
    by (rule fp_only.wrong_length_rejects [OF assms(1)]) (simp add: assms(3))
  then show ?thesis by (auto simp: fingerprint_new_def assms(2))
qed

theorem wrong_length_fingerprint_witness:
  "\<exists>v. fingerprint_new (\<lambda>_. Inr [1, 2]) ''0102'' = Inr v \<and>
     (\<forall>h. fingerprint_verify (\<lambda>_. replicate 32 0) v h = Inl FingerprintError)"
  by (rule wrong_length_fingerprint [where fp = "[1, 2]"]) simp_all

end
