(* ===== verification/Storage_Config.thy ===== *)
theory Storage_Config
  imports Scfg_Util Tls
begin

text \<open>
  The part of \<^verbatim>\<open>src/src/config.rs\<close> that turns the block of a storage into a storage:
  \<^verbatim>\<open>init_storage\<close> and the parsers it calls. What they call outside the repository (the
  parsers of URIs, header values and collection ids, base64, the certificate files, the file
  system, the network set-up of a DAV or JMAP server, the environment) is the record \<open>host\<close>.
  A storage is described by the constructor and the arguments it is built with. Log messages
  are left out.
\<close>

datatype item_kind = Calendar | AddressBook

datatype collection_id_segment = Last | SecondLast

section \<open>Clients and storages\<close>

text \<open>How a \<^verbatim>\<open>rustls::ClientConfig\<close> checks the server and authenticates the client.\<close>

datatype server_auth =
    NativeRoots
  | RootCertificates "bytes list"
  | CustomFingerprint fingerprint_verifier
  | CustomBoth both_verifier

record tls_config =
  server_auth :: server_auth
  client_auth :: "(bytes list \<times> private_key) option"

text \<open>Connectors: a fixed Unix socket, or HTTPS, through a proxy when there is one.\<close>

datatype 'uri connector = UnixConnector string | HttpsConnector tls_config "'uri option"

datatype ('uri, 'hv) http_client =
    HyperClient "'uri connector"
  | SetRequestHeader string "'hv option" "('uri, 'hv) http_client"

datatype ('uri, 'hv, 'cid) storage =
    VdirStorage string "string option" item_kind
  | CardDavStorage "('uri, 'hv) http_client" 'uri collection_id_segment bool
  | CalDavStorage "('uri, 'hv) http_client" 'uri collection_id_segment bool
  | WebCalStorage "('uri, 'hv) http_client" 'uri 'cid
  | JmapStorage "('uri, 'hv) http_client" 'uri 'uri item_kind
  | ReadOnlyStorage "('uri, 'hv, 'cid) storage"

record ('uri, 'hv, 'cid) host =
  parse_uri :: "string \<Rightarrow> failure + 'uri"
  to_header :: "string \<Rightarrow> failure + 'hv"
  set_sensitive :: "'hv \<Rightarrow> 'hv"
  base64 :: "string \<Rightarrow> string"
  parse_cid :: "string \<Rightarrow> failure + 'cid"
  env_http_proxy :: "string option"
  home_dir :: "(failure + string) option"   \<comment> \<open>with the conversion to UTF-8\<close>
  path_join :: "string \<Rightarrow> string \<Rightarrow> string"
  vdir_builder :: "string \<Rightarrow> failure + unit"
  default_segment :: collection_id_segment
  hex_decode :: "string \<Rightarrow> failure + bytes"
  pem_sections :: "string \<Rightarrow> failure + pem_items"
  pem_certs :: "string \<Rightarrow> failure + (failure + bytes) list"
  pem_key :: "string \<Rightarrow> failure + private_key"
  root_add :: "bytes list \<Rightarrow> bytes \<Rightarrow> failure + bytes list"
  webpki_build :: "bytes list \<Rightarrow> failure + unit"
  native_roots :: "failure + unit"
  client_auth_cert :: "bytes list \<Rightarrow> private_key \<Rightarrow> failure + unit"
  dav_bootstrap :: "('uri, 'hv) http_client \<Rightarrow> 'uri \<Rightarrow> failure + unit"
  storage_build :: "('uri, 'hv, 'cid) storage \<Rightarrow> failure + unit"
  jmap_session :: "('uri, 'hv) http_client \<Rightarrow> 'uri \<Rightarrow> failure + ('uri \<times> string option)"
  version :: string
  jmap_enabled :: bool   \<comment> \<open>the cargo feature \<^verbatim>\<open>jmap\<close>\<close>

section \<open>Helpers\<close>

definition into_arc :: "('uri, 'hv, 'cid) storage \<Rightarrow> bool \<Rightarrow> ('uri, 'hv, 'cid) storage" where
  "into_arc storage read_only = (if read_only then ReadOnlyStorage storage else storage)"

text \<open>
  \<^verbatim>\<open>expand_tilde\<close>: only a leading \<^verbatim>\<open>~/\<close> is expanded; without a home directory it panics.
\<close>

definition expand_tilde :: "('uri, 'hv, 'cid) host \<Rightarrow> string \<Rightarrow> failure + string" where
  "expand_tilde H orig =
     (case orig of
        c # d # rest \<Rightarrow>
          (if c = CHR ''~'' \<and> d = CHR ''/'' then
             (case home_dir H of
                None \<Rightarrow> Inl (Panic ''must resolve home path to expand tilde'')
              | Some home \<Rightarrow> rmap (\<lambda>h. path_join H h rest) home)
           else Inr orig)
      | _ \<Rightarrow> Inr orig)"

definition build_http_client ::
  "'uri connector \<Rightarrow> 'hv option \<Rightarrow> 'hv \<Rightarrow> ('uri, 'hv) http_client"
where
  "build_http_client connector auth user_agent =
     (let raw = HyperClient connector;
          with_auth = SetRequestHeader ''authorization'' auth raw
      in SetRequestHeader ''user-agent'' (Some user_agent) with_auth)"

definition parse_interval :: "('s, 'd) scfg_api \<Rightarrow> 's \<Rightarrow> (failure + u64) \<times> 's" where
  "parse_interval A =
     sbind (take_single_directive A ''interval'') (\<lambda>d.
     slift (case d of
        Some directive \<Rightarrow>
          rbind (with_context ''Parsing interval directive'' (fst (take_single_param A directive))) (\<lambda>p.
          with_context ''Interval must be a valid integer''
            (case parse_u64 p of Inl m \<Rightarrow> Inl (Err [m]) | Inr n \<Rightarrow> Inr n))
      | None \<Rightarrow> Inr 300))"

definition parse_collection_id_segment ::
  "('s, 'd) scfg_api \<Rightarrow> ('uri, 'hv, 'cid) host \<Rightarrow> 's \<Rightarrow> (failure + collection_id_segment) \<times> 's"
where
  "parse_collection_id_segment A H =
     sbind (take_single_directive A ''collection_id_segment'') (\<lambda>d.
     slift (case d of
        Some directive \<Rightarrow>
          rbind (with_context ''Parsing parameter for collection_id_segment''
            (fst (take_single_param A directive))) (\<lambda>val.
          if val = ''last'' then Inr Last
          else if val = ''second-last'' then Inr SecondLast
          else bail (fmt [''collection_id_segment must specify either 'last' or 'second-last'', [CHR 0x27]]))
      | None \<Rightarrow> Inr (default_segment H)))"

definition default_user_agent :: "('uri, 'hv, 'cid) host \<Rightarrow> failure + 'hv" where
  "default_user_agent H =
     (case to_header H (fmt [''pimsync/'',
        case strip_prefix ''v'' (version H) of None \<Rightarrow> version H | Some v \<Rightarrow> v]) of
        Inl _ \<Rightarrow> Inl (Panic ''default UA is a valid header value'')
      | Inr v \<Rightarrow> Inr v)"

definition parse_user_agent ::
  "('s, 'd) scfg_api \<Rightarrow> ('uri, 'hv, 'cid) host \<Rightarrow> 's \<Rightarrow> (failure + 'hv) \<times> 's"
where
  "parse_user_agent A H =
     sbind (take_single_directive A ''user_agent'') (\<lambda>d.
     slift (case d of
        Some directive \<Rightarrow>
          (let params = join_with '''' (d_params A directive)
           in if params = [] then bail ''user_agent must not be empty''
              else with_context ''converting user_agent into a header value'' (to_header H params))
      | None \<Rightarrow> default_user_agent H))"

text \<open>\<^verbatim>\<open>parse_auth\<close>: the Basic credentials, when there is a user name.\<close>

definition basic_header :: "('uri, 'hv, 'cid) host \<Rightarrow> string \<Rightarrow> string \<Rightarrow> string" where
  "basic_header H username password =
     fmt [''Basic '', base64 H (fmt [username, '':'', password])]"

definition parse_auth ::
  "('s, 'd) scfg_api \<Rightarrow> ('uri, 'hv, 'cid) host \<Rightarrow> 's \<Rightarrow> (failure + 'hv option) \<times> 's"
where
  "parse_auth A H =
     sbind (take_single_directive A ''username'') (\<lambda>u.
     case u of
       None \<Rightarrow> sret None
     | Some u_directive \<Rightarrow>
         sbind (slift (fst (take_single_param A u_directive))) (\<lambda>username.
         sbind (take_single_directive A ''password'') (\<lambda>p.
         sbind (slift (case p of
                  Some p_directive \<Rightarrow> fst (take_single_param A p_directive)
                | None \<Rightarrow> Inr [])) (\<lambda>password.
         slift (rmap (\<lambda>v. Some (set_sensitive H v))
           (with_context ''encoding auth header'' (to_header H (basic_header H username password))))))))"

section \<open>TLS configuration\<close>

fun add_roots ::
  "('uri, 'hv, 'cid) host \<Rightarrow> bytes list \<Rightarrow> bytes list \<Rightarrow> failure + bytes list"
where
  "add_roots H store [] = Inr store"
| "add_roots H store (cert # certs) = rbind (root_add H store cert) (\<lambda>store'. add_roots H store' certs)"

definition load_tls_root ::
  "('s, 'd) scfg_api \<Rightarrow> ('uri, 'hv, 'cid) host \<Rightarrow> 'd option \<Rightarrow> failure + bytes list option"
where
  "load_tls_root A H d =
     (case d of
        None \<Rightarrow> Inr None
      | Some tls_root \<Rightarrow>
          rbind (with_context ''Parsing tls_root directive'' (fst (take_single_param A tls_root))) (\<lambda>path.
          rbind (with_context (fmt [''opening '', path]) (pem_certs H path)) (\<lambda>iter.
          rbind (with_context (fmt [''parsing '', path]) (collect_ok iter)) (\<lambda>certs.
          rmap Some (add_roots H [] certs)))))"

definition load_fingerprint ::
  "('s, 'd) scfg_api \<Rightarrow> ('uri, 'hv, 'cid) host \<Rightarrow> 'd option \<Rightarrow> failure + fingerprint_verifier option"
where
  "load_fingerprint A H d =
     (case d of
        None \<Rightarrow> Inr None
      | Some fp \<Rightarrow>
          rbind (with_context ''Parsing tls_fingerprint directive'' (fst (take_single_param A fp)))
            (\<lambda>hex. rmap Some (fingerprint_new (hex_decode H) hex)))"

definition load_auth_cert ::
  "('s, 'd) scfg_api \<Rightarrow> ('uri, 'hv, 'cid) host \<Rightarrow> 'd option \<Rightarrow>
    failure + (bytes list \<times> private_key) option"
where
  "load_auth_cert A H d =
     (case d of
        None \<Rightarrow> Inr None
      | Some auth_cert \<Rightarrow>
          (case fst (d_take_params A auth_cert) of
             [] \<Rightarrow> bail ''auth_cert must specify at least one parameter''
           | [combined_path] \<Rightarrow> rmap Some (cert_and_key_from_pemfile (pem_sections H) combined_path)
           | crt_path # key_path # _ \<Rightarrow>
               rbind (with_context (fmt [''opening '', crt_path]) (pem_certs H crt_path)) (\<lambda>iter.
               rbind (with_context (fmt [''parsing '', crt_path]) (collect_ok iter)) (\<lambda>crt.
               rbind (with_context (fmt [''loading key from '', key_path]) (pem_key H key_path)) (\<lambda>key.
               Inr (Some (crt, key)))))))"

definition choose_server_auth ::
  "('uri, 'hv, 'cid) host \<Rightarrow> bytes list option \<Rightarrow> fingerprint_verifier option \<Rightarrow> failure + server_auth"
where
  "choose_server_auth H root_store fp_verifier =
     (case (root_store, fp_verifier) of
        (None, None) \<Rightarrow> rmap (\<lambda>_. NativeRoots) (native_roots H)
      | (None, Some verifier) \<Rightarrow> Inr (CustomFingerprint verifier)
      | (Some store, None) \<Rightarrow> Inr (RootCertificates store)
      | (Some store, Some verifier) \<Rightarrow>
          rmap CustomBoth (both_new (webpki_build H) verifier store))"

definition parse_tls_config ::
  "('s, 'd) scfg_api \<Rightarrow> ('uri, 'hv, 'cid) host \<Rightarrow> 's \<Rightarrow> (failure + tls_config) \<times> 's"
where
  "parse_tls_config A H =
     sbind (take_single_directive A ''tls_root'') (\<lambda>root_d.
     sbind (slift (load_tls_root A H root_d)) (\<lambda>root_store.
     sbind (take_single_directive A ''tls_fingerprint'') (\<lambda>fp_d.
     sbind (slift (load_fingerprint A H fp_d)) (\<lambda>fp_verifier.
     sbind (take_single_directive A ''auth_cert'') (\<lambda>cert_d.
     sbind (slift (load_auth_cert A H cert_d)) (\<lambda>cert.
     sbind (slift (choose_server_auth H root_store fp_verifier)) (\<lambda>auth.
     slift (case cert of
        None \<Rightarrow> Inr \<lparr>server_auth = auth, client_auth = None\<rparr>
      | Some (certs, key) \<Rightarrow>
          rmap (\<lambda>_. \<lparr>server_auth = auth, client_auth = Some (certs, key)\<rparr>)
            (client_auth_cert H certs key)))))))))"

section \<open>The storage types\<close>

definition parse_vdir ::
  "('s, 'd) scfg_api \<Rightarrow> ('uri, 'hv, 'cid) host \<Rightarrow> item_kind \<Rightarrow> bool \<Rightarrow> 's \<Rightarrow>
    (failure + ('uri, 'hv, 'cid) storage) \<times> 's"
where
  "parse_vdir A H kind ro =
     sbind (take_single_param_from_directive A ''path'') (\<lambda>p.
     sbind (slift (with_context ''Expanding tilde for storage'' (expand_tilde H p))) (\<lambda>path.
     sbind (\<lambda>s. (Inr (fst (sc_remove A s ''encoding'')), snd (sc_remove A s ''encoding''))) (\<lambda>encoding.
     sbind (slift (if encoding \<noteq> None then bail (fmt [[CHR 0x27], ''encoding' is not implemented for vdir storages.''])
                   else Inr ())) (\<lambda>_.
     sbind (slift (vdir_builder H path)) (\<lambda>_.
     sbind (take_single_directive A ''fileext'') (\<lambda>d.
     slift (case d of
        None \<Rightarrow> Inr (into_arc (VdirStorage path None kind) ro)
      | Some fileext \<Rightarrow>
          rmap (\<lambda>ext. into_arc (VdirStorage path
                  (Some (case strip_prefix ''.'' ext of None \<Rightarrow> ext | Some e \<Rightarrow> e)) kind) ro)
            (fst (take_single_param A fileext)))))))))"

definition finish_carddav ::
  "('uri, 'hv, 'cid) host \<Rightarrow> ('uri, 'hv) http_client \<Rightarrow> 'uri \<Rightarrow> collection_id_segment \<Rightarrow> bool \<Rightarrow> bool \<Rightarrow>
    failure + ('uri, 'hv, 'cid) storage"
where
  "finish_carddav H client url segment ro discover =
     rbind (if discover then dav_bootstrap H client url else Inr ()) (\<lambda>_.
     rbind (storage_build H (CardDavStorage client url segment discover)) (\<lambda>_.
     Inr (into_arc (CardDavStorage client url segment discover) ro)))"

definition finish_caldav ::
  "('uri, 'hv, 'cid) host \<Rightarrow> ('uri, 'hv) http_client \<Rightarrow> 'uri \<Rightarrow> collection_id_segment \<Rightarrow> bool \<Rightarrow> bool \<Rightarrow>
    failure + ('uri, 'hv, 'cid) storage"
where
  "finish_caldav H client url segment ro discover =
     rbind (if discover then dav_bootstrap H client url else Inr ()) (\<lambda>_.
     rbind (storage_build H (CalDavStorage client url segment discover)) (\<lambda>_.
     Inr (into_arc (CalDavStorage client url segment discover) ro)))"

text \<open>The connector of a client that does not use a socket.\<close>

definition https_connector :: "('uri, 'hv, 'cid) host \<Rightarrow> tls_config \<Rightarrow> failure + 'uri connector" where
  "https_connector H tls =
     (case env_http_proxy H of
        Some proxy_url \<Rightarrow>
          rmap (\<lambda>proxy_uri. HttpsConnector tls (Some proxy_uri))
            (with_context ''parsing http_proxy environment variable'' (parse_uri H proxy_url))
      | None \<Rightarrow> Inr (HttpsConnector tls None))"

definition parse_carddav ::
  "('s, 'd) scfg_api \<Rightarrow> ('uri, 'hv, 'cid) host \<Rightarrow> bool \<Rightarrow> 's \<Rightarrow> (failure + ('uri, 'hv, 'cid) storage) \<times> 's"
where
  "parse_carddav A H ro =
     sbind (take_single_param_from_directive A ''url'') (\<lambda>u.
     sbind (slift (with_context ''Parsing carddav url'' (parse_uri H u))) (\<lambda>url.
     sbind (parse_collection_id_segment A H) (\<lambda>segment.
     sbind (take_single_directive A ''socket'') (\<lambda>socket.
     sbind (scontext ''Parsing carddav storage auth'' (parse_auth A H)) (\<lambda>auth.
     case socket of
       Some socket_directive \<Rightarrow>
         sbind (slift (with_context ''Parsing socket directive''
           (fst (take_single_param A socket_directive)))) (\<lambda>socket_path.
         sbind (parse_user_agent A H) (\<lambda>user_agent.
         slift (finish_carddav H (build_http_client (UnixConnector socket_path) auth user_agent)
           url segment ro False)))
     | None \<Rightarrow>
         sbind (parse_tls_config A H) (\<lambda>tls.
         sbind (parse_user_agent A H) (\<lambda>user_agent.
         sbind (slift (https_connector H tls)) (\<lambda>connector.
         slift (finish_carddav H (build_http_client connector auth user_agent) url segment ro True)))))))))"

definition parse_caldav ::
  "('s, 'd) scfg_api \<Rightarrow> ('uri, 'hv, 'cid) host \<Rightarrow> bool \<Rightarrow> 's \<Rightarrow> (failure + ('uri, 'hv, 'cid) storage) \<times> 's"
where
  "parse_caldav A H ro =
     sbind (take_single_param_from_directive A ''url'') (\<lambda>u.
     sbind (slift (with_context ''Parsing caldav url'' (parse_uri H u))) (\<lambda>url.
     sbind (parse_collection_id_segment A H) (\<lambda>segment.
     sbind (take_single_directive A ''socket'') (\<lambda>socket.
     sbind (scontext ''Parsing caldav storage auth'' (parse_auth A H)) (\<lambda>auth.
     case socket of
       Some socket_directive \<Rightarrow>
         sbind (slift (with_context ''Parsing socket directive''
           (fst (take_single_param A socket_directive)))) (\<lambda>socket_path.
         sbind (parse_user_agent A H) (\<lambda>user_agent.
         slift (finish_caldav H (build_http_client (UnixConnector socket_path) auth user_agent)
           url segment ro False)))
     | None \<Rightarrow>
         sbind (parse_tls_config A H) (\<lambda>tls.
         sbind (parse_user_agent A H) (\<lambda>user_agent.
         sbind (slift (https_connector H tls)) (\<lambda>connector.
         slift (finish_caldav H (build_http_client connector auth user_agent) url segment ro True)))))))))"

definition parse_webcal ::
  "('s, 'd) scfg_api \<Rightarrow> ('uri, 'hv, 'cid) host \<Rightarrow> bool \<Rightarrow> 's \<Rightarrow> (failure + ('uri, 'hv, 'cid) storage) \<times> 's"
where
  "parse_webcal A H ro =
     sbind (scontext ''Webcal storage must define a url'' (take_single_param_from_directive A ''url'')) (\<lambda>u.
     sbind (slift (parse_uri H u)) (\<lambda>url.
     sbind (scontext ''Parsing webcal storage auth'' (parse_auth A H)) (\<lambda>auth.
     sbind (parse_tls_config A H) (\<lambda>tls.
     sbind (parse_user_agent A H) (\<lambda>user_agent.
     sbind (take_single_param_from_directive A ''collection_id'') (\<lambda>c.
     sbind (slift (with_context ''Parsing webcal url'' (parse_cid H c))) (\<lambda>collection_id.
     sbind (slift (https_connector H tls)) (\<lambda>connector.
     sret (WebCalStorage (build_http_client connector auth user_agent) url collection_id)))))))))"

definition finish_jmap ::
  "('uri, 'hv, 'cid) host \<Rightarrow> ('uri, 'hv) http_client \<Rightarrow> string \<Rightarrow> item_kind \<Rightarrow> bool \<Rightarrow>
    failure + ('uri, 'hv, 'cid) storage"
where
  "finish_jmap H client u kind ro =
     rbind (with_context ''Parsing JMAP url'' (parse_uri H u)) (\<lambda>url.
     rbind (jmap_session H client url) (\<lambda>(session_url, api).
     rbind (ok_or ''JMAP server returned no api_url'' api) (\<lambda>api_url.
     rbind (with_context ''JMAP server returned an invalid api_url'' (parse_uri H api_url)) (\<lambda>api_uri.
     Inr (into_arc (JmapStorage client session_url api_uri kind) ro)))))"

definition parse_jmap ::
  "('s, 'd) scfg_api \<Rightarrow> ('uri, 'hv, 'cid) host \<Rightarrow> item_kind \<Rightarrow> bool \<Rightarrow> 's \<Rightarrow>
    (failure + ('uri, 'hv, 'cid) storage) \<times> 's"
where
  "parse_jmap A H kind ro =
     sbind (take_single_param_from_directive A ''url'') (\<lambda>url.
     sbind (scontext ''Parsing JMAP storage auth'' (parse_auth A H)) (\<lambda>auth.
     sbind (parse_tls_config A H) (\<lambda>tls.
     sbind (parse_user_agent A H) (\<lambda>user_agent.
     sbind (slift (https_connector H tls)) (\<lambda>connector.
     slift (finish_jmap H (build_http_client connector auth user_agent) url kind ro))))))"

section \<open>Initialising a storage\<close>

definition parse_read_only :: "('s, 'd) scfg_api \<Rightarrow> 's \<Rightarrow> (failure + bool) \<times> 's" where
  "parse_read_only A =
     sbind (take_single_directive A ''read_only'') (\<lambda>d.
     slift (case d of
        Some ro \<Rightarrow>
          (if fst (d_take_params A ro) \<noteq> [] then bail ''the read_only directive takes no parameters''
           else Inr True)
      | None \<Rightarrow> Inr False))"

definition init_storage_state ::
  "('s, 'd) scfg_api \<Rightarrow> ('uri, 'hv, 'cid) host \<Rightarrow> 's \<Rightarrow> (failure + ('uri, 'hv, 'cid) storage \<times> u64) \<times> 's"
where
  "init_storage_state A H =
     sbind (take_single_param_from_directive A ''type'') (\<lambda>type.
     sbind (parse_interval A) (\<lambda>interval.
     sbind (parse_read_only A) (\<lambda>ro.
     sbind (if type = ''vdir/icalendar'' then parse_vdir A H Calendar ro
            else if type = ''vdir/vcard'' then parse_vdir A H AddressBook ro
            else if type = ''carddav'' then parse_carddav A H ro
            else if type = ''caldav'' then parse_caldav A H ro
            else if type = ''webcal'' then parse_webcal A H ro
            else if type = ''jmap/icalendar'' \<and> jmap_enabled H then parse_jmap A H Calendar ro
            else if type = ''jmap/vcard'' \<and> jmap_enabled H then parse_jmap A H AddressBook ro
            else if type = ''jmap/icalendar'' \<or> type = ''jmap/vcard'' then
              slift (bail ''pimsync compiled with JMAP support disabled.'')
            else slift (bail (fmt [''Unknown storage type: '', type]))) (\<lambda>storage.
     sret (storage, interval)))))"

text \<open>\<^verbatim>\<open>init_storage\<close> owns its block, so what is left of it is dropped.\<close>

definition init_storage ::
  "('s, 'd) scfg_api \<Rightarrow> ('uri, 'hv, 'cid) host \<Rightarrow> 's \<Rightarrow> failure + ('uri, 'hv, 'cid) storage \<times> u64"
where
  "init_storage A H config = fst (init_storage_state A H config)"

section \<open>What the parsers read and leave\<close>

lemma parse_interval_snd [simp]: "snd (parse_interval A s) = without A s ''interval''"
  by (auto simp: parse_interval_def snd_sbind split: sum.splits)

lemma parse_read_only_snd [simp]: "snd (parse_read_only A s) = without A s ''read_only''"
  by (auto simp: parse_read_only_def snd_sbind split: sum.splits)

lemma parse_collection_id_segment_snd [simp]:
  "snd (parse_collection_id_segment A H s) = without A s ''collection_id_segment''"
  by (auto simp: parse_collection_id_segment_def snd_sbind split: sum.splits)

lemma parse_user_agent_snd [simp]: "snd (parse_user_agent A H s) = without A s ''user_agent''"
  by (auto simp: parse_user_agent_def snd_sbind split: sum.splits)

lemma parse_auth_frame:
  assumes "scfg_laws A" and "m \<noteq> ''username''" and "m \<noteq> ''password''"
  shows "dirs A (snd (parse_auth A H s)) m = dirs A s m"
  by (simp add: parse_auth_def snd_sbind snd_sbind_slift dirs_without [OF assms(1)] assms(2,3)
      split: sum.split option.split)

lemma parse_read_only_ok:
  assumes "fst (parse_read_only A s) = Inr ro"
  shows "ro = (dirs A s ''read_only'' \<noteq> None)"
proof -
  from assms obtain d where d: "fst (take_single_directive A ''read_only'' s) = Inr d"
    and ro: "ro = (d \<noteq> None)"
    by (auto simp: parse_read_only_def fst_sbind_ok split: option.splits if_splits)
  show ?thesis
  proof (cases d)
    case None
    with d ro show ?thesis by (simp add: take_single_directive_None_iff)
  next
    case (Some x)
    with d ro show ?thesis by (simp add: take_single_directive_Some_iff)
  qed
qed

lemma finish_carddav_ok:
  "finish_carddav H client url segment ro discover = Inr st \<Longrightarrow>
     st = into_arc (CardDavStorage client url segment discover) ro"
  by (auto simp: finish_carddav_def rbind_eq_Inr_iff)

lemma finish_caldav_ok:
  "finish_caldav H client url segment ro discover = Inr st \<Longrightarrow>
     st = into_arc (CalDavStorage client url segment discover) ro"
  by (auto simp: finish_caldav_def rbind_eq_Inr_iff)

lemma https_connector_ok:
  "https_connector H tls = Inr c \<Longrightarrow> \<exists>proxy. c = HttpsConnector tls proxy"
  by (auto simp: https_connector_def rmap_eq_Inr_iff split: option.splits)

text \<open>What a successfully parsed DAV storage looks like.\<close>

lemma parse_carddav_ok:
  assumes "scfg_laws A" and "fst (parse_carddav A H ro s) = Inr st"
  obtains url segment auth user_agent connector discover where
    "st = into_arc (CardDavStorage (build_http_client connector auth user_agent) url segment discover) ro"
    "case dirs A s ''socket'' of
       None \<Rightarrow> discover \<and> (\<exists>tls proxy. connector = HttpsConnector tls proxy)
     | Some ds \<Rightarrow> \<not> discover \<and>
         (\<exists>d path. ds = [d] \<and> fst (d_take_params A d) = [path] \<and> connector = UnixConnector path)"
proof -
  have frame: "dirs A (without A (without A s ''url'') ''collection_id_segment'') ''socket'' = dirs A s ''socket''"
    by (simp add: dirs_without [OF assms(1)])
  from assms(2) obtain u url segment socket auth where
    socket: "fst (take_single_directive A ''socket'' (without A (without A s ''url'') ''collection_id_segment'')) = Inr socket"
    and rest: "fst ((case socket of
       Some socket_directive \<Rightarrow>
         sbind (slift (with_context ''Parsing socket directive''
           (fst (take_single_param A socket_directive)))) (\<lambda>socket_path.
         sbind (parse_user_agent A H) (\<lambda>user_agent.
         slift (finish_carddav H (build_http_client (UnixConnector socket_path) auth user_agent)
           url segment ro False)))
     | None \<Rightarrow>
         sbind (parse_tls_config A H) (\<lambda>tls.
         sbind (parse_user_agent A H) (\<lambda>user_agent.
         sbind (slift (https_connector H tls)) (\<lambda>connector.
         slift (finish_carddav H (build_http_client connector auth user_agent) url segment ro True)))))
       u) = Inr st"
    by (auto simp: parse_carddav_def fst_sbind_ok rbind_eq_Inr_iff)
  show thesis
  proof (cases socket)
    case None
    with socket have "dirs A s ''socket'' = None"
      by (simp add: take_single_directive_None_iff frame)
    moreover from rest None obtain tls user_agent connector where
      "https_connector H tls = Inr connector"
      "finish_carddav H (build_http_client connector auth user_agent) url segment ro True = Inr st"
      by (auto simp: fst_sbind_ok rbind_eq_Inr_iff)
    ultimately show thesis
      using finish_carddav_ok https_connector_ok by (intro that) fastforce+
  next
    case (Some d)
    with socket have "dirs A s ''socket'' = Some [d]"
      by (simp add: take_single_directive_Some_iff frame)
    moreover from rest Some obtain path user_agent where
      "fst (d_take_params A d) = [path]"
      "finish_carddav H (build_http_client (UnixConnector path) auth user_agent) url segment ro False = Inr st"
      by (auto simp: fst_sbind_ok rbind_eq_Inr_iff take_single_param_ok_iff)
    ultimately show thesis
      using finish_carddav_ok by (intro that) fastforce+
  qed
qed

section \<open>The two DAV parsers agree\<close>

text \<open>The CalDAV storage with the same parameters as a CardDAV one.\<close>

fun as_caldav :: "('uri, 'hv, 'cid) storage \<Rightarrow> ('uri, 'hv, 'cid) storage" where
  "as_caldav (CardDavStorage client url segment discover) = CalDavStorage client url segment discover"
| "as_caldav (ReadOnlyStorage st) = ReadOnlyStorage (as_caldav st)"
| "as_caldav st = st"

lemma as_caldav_into_arc: "as_caldav (into_arc st ro) = into_arc (as_caldav st) ro"
  by (simp add: into_arc_def)

lemma finish_as_caldav:
  assumes "\<And>client url segment discover.
    storage_build H (CalDavStorage client url segment discover) =
    storage_build H (CardDavStorage client url segment discover)"
  shows "finish_caldav H client url segment ro discover =
    rmap as_caldav (finish_carddav H client url segment ro discover)"
  by (cases discover; cases "dav_bootstrap H client url";
      cases "storage_build H (CardDavStorage client url segment discover)")
    (simp_all add: finish_caldav_def finish_carddav_def assms as_caldav_into_arc)

end
