(* ===== verification/Pair_Config.thy ===== *)
theory Pair_Config
  imports Storage_Config
begin

text \<open>
  The part of \<^verbatim>\<open>src/src/config.rs\<close> that turns the block of a pair into a pair: the parsers of
  its directives, \<^verbatim>\<open>init_pair\<close>, and the body of the task that \<^verbatim>\<open>into_named_pairs\<close> spawns for
  it. \<^verbatim>\<open>StoragePair\<close> is a type of the \<^verbatim>\<open>vstorage\<close> crate; its builder methods are the record
  \<open>pair_api\<close>.
\<close>

section \<open>Directives of a pair\<close>

datatype 'cid collection_description = ById 'cid | ByHref string

datatype 'cid collections =
    All
  | FromA
  | FromB
  | Named 'cid
  | Mapped string "'cid collection_description" "'cid collection_description"

datatype on_empty = EmptySkip | EmptySync
datatype on_delete = DeleteSkip | DeleteSync
datatype mode = OneWaySync | TwoWaySync

datatype conflict_resolution = KeepA | KeepB | Cmd raw_command

definition parse_collections_directive :: "string \<Rightarrow> failure + 'cid collections" where
  "parse_collections_directive params =
     (if params = ''all'' then Inr All
      else if params = ''from a'' then Inr FromA
      else if params = ''from b'' then Inr FromB
      else bail (fmt [''Invalid value for collections: '', params]))"

definition parse_individual_collection ::
  "('s, 'd) scfg_api \<Rightarrow> (string \<Rightarrow> failure + 'cid) \<Rightarrow> 'd option \<Rightarrow> 'd option \<Rightarrow>
    failure + 'cid collection_description"
where
  "parse_individual_collection A cid_of id_opt href_opt =
     (case (id_opt, href_opt) of
        (None, None) \<Rightarrow> bail ''collection block must define either id_a or href_a''
      | (None, Some href) \<Rightarrow>
          rmap ByHref (ok_or ''Collection href must define exactly one parameter''
            (flatten_single_vec (fst (d_take_params A href))))
      | (Some i, None) \<Rightarrow>
          rbind (ok_or ''Collection id must define exactly one parameter''
            (flatten_single_vec (fst (d_take_params A i)))) (\<lambda>c.
          rmap ById (with_context ''Parsing collection id'' (cid_of c)))
      | (Some _, Some _) \<Rightarrow> bail ''Collection block cannot define both id_a and href_a.'')"

definition parse_mapping ::
  "('s, 'd) scfg_api \<Rightarrow> (string \<Rightarrow> failure + 'cid) \<Rightarrow> 's \<Rightarrow> (failure + 'cid collections) \<times> 's"
where
  "parse_mapping A cid_of =
     sbind (take_single_param_from_directive A ''alias'') (\<lambda>alias.
     sbind (take_single_directive A ''id_a'') (\<lambda>id_a.
     sbind (take_single_directive A ''href_a'') (\<lambda>href_a.
     sbind (take_single_directive A ''id_b'') (\<lambda>id_b.
     sbind (take_single_directive A ''href_b'') (\<lambda>href_b.
     sbind (slift (parse_individual_collection A cid_of id_a href_a)) (\<lambda>a.
     sbind (slift (parse_individual_collection A cid_of id_b href_b)) (\<lambda>b.
     sret (Mapped alias a b))))))))"

definition parse_collection_directive ::
  "('s, 'd) scfg_api \<Rightarrow> (string \<Rightarrow> failure + 'cid) \<Rightarrow> 'd \<Rightarrow> failure + 'cid collections"
where
  "parse_collection_directive A cid_of directive =
     (case d_take_params A directive of (params, directive') \<Rightarrow>
        (case params of
           param # rest \<Rightarrow>
             (case rest of
                second # _ \<Rightarrow>
                  bail (fmt [''unexpected second parameter '', second, '' in collection directive''])
              | [] \<Rightarrow> rmap Named (with_context ''Parsing collection id'' (cid_of param)))
         | [] \<Rightarrow>
             rbind (ok_or ''Collection directive must specify an id or a block''
               (fst (d_take_child A directive'))) (\<lambda>child.
             fst (parse_mapping A cid_of child))))"

definition parse_conflict_resolution ::
  "('s, 'd) scfg_api \<Rightarrow> 'd \<Rightarrow> failure + conflict_resolution"
where
  "parse_conflict_resolution A directive =
     (case fst (d_take_params A directive) of
        [] \<Rightarrow> bail ''Missing parameter for conflict_resolution''
      | param # params \<Rightarrow>
          (if param = ''cmd'' then
             rmap Cmd (ok_or ''parsing conflict_resolution'' (from_args params))
           else if param = ''keep'' then
             (case params of
                [] \<Rightarrow> bail ''Invalid parameter for conflict_resolution: keep''
              | c # _ \<Rightarrow>
                  (if c = ''a'' then Inr KeepA
                   else if c = ''b'' then Inr KeepB
                   else bail (fmt [''Invalid parameter for conflict_resolution: keep '', c])))
           else bail (fmt [''Invalid parameter for conflict_resolution: '', param])))"

definition parse_on_empty :: "('s, 'd) scfg_api \<Rightarrow> 'd \<Rightarrow> failure + on_empty" where
  "parse_on_empty A directive =
     rbind (with_context ''Parsing parameter for on_empty'' (fst (take_single_param A directive))) (\<lambda>val.
     if val = ''skip'' then Inr EmptySkip
     else if val = ''sync'' then Inr EmptySync
     else bail (fmt [''on_empty must specify either 'skip' or 'sync'', [CHR 0x27]]))"

definition parse_on_delete :: "('s, 'd) scfg_api \<Rightarrow> 'd \<Rightarrow> failure + on_delete" where
  "parse_on_delete A directive =
     rbind (with_context ''Parsing parameter for on_delete'' (fst (take_single_param A directive))) (\<lambda>val.
     if val = ''skip'' then Inr DeleteSkip
     else if val = ''sync'' then Inr DeleteSync
     else bail (fmt [''on_empty must specify either 'skip' or 'sync'', [CHR 0x27]]))"

section \<open>Building the pair\<close>

text \<open>
  The methods of \<^verbatim>\<open>StoragePair\<close> and the defaults of its options. \<open>with_direct\<close> is
  \<^verbatim>\<open>with_mapping\<close> on \<^verbatim>\<open>SyncedCollection::direct\<close>, \<open>with_mapped\<close> the same on
  \<^verbatim>\<open>SyncedCollection::Mapped\<close>.
\<close>

record ('st, 'cid, 'p) pair_api =
  pair_new :: "'st \<Rightarrow> 'st \<Rightarrow> 'p"
  with_all_from_a :: "'p \<Rightarrow> 'p"
  with_all_from_b :: "'p \<Rightarrow> 'p"
  with_direct :: "'cid \<Rightarrow> 'p \<Rightarrow> 'p"
  with_mapped :: "string \<Rightarrow> 'cid collection_description \<Rightarrow> 'cid collection_description \<Rightarrow> 'p \<Rightarrow> 'p"
  set_on_empty :: "on_empty \<Rightarrow> 'p \<Rightarrow> 'p"
  set_on_delete :: "on_delete \<Rightarrow> 'p \<Rightarrow> 'p"
  with_mode :: "mode \<Rightarrow> 'p \<Rightarrow> 'p"
  default_on_empty :: on_empty
  default_on_delete :: on_delete
  item_kind :: "'st \<Rightarrow> item_kind"
  collection_id_of :: "string \<Rightarrow> failure + 'cid"

fun add_collection :: "('st, 'cid, 'p) pair_api \<Rightarrow> 'cid collections \<Rightarrow> 'p \<Rightarrow> 'p" where
  "add_collection P All pair = with_all_from_b P (with_all_from_a P pair)"
| "add_collection P FromA pair = with_all_from_a P pair"
| "add_collection P FromB pair = with_all_from_b P pair"
| "add_collection P (Named c) pair = with_direct P c pair"
| "add_collection P (Mapped alias a b) pair = with_mapped P alias a b pair"

definition init_pair ::
  "('st, 'cid, 'p) pair_api \<Rightarrow> 'cid collections list \<Rightarrow> 'st \<times> 'st \<Rightarrow> on_empty \<Rightarrow> on_delete \<Rightarrow> mode \<Rightarrow> 'p"
where
  "init_pair P colls storages on_empty on_delete mode =
     (let pair = fold (add_collection P) colls (pair_new P (fst storages) (snd storages))
      in with_mode P mode (set_on_delete P on_delete (set_on_empty P on_empty pair)))"

record 'p named_pair =
  pair_name :: string
  pair_inner :: 'p
  pair_status_path :: string
  pair_resolution :: "conflict_resolution option"
  pair_names :: "string \<times> string"
  pair_intervals :: "u64 \<times> u64"

text \<open>
  The optional directives: \<^verbatim>\<open>take_single_directive(..)?.map(parse).transpose()?\<close>.
\<close>

definition optional_directive ::
  "('s, 'd) scfg_api \<Rightarrow> string \<Rightarrow> ('d \<Rightarrow> failure + 'a) \<Rightarrow> 's \<Rightarrow> (failure + 'a option) \<times> 's"
where
  "optional_directive A n parse =
     sbind (take_single_directive A n) (\<lambda>d.
     slift (case d of None \<Rightarrow> Inr None | Some directive \<Rightarrow> rmap Some (parse directive)))"

fun map_ok :: "('a \<Rightarrow> 'e + 'b) \<Rightarrow> 'a list \<Rightarrow> 'e + 'b list" where
  "map_ok f [] = Inr []"
| "map_ok f (x # xs) = rbind (f x) (\<lambda>y. rmap ((#) y) (map_ok f xs))"

definition take_collections ::
  "('s, 'd) scfg_api \<Rightarrow> string \<Rightarrow> ('d \<Rightarrow> failure + 'a) \<Rightarrow> 's \<Rightarrow> (failure + 'a list) \<times> 's"
where
  "take_collections A n parse s =
     (case sc_remove A s n of
        (None, s') \<Rightarrow> (Inr [], s')
      | (Some directives, s') \<Rightarrow> (map_ok parse directives, s'))"

definition parse_one_way :: "('s, 'd) scfg_api \<Rightarrow> 's \<Rightarrow> (failure + mode) \<times> 's" where
  "parse_one_way A =
     sbind (take_single_directive A ''one_way'') (\<lambda>d.
     slift (case d of
        Some d \<Rightarrow>
          (if fst (d_take_params A d) \<noteq> [] then bail ''the one_way directive takes no parameters''
           else Inr OneWaySync)
      | None \<Rightarrow> Inr TwoWaySync))"

text \<open>
  The body of the task for one pair, after its two storages have been obtained
  (\<open>storage_a\<close>, \<open>storage_b\<close>, each with its interval).
\<close>

definition build_named_pair ::
  "('s, 'd) scfg_api \<Rightarrow> ('st, 'cid, 'p) pair_api \<Rightarrow> (string \<Rightarrow> string \<Rightarrow> string) \<Rightarrow> string \<Rightarrow>
    string \<Rightarrow> string \<times> string \<Rightarrow> ('st \<times> u64) \<times> ('st \<times> u64) \<Rightarrow> 's \<Rightarrow> (failure + 'p named_pair) \<times> 's"
where
  "build_named_pair A P join status_dir nm names_ab storages =
     (case storages of ((storage_a, interval_a), (storage_b, interval_b)) \<Rightarrow>
     sbind (take_collections A ''collections''
       (\<lambda>d. parse_collections_directive (join_with '' '' (d_params A d)))) (\<lambda>colls1.
     sbind (take_collections A ''collection'' (parse_collection_directive A (collection_id_of P))) (\<lambda>colls2.
     sbind (take_single_directive A ''on_empty'') (\<lambda>oe.
     sbind (slift (with_context ''parsing on_empty''
       (case oe of None \<Rightarrow> Inr (default_on_empty P) | Some d \<Rightarrow> parse_on_empty A d))) (\<lambda>on_empty.
     sbind (take_single_directive A ''on_delete'') (\<lambda>od.
     sbind (slift (with_context ''parsing on_delete''
       (case od of None \<Rightarrow> Inr (default_on_delete P) | Some d \<Rightarrow> parse_on_delete A d))) (\<lambda>on_delete.
     sbind (optional_directive A ''conflict_resolution'' (parse_conflict_resolution A)) (\<lambda>resolution.
     sbind (parse_one_way A) (\<lambda>mode.
     slift (case (item_kind P storage_a, item_kind P storage_b) of
        (Calendar, AddressBook) \<Rightarrow>
          bail (fmt [''pair '', nm, '' mixes calendar storage with contacts storage''])
      | (AddressBook, Calendar) \<Rightarrow>
          bail (fmt [''pair '', nm, '' mixes contacts storage with calendar storage''])
      | _ \<Rightarrow> Inr \<lparr>pair_name = nm,
                  pair_inner = init_pair P (colls1 @ colls2) (storage_a, storage_b) on_empty on_delete mode,
                  pair_status_path = join status_dir (fmt [nm, ''.status'']),
                  pair_resolution = resolution, pair_names = names_ab,
                  pair_intervals = (interval_a, interval_b)\<rparr>))))))))))"

section \<open>What a pair is built from\<close>

lemma take_collections_snd [simp]: "snd (take_collections A n p s) = without A s n"
  by (simp add: take_collections_def split: prod.split option.split)

lemma take_collections_fst:
  "fst (take_collections A n p s) = map_ok p (case_option [] id (dirs A s n))"
  by (simp add: take_collections_def split: prod.split option.split)

lemma optional_directive_snd [simp]: "snd (optional_directive A n p s) = without A s n"
  by (simp add: optional_directive_def snd_sbind split: sum.split)

lemma parse_one_way_snd [simp]: "snd (parse_one_way A s) = without A s ''one_way''"
  by (simp add: parse_one_way_def snd_sbind split: sum.split)

lemma taken_present:
  "fst (take_single_directive A n s) = Inr d \<Longrightarrow> (d = None) = (dirs A s n = None)"
  by (cases d) (auto simp: take_single_directive_None_iff take_single_directive_Some_iff)

lemma parse_one_way_ok:
  "fst (parse_one_way A s) = Inr m \<Longrightarrow> (m = OneWaySync) = (dirs A s ''one_way'' \<noteq> None)"
  by (auto simp: parse_one_way_def fst_sbind_ok dest!: taken_present split: option.splits if_splits)

lemma optional_directive_ok:
  "fst (optional_directive A n p s) = Inr r \<Longrightarrow> (r = None) = (dirs A s n = None)"
  by (auto simp: optional_directive_def fst_sbind_ok rmap_eq_Inr_iff dest!: taken_present split: option.splits)

lemma build_named_pair_basics:
  assumes "fst (build_named_pair A P join dir nm nab ((sa, ia), (sb, ib)) s) = Inr p"
  shows "item_kind P sa = item_kind P sb" "pair_name p = nm" "pair_names p = nab"
    "pair_intervals p = (ia, ib)" "pair_status_path p = join dir (fmt [nm, ''.status''])"
proof -
  obtain inner res where p: "(case (item_kind P sa, item_kind P sb) of
        (Calendar, AddressBook) \<Rightarrow>
          bail (fmt [''pair '', nm, '' mixes calendar storage with contacts storage''])
      | (AddressBook, Calendar) \<Rightarrow>
          bail (fmt [''pair '', nm, '' mixes contacts storage with calendar storage''])
      | _ \<Rightarrow> Inr \<lparr>pair_name = nm, pair_inner = inner,
                  pair_status_path = join dir (fmt [nm, ''.status'']),
                  pair_resolution = res, pair_names = nab, pair_intervals = (ia, ib)\<rparr>) = Inr p"
    using assms by (auto simp: build_named_pair_def fst_sbind_ok rbind_eq_Inr_iff)
  then show "item_kind P sa = item_kind P sb" "pair_name p = nm" "pair_names p = nab"
    "pair_intervals p = (ia, ib)" "pair_status_path p = join dir (fmt [nm, ''.status''])"
    by (cases "item_kind P sa"; cases "item_kind P sb"; auto)+
qed


text \<open>A recording instance of the builder, for the witnesses: the calls in order.\<close>

datatype built = New string string | FromAllA | FromAllB | Direct string
  | MappedTo string | Empty on_empty | Delete on_delete | Mode mode

definition demo_pair :: "(string, string, built list) pair_api" where
  "demo_pair = \<lparr>pair_new = (\<lambda>a b. [New a b]), with_all_from_a = (\<lambda>p. p @ [FromAllA]),
     with_all_from_b = (\<lambda>p. p @ [FromAllB]), with_direct = (\<lambda>c p. p @ [Direct c]),
     with_mapped = (\<lambda>n a b p. p @ [MappedTo n]), set_on_empty = (\<lambda>x p. p @ [Empty x]),
     set_on_delete = (\<lambda>x p. p @ [Delete x]), with_mode = (\<lambda>m p. p @ [Mode m]),
     default_on_empty = EmptySkip, default_on_delete = DeleteSync,
     item_kind = (\<lambda>_. Calendar), collection_id_of = Inr\<rparr>"

definition pair_doc :: tree where
  "pair_doc = Block [(''collections'', Dir [''all''] None), (''one_way'', Dir [] None)]"

lemma pair_doc_eval:
  "fst (build_named_pair (tree_api pair_doc) demo_pair (@) ''st/'' ''cal'' (''a'', ''b'')
     ((''A'', 30), (''B'', 300)) pair_doc) =
   Inr \<lparr>pair_name = ''cal'', pair_inner = [New ''A'' ''B'', FromAllA, FromAllB, Empty EmptySkip,
          Delete DeleteSync, Mode OneWaySync],
        pair_status_path = ''st/cal.status'', pair_resolution = None, pair_names = (''a'', ''b''),
        pair_intervals = (30, 300)\<rparr>"
  by code_simp


text \<open>
  \<^verbatim>\<open>collections all\<close> is \<^verbatim>\<open>collections from a\<close> followed by \<^verbatim>\<open>collections from b\<close>, wherever it
  stands among the collections of a pair.
\<close>
theorem collections_all_is_both:
  "init_pair P (xs @ All # ys) storages oe od m = init_pair P (xs @ FromA # FromB # ys) storages oe od m"
  by (simp add: init_pair_def)

text \<open>What one side of a mapping block says, if it is well formed.\<close>

definition side_given ::
  "('s, 'd) scfg_api \<Rightarrow> (string \<Rightarrow> failure + 'cid) \<Rightarrow> 's \<Rightarrow> string \<Rightarrow> string \<Rightarrow>
    'cid collection_description \<Rightarrow> bool"
where
  "side_given A cid_of s i h c =
     (case c of
        ById cid \<Rightarrow> dirs A s h = None \<and>
          (\<exists>d v. dirs A s i = Some [d] \<and> fst (d_take_params A d) = [v] \<and> cid_of v = Inr cid)
      | ByHref href \<Rightarrow> dirs A s i = None \<and>
          (\<exists>d. dirs A s h = Some [d] \<and> fst (d_take_params A d) = [href]))"

lemma parse_individual_iff:
  assumes "fst (take_single_directive A i s) = Inr id_opt" and "fst (take_single_directive A h s) = Inr href_opt"
  shows "parse_individual_collection A cid_of id_opt href_opt = Inr c \<longleftrightarrow> side_given A cid_of s i h c"
  using assms
  by (cases id_opt; cases href_opt; cases c)
    (auto simp: parse_individual_collection_def side_given_def take_single_directive_None_iff
      take_single_directive_Some_iff rmap_eq_Inr_iff rbind_eq_Inr_iff flatten_single_vec_iff)

lemma side_given_taken:
  assumes "side_given A cid_of s i h c"
  obtains io ho where "fst (take_single_directive A i s) = Inr io" "fst (take_single_directive A h s) = Inr ho"
  using assms
  by (cases c) (auto simp: side_given_def take_single_directive_None_iff [symmetric]
      take_single_directive_Some_iff [symmetric])

lemma side_given_iff:
  "side_given A cid_of s i h c \<longleftrightarrow>
    (\<exists>io ho. fst (take_single_directive A i s) = Inr io \<and> fst (take_single_directive A h s) = Inr ho \<and>
      parse_individual_collection A cid_of io ho = Inr c)"
  (is "?l \<longleftrightarrow> ?r")
proof
  assume l: ?l
  then obtain io ho where io: "fst (take_single_directive A i s) = Inr io"
    and ho: "fst (take_single_directive A h s) = Inr ho"
    by (rule side_given_taken)
  have "parse_individual_collection A cid_of io ho = Inr c"
    using l parse_individual_iff [OF io ho, of cid_of c] by simp
  with io ho show ?r by blast
next
  assume ?r
  then obtain io ho where io: "fst (take_single_directive A i s) = Inr io"
    and ho: "fst (take_single_directive A h s) = Inr ho"
    and c: "parse_individual_collection A cid_of io ho = Inr c" by blast
  then show ?l using parse_individual_iff [OF io ho, of cid_of c] by simp
qed

text \<open>
  C40. A mapping block is accepted only with one alias and, for each side, exactly one of an id
  and an href, each with exactly one parameter; and then it maps exactly what it says.
\<close>
theorem parse_mapping_iff:
  assumes "scfg_laws A"
  shows "fst (parse_mapping A cid_of s) = Inr (Mapped alias a b) \<longleftrightarrow>
    (\<exists>d. dirs A s ''alias'' = Some [d] \<and> fst (d_take_params A d) = [alias]) \<and>
    side_given A cid_of s ''id_a'' ''href_a'' a \<and> side_given A cid_of s ''id_b'' ''href_b'' b"
  (is "?lhs \<longleftrightarrow> ?rhs")
proof -
  note gone = dirs_without [OF assms]
  have frame: "fst (take_single_directive A ''id_a'' (without A s ''alias'')) = fst (take_single_directive A ''id_a'' s)"
    "fst (take_single_directive A ''href_a'' (without A (without A s ''alias'') ''id_a'')) =
       fst (take_single_directive A ''href_a'' s)"
    "fst (take_single_directive A ''id_b'' (without A (without A (without A s ''alias'') ''id_a'') ''href_a'')) =
       fst (take_single_directive A ''id_b'' s)"
    "fst (take_single_directive A ''href_b''
       (without A (without A (without A (without A s ''alias'') ''id_a'') ''href_a'') ''id_b'')) =
       fst (take_single_directive A ''href_b'' s)"
    by (rule single.looks_at; simp add: gone)+
  have step: "fst (parse_mapping A cid_of s) = Inr (Mapped alias a b) \<longleftrightarrow>
     fst (take_single_param_from_directive A ''alias'' s) = Inr alias \<and>
     (\<exists>ia ha ib hb. fst (take_single_directive A ''id_a'' s) = Inr ia \<and>
       fst (take_single_directive A ''href_a'' s) = Inr ha \<and>
       fst (take_single_directive A ''id_b'' s) = Inr ib \<and>
       fst (take_single_directive A ''href_b'' s) = Inr hb \<and>
       parse_individual_collection A cid_of ia ha = Inr a \<and>
       parse_individual_collection A cid_of ib hb = Inr b)"
    by (simp add: parse_mapping_def fst_sbind_ok rbind_eq_Inr_iff frame) auto
  show ?thesis
    unfolding step side_given_iff take_single_param_from_directive_ok_iff by blast
qed

definition map_doc :: tree where
  "map_doc = Block [(''alias'', Dir [''work''] None), (''id_a'', Dir [''work''] None),
     (''href_b'', Dir [''/c/work/''] None)]"

theorem parse_mapping_iff_witness:
  "fst (parse_mapping (tree_api map_doc) Inr map_doc) = Inr (Mapped ''work'' (ById ''work'') (ByHref ''/c/work/''))"
  by (subst parse_mapping_iff [OF tree_laws])
    (simp add: side_given_def fst_tree_remove map_doc_def named_def)

text \<open>
  A conflict resolution is a command with its arguments, or one of the two sides to keep;
  nothing else is accepted, except that whatever follows the side to keep is ignored.
\<close>
theorem parse_conflict_resolution_iff:
  "parse_conflict_resolution A d = Inr r \<longleftrightarrow>
    (\<exists>c. fst (d_take_params A d) = ''cmd'' # argv c \<and> r = Cmd c) \<or>
    (\<exists>rest. fst (d_take_params A d) = ''keep'' # ''a'' # rest \<and> r = KeepA) \<or>
    (\<exists>rest. fst (d_take_params A d) = ''keep'' # ''b'' # rest \<and> r = KeepB)"
  by (auto simp: parse_conflict_resolution_def rmap_eq_Inr_iff from_args_Some_iff
      split: list.splits if_splits)

end
