(* ===== verification/Config_File.thy ===== *)
theory Config_File
  imports Filter_Names Pair_Config
begin

text \<open>
  The part of \<^verbatim>\<open>src/src/config.rs\<close> that reads a whole configuration file: \<^verbatim>\<open>parse_config\<close>,
  \<^verbatim>\<open>parse_storages\<close>, the two functions that list names, \<^verbatim>\<open>resolve_storage_cmds\<close>,
  \<^verbatim>\<open>open_default_path\<close> and \<^verbatim>\<open>Config::into_named_pairs\<close>. A \<^verbatim>\<open>HashMap\<close> is a map; the
  order in which one is walked and the order in which concurrent tasks end are parameters.
  Log messages are left out.
\<close>

section \<open>Commands of a storage block\<close>

definition first_param :: "('s, 'd) scfg_api \<Rightarrow> string \<Rightarrow> string \<Rightarrow> string \<Rightarrow> 's \<Rightarrow> failure + string" where
  "first_param A name missing no_param block =
     rbind (ok_or missing (sc_get A block name)) (\<lambda>d.
     ok_or no_param (case d_params A d of [] \<Rightarrow> None | p # _ \<Rightarrow> Some p))"

definition resolve_storage_cmds ::
  "('s, 'd) scfg_api \<Rightarrow> cmd_world \<Rightarrow> 's \<times> cmd_log \<Rightarrow> (failure + unit) \<times> 's \<times> cmd_log"
where
  "resolve_storage_cmds A run = (\<lambda>(storage, log).
     (case first_param A ''type'' ''storage must include a 'type' directive''
             ''type directive must specify one parameter'' storage of
        Inl e \<Rightarrow> (Inl e, storage, log)
      | Inr type \<Rightarrow>
          (if type = ''vdir/icalendar'' \<or> type = ''vdir/vcard'' then
             scontext ''resolving path for storage'' (resolve_cmd_inplace A run ''path'')
           else if type = ''carddav'' \<or> type = ''caldav'' \<or> type = ''jmap/icalendar'' \<or> type = ''jmap/vcard'' then
             sbind (scontext ''resolving url for storage'' (resolve_cmd_inplace A run ''url'')) (\<lambda>_.
             sbind (scontext ''resolving username for storage'' (resolve_cmd_inplace A run ''username'')) (\<lambda>_.
             scontext ''resolving password for storage'' (resolve_cmd_inplace A run ''password'')))
           else if type = ''webcal'' then
             scontext ''resolving url for storage'' (resolve_cmd_inplace A run ''url'')
           else slift (bail (fmt [''Unknown storage type: '', type]))) (storage, log)))"

section \<open>Reading the file\<close>

record 's config =
  cfg_status_path :: string
  cfg_pairs :: "string \<rightharpoonup> 's"
  cfg_storages :: "string \<rightharpoonup> 's"

definition named_directives :: "('s, 'd) scfg_api \<Rightarrow> string \<Rightarrow> 's \<Rightarrow> 'd list \<times> 's" where
  "named_directives A kind parser =
     (case sc_remove A parser kind of (ds, parser') \<Rightarrow> (case_option [] id ds, parser'))"

text \<open>
  One turn of the loop over the \<^verbatim>\<open>pair\<close> directives: the pairs kept so far, the storages they
  use, and what is left of the filter.
\<close>

type_synonym 's pairs_read = "(string \<rightharpoonup> 's) \<times> string set \<times> filter_names"

definition pair_directive :: "('s, 'd) scfg_api \<Rightarrow> 'd \<Rightarrow> 's pairs_read \<Rightarrow> failure + 's pairs_read" where
  "pair_directive A directive = (\<lambda>(pairs, enabled, names).
     (case take_single_param A directive of (param, directive') \<Rightarrow>
     rbind (with_context ''Parsing pair directive'' param) (\<lambda>name.
     if pairs name \<noteq> None then bail (fmt [''Duplicate definition for pair '', name, ''.''])
     else (case wants name names of (is_wanted, names') \<Rightarrow>
       if \<not> is_wanted then Inr (pairs, enabled, names')
       else
         rbind (ok_or ''pair must define a block'' (fst (d_take_child A directive'))) (\<lambda>child.
         rbind (first_param A ''storage_a'' ''pair must defined directive storage_a''
           ''storage_a must include a parameter'' child) (\<lambda>name_a.
         rbind (first_param A ''storage_b'' ''pair must defined directive storage_b''
           ''storage_b must include a parameter'' child) (\<lambda>name_b.
         Inr (pairs(name \<mapsto> child), insert name_b (insert name_a enabled), names'))))))))"

fun pair_directives :: "('s, 'd) scfg_api \<Rightarrow> 'd list \<Rightarrow> 's pairs_read \<Rightarrow> failure + 's pairs_read" where
  "pair_directives A [] acc = Inr acc"
| "pair_directives A (d # ds) acc = rbind (pair_directive A d acc) (pair_directives A ds)"

text \<open>One turn of the loop over the \<^verbatim>\<open>storage\<close> directives of \<^verbatim>\<open>parse_config\<close>.\<close>

definition storage_directive ::
  "('s, 'd) scfg_api \<Rightarrow> cmd_world \<Rightarrow> string set \<Rightarrow> 'd \<Rightarrow> (string \<rightharpoonup> 's) \<times> cmd_log \<Rightarrow>
    (failure + unit) \<times> (string \<rightharpoonup> 's) \<times> cmd_log"
where
  "storage_directive A run enabled directive = (\<lambda>(storages, log).
     (case take_single_param A directive of (param, directive') \<Rightarrow>
     (case with_context ''Parsing storage directive'' param of
        Inl e \<Rightarrow> (Inl e, storages, log)
      | Inr name \<Rightarrow>
          (if name \<notin> enabled then (Inr (), storages, log)
           else case ok_or ''storage must define a block'' (fst (d_take_child A directive')) of
             Inl e \<Rightarrow> (Inl e, storages, log)
           | Inr child \<Rightarrow>
               (case scontext (fmt [''resolving commands for storage '', name])
                       (resolve_storage_cmds A run) (child, log) of
                  (Inl e, _, log') \<Rightarrow> (Inl e, storages, log')
                | (Inr _, child', log') \<Rightarrow> (Inr (), storages(name \<mapsto> child'), log'))))))"

fun storage_directives ::
  "('s, 'd) scfg_api \<Rightarrow> cmd_world \<Rightarrow> string set \<Rightarrow> 'd list \<Rightarrow> (string \<rightharpoonup> 's) \<times> cmd_log \<Rightarrow>
    (failure + unit) \<times> (string \<rightharpoonup> 's) \<times> cmd_log"
where
  "storage_directives A run enabled [] = sret ()"
| "storage_directives A run enabled (d # ds) =
     sbind (storage_directive A run enabled d) (\<lambda>_. storage_directives A run enabled ds)"

definition parse_config ::
  "('s, 'd) scfg_api \<Rightarrow> cmd_world \<Rightarrow> (string set \<Rightarrow> string) \<Rightarrow> string \<Rightarrow> filter_names \<Rightarrow> cmd_log \<Rightarrow>
    (failure + 's config) \<times> cmd_log"
where
  "parse_config A run pick raw enabled_pairs log =
     (case with_context ''Parsing configuration file'' (sc_parse A raw) of
        Inl e \<Rightarrow> (Inl e, log)
      | Inr parser \<Rightarrow>
     (case scontext ''resolving status path'' (resolve_cmd_inplace A run ''status_path'') (parser, log) of
        (Inl e, _, log1) \<Rightarrow> (Inl e, log1)
      | (Inr _, parser1, log1) \<Rightarrow>
     (case take_single_param_from_directive A ''status_path'' parser1 of
        (Inl e, _) \<Rightarrow> (Inl e, log1)
      | (Inr status_path, parser2) \<Rightarrow>
     (case named_directives A ''pair'' parser2 of (pair_ds, parser3) \<Rightarrow>
     (case pair_directives A pair_ds (Map.empty, {}, enabled_pairs) of
        Inl e \<Rightarrow> (Inl e, log1)
      | Inr (pairs, enabled, names) \<Rightarrow>
     (case next_missing pick names of
        Some missing \<Rightarrow>
          (bail (fmt [''Requested pair missing from configuration: '', missing]), log1)
      | None \<Rightarrow>
     (case named_directives A ''storage'' parser3 of (storage_ds, _) \<Rightarrow>
     (case storage_directives A run enabled storage_ds (Map.empty, log1) of
        (Inl e, _, log2) \<Rightarrow> (Inl e, log2)
      | (Inr _, storages, log2) \<Rightarrow>
          (Inr \<lparr>cfg_status_path = status_path, cfg_pairs = pairs, cfg_storages = storages\<rparr>, log2)))))))))"


section \<open>Reading only the storages, or only the names\<close>

text \<open>\<^verbatim>\<open>NamedStorage\<close> of \<^verbatim>\<open>src/src/repair.rs\<close>.\<close>

record 'st named_storage =
  ns_name :: string
  ns_storage :: 'st

text \<open>
  One turn of the loop of \<^verbatim>\<open>parse_storages\<close>: the tasks spawned so far (each a name with the
  resolved block it will initialise), what is left of the filter, and the commands run.
\<close>

definition wanted_storage ::
  "('s, 'd) scfg_api \<Rightarrow> cmd_world \<Rightarrow> 'd \<Rightarrow> ((string \<times> 's) list \<times> filter_names) \<times> cmd_log \<Rightarrow>
    (failure + unit) \<times> ((string \<times> 's) list \<times> filter_names) \<times> cmd_log"
where
  "wanted_storage A run directive = (\<lambda>((tasks, names), log).
     (case take_single_param A directive of (param, directive') \<Rightarrow>
     (case with_context ''Parsing storage directive'' param of
        Inl e \<Rightarrow> (Inl e, (tasks, names), log)
      | Inr name \<Rightarrow>
     (case wants name names of (is_wanted, names') \<Rightarrow>
       (if \<not> is_wanted then (Inr (), (tasks, names'), log)
        else case ok_or ''storage must define a block'' (fst (d_take_child A directive')) of
          Inl e \<Rightarrow> (Inl e, (tasks, names'), log)
        | Inr child \<Rightarrow>
            (case resolve_storage_cmds A run (child, log) of
               (Inl e, _, log') \<Rightarrow> (Inl e, (tasks, names'), log')
             | (Inr _, child', log') \<Rightarrow> (Inr (), (tasks @ [(name, child')], names'), log')))))))"

fun wanted_storages ::
  "('s, 'd) scfg_api \<Rightarrow> cmd_world \<Rightarrow> 'd list \<Rightarrow> ((string \<times> 's) list \<times> filter_names) \<times> cmd_log \<Rightarrow>
    (failure + unit) \<times> ((string \<times> 's) list \<times> filter_names) \<times> cmd_log"
where
  "wanted_storages A run [] = sret ()"
| "wanted_storages A run (d # ds) = sbind (wanted_storage A run d) (\<lambda>_. wanted_storages A run ds)"

text \<open>
  The loop over \<^verbatim>\<open>join_next\<close>: the results of the tasks in the order in which they end. A panic
  of a task reaches the caller as a \<^verbatim>\<open>JoinError\<close>, whose message is a parameter.
\<close>

fun join_all :: "(string \<Rightarrow> string) \<Rightarrow> (failure + 'a) list \<Rightarrow> failure + 'a list" where
  "join_all joinerr [] = Inr []"
| "join_all joinerr (Inr p # rs) = rmap ((#) p) (join_all joinerr rs)"
| "join_all joinerr (Inl (Err ms) # rs) = Inl (Err ms)"
| "join_all joinerr (Inl (Panic m) # rs) = bail (joinerr m)"

definition storage_task ::
  "('s, 'd) scfg_api \<Rightarrow> ('uri, 'hv, 'cid) host \<Rightarrow> string \<times> 's \<Rightarrow>
    failure + ('uri, 'hv, 'cid) storage named_storage"
where
  "storage_task A H = (\<lambda>(name, child).
     rmap (\<lambda>(storage, _). \<lparr>ns_name = name, ns_storage = storage\<rparr>)
       (with_context (fmt [''initialising storage '', name]) (init_storage A H child)))"

text \<open>
  \<^verbatim>\<open>parse_storages\<close>; \<open>schedule\<close> puts the results of the tasks in the order in which they end.
\<close>

definition parse_storages ::
  "('s, 'd) scfg_api \<Rightarrow> ('uri, 'hv, 'cid) host \<Rightarrow> cmd_world \<Rightarrow> (string set \<Rightarrow> string) \<Rightarrow>
    (string \<Rightarrow> string) \<Rightarrow>
    ((failure + ('uri, 'hv, 'cid) storage named_storage) list \<Rightarrow>
      (failure + ('uri, 'hv, 'cid) storage named_storage) list) \<Rightarrow>
    string \<Rightarrow> filter_names \<Rightarrow> cmd_log \<Rightarrow>
    (failure + ('uri, 'hv, 'cid) storage named_storage list) \<times> cmd_log"
where
  "parse_storages A H run pick joinerr schedule raw enabled_storages log =
     (case with_context ''Parsing configuration file'' (sc_parse A raw) of
        Inl e \<Rightarrow> (Inl e, log)
      | Inr parser \<Rightarrow>
     (case named_directives A ''storage'' parser of (directives, _) \<Rightarrow>
     (case wanted_storages A run directives (([], enabled_storages), log) of
        (Inl e, _, log') \<Rightarrow> (Inl e, log')
      | (Inr _, (tasks, names), log') \<Rightarrow>
          (case next_missing pick names of
             Some missing \<Rightarrow> bail (fmt [''Missing storage definition for: '', missing])
           | None \<Rightarrow> join_all joinerr (schedule (map (storage_task A H) tasks)), log'))))"

definition list_names :: "('s, 'd) scfg_api \<Rightarrow> string \<Rightarrow> string \<Rightarrow> string \<Rightarrow> failure + string list" where
  "list_names A kind ctx raw =
     rbind (with_context ''Parsing configuration file'' (sc_parse A raw)) (\<lambda>parser.
     map_ok (\<lambda>d. with_context ctx (fst (take_single_param A d))) (fst (named_directives A kind parser)))"

definition list_pair_names :: "('s, 'd) scfg_api \<Rightarrow> string \<Rightarrow> failure + string list" where
  "list_pair_names A = list_names A ''pair'' ''Parsing pair directive''"

definition list_storage_names :: "('s, 'd) scfg_api \<Rightarrow> string \<Rightarrow> failure + string list" where
  "list_storage_names A = list_names A ''storage'' ''Parsing storage directive''"

text \<open>
  \<^verbatim>\<open>open_default_path\<close>: the value of \<^verbatim>\<open>XDG_CONFIG_HOME\<close>, the home directory, how paths are
  joined and how files are opened are parameters.
\<close>

definition open_default_path ::
  "string option \<Rightarrow> string option \<Rightarrow> (string \<Rightarrow> string \<Rightarrow> string) \<Rightarrow> (string \<Rightarrow> failure + 'file) \<Rightarrow>
    failure + string \<times> 'file"
where
  "open_default_path xdg home join open_file =
     rbind (case xdg of
              Some dir \<Rightarrow> Inr (join dir ''pimsync/pimsync.conf'')
            | None \<Rightarrow> rmap (\<lambda>h. join h ''.config/pimsync/pimsync.conf'')
                (ok_or ''Could not resolve $XDG_CONFIG_HOME nor $HOME.'' home)) (\<lambda>path.
     rmap (\<lambda>file. (path, file))
       (with_context (fmt [''Could not open '', path, ''.'']) (open_file path)))"

section \<open>From a configuration to its pairs\<close>

text \<open>
  What a call to \<^verbatim>\<open>StorageBuilder::get_storage\<close> returns; the theory of the builder shows that
  every call that returns for the same name returns the same.
\<close>

definition storage_outcome ::
  "('s, 'd) scfg_api \<Rightarrow> ('uri, 'hv, 'cid) host \<Rightarrow> (string \<rightharpoonup> 's) \<Rightarrow> string \<Rightarrow>
    failure + ('uri, 'hv, 'cid) storage \<times> u64"
where
  "storage_outcome A H storages name =
     (case storages name of
        None \<Rightarrow> bail (fmt [''Storage '', name, '' is not defined.''])
      | Some config \<Rightarrow> with_context (fmt [''Initialising storage '', name]) (init_storage A H config))"

text \<open>\<^verbatim>\<open>tokio::try_join!\<close>: both values, or the error that occurs first.\<close>

fun try_join :: "bool \<Rightarrow> 'e + 'a \<Rightarrow> 'e + 'b \<Rightarrow> 'e + 'a \<times> 'b" where
  "try_join a_first (Inr a) (Inr b) = Inr (a, b)"
| "try_join a_first (Inl e) (Inr b) = Inl e"
| "try_join a_first (Inr a) (Inl e) = Inl e"
| "try_join a_first (Inl e) (Inl e') = Inl (if a_first then e else e')"

lemma try_join_eq_Inr_iff: "try_join f r r' = Inr p \<longleftrightarrow> r = Inr (fst p) \<and> r' = Inr (snd p)"
  by (cases r; cases r'; cases p) auto

definition spawn_pair ::
  "('s, 'd) scfg_api \<Rightarrow> string \<times> 's \<Rightarrow> failure + string \<times> string \<times> string \<times> 's"
where
  "spawn_pair A = (\<lambda>(name, config).
     (case sbind (take_single_param_from_directive A ''storage_a'') (\<lambda>a.
           sbind (take_single_param_from_directive A ''storage_b'') (\<lambda>b. sret (a, b))) config of
        (Inl e, _) \<Rightarrow> Inl e
      | (Inr (a, b), config') \<Rightarrow> Inr (name, a, b, config')))"

definition pair_task ::
  "('s, 'd) scfg_api \<Rightarrow> ('uri, 'hv, 'cid) host \<Rightarrow> (('uri, 'hv, 'cid) storage, 'cid, 'p) pair_api \<Rightarrow>
    (string \<Rightarrow> bool) \<Rightarrow> (string \<Rightarrow> failure + ('uri, 'hv, 'cid) storage \<times> u64) \<Rightarrow> string \<Rightarrow>
    string \<times> string \<times> string \<times> 's \<Rightarrow> failure + 'p named_pair"
where
  "pair_task A H P a_first get status_dir = (\<lambda>(name, name_a, name_b, config).
     rbind (try_join (a_first name) (get name_a) (get name_b)) (\<lambda>storages.
     fst (build_named_pair A P (path_join H) status_dir name (name_a, name_b) storages config)))"

definition into_named_pairs ::
  "('s, 'd) scfg_api \<Rightarrow> ('uri, 'hv, 'cid) host \<Rightarrow> (('uri, 'hv, 'cid) storage, 'cid, 'p) pair_api \<Rightarrow>
    (string \<Rightarrow> bool) \<Rightarrow> (string \<Rightarrow> string) \<Rightarrow> ((string \<rightharpoonup> 's) \<Rightarrow> (string \<times> 's) list) \<Rightarrow>
    ((failure + 'p named_pair) list \<Rightarrow> (failure + 'p named_pair) list) \<Rightarrow>
    's config \<Rightarrow> failure + 'p named_pair list"
where
  "into_named_pairs A H P a_first joinerr walk schedule cfg =
     rbind (with_context ''Expanding tilde for status_dir'' (expand_tilde H (cfg_status_path cfg))) (\<lambda>status_dir.
     rbind (map_ok (spawn_pair A) (walk (cfg_pairs cfg))) (\<lambda>tasks.
     join_all joinerr (schedule (map
       (pair_task A H P a_first (storage_outcome A H (cfg_storages cfg)) status_dir) tasks))))"

section \<open>Helper lemmas\<close>

lemma map_ok_iff: "map_ok f xs = Inr ys \<longleftrightarrow> map f xs = map Inr ys"
  by (induction xs arbitrary: ys) (auto simp: rbind_eq_Inr_iff rmap_eq_Inr_iff Cons_eq_map_conv)

lemma join_all_iff: "join_all joinerr rs = Inr xs \<longleftrightarrow> rs = map Inr xs"
  by (induction joinerr rs arbitrary: xs rule: join_all.induct)
    (auto simp: rmap_eq_Inr_iff Cons_eq_map_conv)

lemma take_single_param_pair:
  "fst (take_single_param A d) = r \<Longrightarrow> take_single_param A d = (r, snd (d_take_params A d))"
  by (simp add: prod_eq_iff)

end
