(* ===== verification/Storage_Props.thy ===== *)
theory Storage_Props
  imports Storage_Config
begin

text \<open>
  Properties of the storage part of the configuration: credentials, transports, TLS policy,
  the read-only wrapper, intervals and paths.
\<close>

section \<open>Values a block is read with\<close>

text \<open>The parameter of a directive that occurs once with exactly one parameter.\<close>

definition sole_param :: "('s, 'd) scfg_api \<Rightarrow> 's \<Rightarrow> string \<Rightarrow> string option" where
  "sole_param A s n =
     (case dirs A s n of Some [d] \<Rightarrow>
        (case fst (d_take_params A d) of [p] \<Rightarrow> Some p | _ \<Rightarrow> None)
      | _ \<Rightarrow> None)"

lemma sole_paramI [intro]:
  "dirs A s n = Some [d] \<Longrightarrow> fst (d_take_params A d) = [p] \<Longrightarrow> sole_param A s n = Some p"
  by (simp add: sole_param_def)

lemma read_optional_param:
  assumes "fst (take_single_directive A n s) = Inr d"
    and "(case d of Some x \<Rightarrow> fst (take_single_param A x) | None \<Rightarrow> Inr def) = Inr p"
  shows "dirs A s n = None \<and> p = def \<or> sole_param A s n = Some p"
proof (cases d)
  case None
  with assms show ?thesis by (simp add: take_single_directive_None_iff)
next
  case (Some x)
  with assms show ?thesis by (auto simp: take_single_directive_Some_iff take_single_param_ok_iff)
qed

section \<open>Credentials\<close>

lemma parse_auth_ok:
  assumes "scfg_laws A" and "fst (parse_auth A H s) = Inr auth"
  shows "dirs A s ''username'' = None \<and> auth = None \<or>
    (\<exists>user pass header. sole_param A s ''username'' = Some user \<and>
      (dirs A s ''password'' = None \<and> pass = [] \<or> sole_param A s ''password'' = Some pass) \<and>
      to_header H (basic_header H user pass) = Inr header \<and> auth = Some (set_sensitive H header))"
proof -
  from assms(2) obtain u where u: "fst (take_single_directive A ''username'' s) = Inr u"
    and rest: "fst ((case u of None \<Rightarrow> sret None
     | Some u_directive \<Rightarrow>
         sbind (slift (fst (take_single_param A u_directive))) (\<lambda>username.
         sbind (take_single_directive A ''password'') (\<lambda>p.
         sbind (slift (case p of
                  Some p_directive \<Rightarrow> fst (take_single_param A p_directive)
                | None \<Rightarrow> Inr [])) (\<lambda>password.
         slift (rmap (\<lambda>v. Some (set_sensitive H v))
           (with_context ''encoding auth header'' (to_header H (basic_header H username password))))))))
      (without A s ''username'')) = Inr auth"
    by (auto simp: parse_auth_def fst_sbind_ok)
  show ?thesis
  proof (cases u)
    case None
    with u rest show ?thesis by (simp add: take_single_directive_None_iff)
  next
    case (Some du)
    with rest obtain user p pass header where
      "fst (take_single_param A du) = Inr user"
      and p: "fst (take_single_directive A ''password'' (without A s ''username'')) = Inr p"
        "(case p of Some x \<Rightarrow> fst (take_single_param A x) | None \<Rightarrow> Inr []) = Inr pass"
      and "to_header H (basic_header H user pass) = Inr header" "auth = Some (set_sensitive H header)"
      by (auto simp: fst_sbind_ok rbind_eq_Inr_iff rmap_eq_Inr_iff)
    moreover have "sole_param A s ''username'' = Some user"
      using u Some calculation(1)
      by (auto simp: take_single_directive_Some_iff take_single_param_ok_iff)
    moreover have "dirs A (without A s ''username'') ''password'' = dirs A s ''password''"
      by (simp add: dirs_without [OF assms(1)])
    then have "dirs A s ''password'' = None \<and> pass = [] \<or> sole_param A s ''password'' = Some pass"
      using read_optional_param [OF p] by (simp add: sole_param_def)
    ultimately show ?thesis by blast
  qed
qed

lemma first_colon:
  "CHR '':'' \<notin> set u \<Longrightarrow> CHR '':'' \<notin> set u' \<Longrightarrow> u @ CHR '':'' # p = u' @ CHR '':'' # p' \<Longrightarrow>
     u = u' \<and> p = p'"
proof (induction u arbitrary: u')
  case Nil
  then show ?case by (cases u') auto
next
  case (Cons c u)
  then show ?case by (cases u') auto
qed


text \<open>A host that answers every question, for the witnesses.\<close>

definition demo_host :: "(string, string, string) host" where
  "demo_host =
     \<lparr>parse_uri = Inr, to_header = Inr, set_sensitive = id, base64 = id, parse_cid = Inr,
      env_http_proxy = None, home_dir = Some (Inr ''/home/u''),
      path_join = (\<lambda>a b. if take 1 b = ''/'' then b else a @ ''/'' @ b),
      vdir_builder = (\<lambda>_. Inr ()), default_segment = Last,
      hex_decode = (\<lambda>_. Inr [7]), pem_sections = (\<lambda>_. Inr []), pem_certs = (\<lambda>_. Inr []),
      pem_key = (\<lambda>_. Inr (Pkcs8 [])), root_add = (\<lambda>st c. Inr (st @ [c])),
      webpki_build = (\<lambda>_. Inr ()), native_roots = Inr (),
      client_auth_cert = (\<lambda>_ _. Inr ()), dav_bootstrap = (\<lambda>_ _. Inr ()),
      storage_build = (\<lambda>_. Inr ()), jmap_session = (\<lambda>_ u. Inr (u, None)),
      version = ''v0.5.8'', jmap_enabled = False\<rparr>"

definition auth_doc :: tree where
  "auth_doc = Block [(''username'', Dir [''hugo''] None), (''password'', Dir [''a:b''] None)]"

lemma auth_doc_eval:
  "fst (parse_auth (tree_api auth_doc) demo_host auth_doc) = Inr (Some ''Basic hugo:a:b'')"
  "sole_param (tree_api auth_doc) auth_doc ''username'' = Some ''hugo''"
  by code_simp+

definition auth_doc2 :: tree where
  "auth_doc2 = Block [(''password'', Dir [''a:b''] None), (''username'', Dir [''hugo''] None)]"

lemma auth_doc2_eval:
  "fst (parse_auth (tree_api auth_doc) demo_host auth_doc2) = Inr (Some ''Basic hugo:a:b'')"
  "sole_param (tree_api auth_doc) auth_doc2 ''username'' = Some ''hugo''"
  by code_simp+


text \<open>
  The restriction on user names is needed: the code does not refuse a colon, and two different
  pairs of credentials then give the same header.
\<close>
lemma basic_auth_colon_collides:
  "basic_header H ''a:b'' ''c'' = basic_header H ''a'' ''b:c''"
  by (simp add: basic_header_def fmt_def)

section \<open>Transports\<close>

fun client_connector :: "('uri, 'hv) http_client \<Rightarrow> 'uri connector" where
  "client_connector (HyperClient c) = c"
| "client_connector (SetRequestHeader _ _ client) = client_connector client"

fun dav_parts :: "('uri, 'hv, 'cid) storage \<Rightarrow> ('uri connector \<times> bool) option" where
  "dav_parts (CardDavStorage client _ _ discover) = Some (client_connector client, discover)"
| "dav_parts (CalDavStorage client _ _ discover) = Some (client_connector client, discover)"
| "dav_parts (ReadOnlyStorage st) = dav_parts st"
| "dav_parts _ = None"

lemma dav_parts_into_arc [simp]: "dav_parts (into_arc st ro) = dav_parts st"
  by (simp add: into_arc_def)

lemma client_connector_build [simp]: "client_connector (build_http_client c a u) = c"
  by (simp add: build_http_client_def Let_def)

text \<open>
  C34. A CardDAV storage talks over a Unix socket, without service discovery, exactly when its
  block has a \<^verbatim>\<open>socket\<close> directive, and then to that directive's path; in every other case it
  talks HTTPS with discovery. The scheme of its URL has no part in it, so a \<^verbatim>\<open>unix://\<close> URL
  does not select a socket.
\<close>
theorem carddav_transport:
  assumes "scfg_laws A" and "fst (parse_carddav A H ro s) = Inr st"
  shows "case dirs A s ''socket'' of
      None \<Rightarrow> \<exists>tls proxy. dav_parts st = Some (HttpsConnector tls proxy, True)
    | Some ds \<Rightarrow> \<exists>path. sole_param A s ''socket'' = Some path \<and>
        dav_parts st = Some (UnixConnector path, False)"
  using assms
proof (cases rule: parse_carddav_ok)
  case (1 url segment auth user_agent connector discover)
  then show ?thesis by (auto split: option.splits)
qed

definition unix_doc :: tree where
  "unix_doc = Block [(''url'', Dir [''unix:///tmp/x.sock''] None)]"

definition unix_storage :: "(string, string, string) storage" where
  "unix_storage = CardDavStorage (build_http_client
      (HttpsConnector \<lparr>server_auth = NativeRoots, client_auth = None\<rparr> None) None ''pimsync/0.5.8'')
      ''unix:///tmp/x.sock'' Last True"

lemma unix_doc_eval:
  "fst (parse_carddav (tree_api unix_doc) demo_host False unix_doc) = Inr unix_storage"
  by code_simp

theorem carddav_transport_witness:
  "\<exists>tls proxy. dav_parts unix_storage = Some (HttpsConnector tls proxy, True)"
  using carddav_transport [OF tree_laws unix_doc_eval]
  by (simp add: fst_tree_remove unix_doc_def named_def)

text \<open>Two results that succeed together, with values related by a function.\<close>

definition agrees :: "('a \<Rightarrow> 'b) \<Rightarrow> 'e + 'a \<Rightarrow> 'e + 'b \<Rightarrow> bool" where
  "agrees f r r' \<longleftrightarrow> (\<forall>b. r' = Inr b \<longleftrightarrow> (\<exists>a. r = Inr a \<and> b = f a))"

lemma agrees_rmap: "agrees f (fst (slift r s)) (fst (slift (rmap f r) s))"
  by (cases r) (auto simp: agrees_def)

lemma agrees_sbind:
  "(\<And>a t. agrees f (fst (k a t)) (fst (k' a t))) \<Longrightarrow> agrees f (fst (sbind m k s)) (fst (sbind m k' s))"
  by (auto simp: agrees_def fst_sbind_ok)

lemma agrees_context:
  "(\<And>a t. agrees f (fst (k a t)) (fst (k' a t))) \<Longrightarrow>
     agrees f (fst (sbind (slift (with_context c r)) k s)) (fst (sbind (slift (with_context c' r)) k' s))"
  by (cases r) (auto simp: agrees_def)

lemma agrees_scontext:
  "(\<And>a t. agrees f (fst (k a t)) (fst (k' a t))) \<Longrightarrow>
     agrees f (fst (sbind (scontext c m) k s)) (fst (sbind (scontext c' m) k' s))"
  by (auto simp: agrees_def fst_sbind_ok)

lemma agrees_option:
  "(\<And>t. agrees f (fst (n t)) (fst (n' t))) \<Longrightarrow> (\<And>a t. agrees f (fst (k a t)) (fst (k' a t))) \<Longrightarrow>
     agrees f (fst ((case x of None \<Rightarrow> n | Some a \<Rightarrow> k a) s)) (fst ((case x of None \<Rightarrow> n' | Some a \<Rightarrow> k' a) s))"
  by (cases x) auto

lemmas agrees_intros = agrees_option agrees_scontext agrees_context agrees_sbind agrees_rmap



section \<open>Read-only storages\<close>

fun is_read_only :: "('uri, 'hv, 'cid) storage \<Rightarrow> bool" where
  "is_read_only (ReadOnlyStorage _) = True"
| "is_read_only (WebCalStorage _ _ _) = True"
| "is_read_only _ = False"

lemma is_read_only_into_arc: "is_read_only (into_arc st ro) = (ro \<or> is_read_only st)"
  by (simp add: into_arc_def)

lemma parse_vdir_read_only: "fst (parse_vdir A H kind ro s) = Inr st \<Longrightarrow> is_read_only st = ro"
  by (auto simp: parse_vdir_def fst_sbind_ok rbind_eq_Inr_iff rmap_eq_Inr_iff is_read_only_into_arc
      split: option.splits if_splits)

lemma parse_carddav_read_only: "fst (parse_carddav A H ro s) = Inr st \<Longrightarrow> is_read_only st = ro"
  by (auto simp: parse_carddav_def fst_sbind_ok rbind_eq_Inr_iff is_read_only_into_arc
      dest!: finish_carddav_ok split: option.splits)

lemma parse_caldav_read_only: "fst (parse_caldav A H ro s) = Inr st \<Longrightarrow> is_read_only st = ro"
  by (auto simp: parse_caldav_def fst_sbind_ok rbind_eq_Inr_iff is_read_only_into_arc
      dest!: finish_caldav_ok split: option.splits)

lemma parse_webcal_read_only: "fst (parse_webcal A H ro s) = Inr st \<Longrightarrow> is_read_only st"
  by (auto simp: parse_webcal_def fst_sbind_ok rbind_eq_Inr_iff)

lemma parse_jmap_read_only: "fst (parse_jmap A H kind ro s) = Inr st \<Longrightarrow> is_read_only st = ro"
  by (auto simp: parse_jmap_def finish_jmap_def fst_sbind_ok rbind_eq_Inr_iff is_read_only_into_arc)

lemmas parse_storage_read_only = parse_vdir_read_only parse_carddav_read_only
  parse_caldav_read_only parse_webcal_read_only parse_jmap_read_only

text \<open>The parser that a block's type selects, and the flags it is called with.\<close>

lemma init_storage_parsed:
  assumes "scfg_laws A" and "init_storage A H s = Inr (st, interval)"
  obtains type ro t where "sole_param A s ''type'' = Some type" and "ro = (dirs A s ''read_only'' \<noteq> None)"
    and "fst ((if type = ''vdir/icalendar'' then parse_vdir A H Calendar ro
            else if type = ''vdir/vcard'' then parse_vdir A H AddressBook ro
            else if type = ''carddav'' then parse_carddav A H ro
            else if type = ''caldav'' then parse_caldav A H ro
            else if type = ''webcal'' then parse_webcal A H ro
            else if type = ''jmap/icalendar'' \<and> jmap_enabled H then parse_jmap A H Calendar ro
            else if type = ''jmap/vcard'' \<and> jmap_enabled H then parse_jmap A H AddressBook ro
            else if type = ''jmap/icalendar'' \<or> type = ''jmap/vcard'' then
              slift (bail ''pimsync compiled with JMAP support disabled.'')
            else slift (bail (fmt [''Unknown storage type: '', type]))) t) = Inr st"
proof -
  from assms(2) obtain type ro t where
    type: "fst (take_single_param_from_directive A ''type'' s) = Inr type"
    and ro: "fst (parse_read_only A (without A (without A s ''type'') ''interval'')) = Inr ro"
    and st: "fst ((if type = ''vdir/icalendar'' then parse_vdir A H Calendar ro
            else if type = ''vdir/vcard'' then parse_vdir A H AddressBook ro
            else if type = ''carddav'' then parse_carddav A H ro
            else if type = ''caldav'' then parse_caldav A H ro
            else if type = ''webcal'' then parse_webcal A H ro
            else if type = ''jmap/icalendar'' \<and> jmap_enabled H then parse_jmap A H Calendar ro
            else if type = ''jmap/vcard'' \<and> jmap_enabled H then parse_jmap A H AddressBook ro
            else if type = ''jmap/icalendar'' \<or> type = ''jmap/vcard'' then
              slift (bail ''pimsync compiled with JMAP support disabled.'')
            else slift (bail (fmt [''Unknown storage type: '', type]))) t) = Inr st"
    by (auto simp: init_storage_def init_storage_state_def fst_sbind_ok)
  have "sole_param A s ''type'' = Some type"
    using type by (auto simp: take_single_param_from_directive_ok_iff)
  moreover have "ro = (dirs A s ''read_only'' \<noteq> None)"
    using parse_read_only_ok [OF ro] by (simp add: dirs_without [OF assms(1)])
  ultimately show thesis using st by (rule that)
qed

text \<open>
  C25. A storage whose block has the \<^verbatim>\<open>read_only\<close> directive is never handed out for writing:
  it is wrapped (or is a WebCal storage, which is read-only by itself). Without the directive
  only a WebCal storage is read-only.
\<close>
theorem init_storage_read_only:
  assumes "scfg_laws A" and "init_storage A H s = Inr (st, interval)"
  shows "is_read_only st \<longleftrightarrow>
    dirs A s ''read_only'' \<noteq> None \<or> sole_param A s ''type'' = Some ''webcal''"
proof -
  obtain type ro t where type: "sole_param A s ''type'' = Some type" "ro = (dirs A s ''read_only'' \<noteq> None)"
    and st: "fst ((if type = ''vdir/icalendar'' then parse_vdir A H Calendar ro
            else if type = ''vdir/vcard'' then parse_vdir A H AddressBook ro
            else if type = ''carddav'' then parse_carddav A H ro
            else if type = ''caldav'' then parse_caldav A H ro
            else if type = ''webcal'' then parse_webcal A H ro
            else if type = ''jmap/icalendar'' \<and> jmap_enabled H then parse_jmap A H Calendar ro
            else if type = ''jmap/vcard'' \<and> jmap_enabled H then parse_jmap A H AddressBook ro
            else if type = ''jmap/icalendar'' \<or> type = ''jmap/vcard'' then
              slift (bail ''pimsync compiled with JMAP support disabled.'')
            else slift (bail (fmt [''Unknown storage type: '', type]))) t) = Inr st"
    by (rule init_storage_parsed [OF assms])
  have "is_read_only st = (if type = ''webcal'' then True else ro)"
    using st by (auto split: if_splits dest: parse_storage_read_only)
  with type show ?thesis by auto
qed

definition ro_doc :: tree where
  "ro_doc = Block [(''type'', Dir [''vdir/vcard''] None), (''path'', Dir [''~/c''] None),
                   (''read_only'', Dir [] None)]"

theorem init_storage_read_only_witness:
  "is_read_only (ReadOnlyStorage (VdirStorage ''/home/u/c'' None AddressBook) :: (string, string, string) storage)
     \<longleftrightarrow> dirs (tree_api ro_doc) ro_doc ''read_only'' \<noteq> None
       \<or> sole_param (tree_api ro_doc) ro_doc ''type'' = Some ''webcal''"
proof -
  have "init_storage (tree_api ro_doc) demo_host ro_doc =
      Inr (ReadOnlyStorage (VdirStorage ''/home/u/c'' None AddressBook), 300)"
    by code_simp
  from init_storage_read_only [OF tree_laws this] show ?thesis .
qed

section \<open>The shape of a storage\<close>

text \<open>
  Every client adds the same two headers, outermost the user agent, which is always there.
\<close>

fun client_shaped :: "('uri, 'hv) http_client \<Rightarrow> bool" where
  "client_shaped (SetRequestHeader outer (Some user_agent) (SetRequestHeader inner auth (HyperClient connector))) =
     (outer = ''user-agent'' \<and> inner = ''authorization'')"
| "client_shaped _ = False"

fun uses_https :: "('uri, 'hv) http_client \<Rightarrow> bool" where
  "uses_https client = (case client_connector client of HttpsConnector _ _ \<Rightarrow> True | UnixConnector _ \<Rightarrow> False)"

fun unwrapped :: "('uri, 'hv, 'cid) storage \<Rightarrow> ('uri, 'hv, 'cid) storage" where
  "unwrapped (ReadOnlyStorage st) = st"
| "unwrapped st = st"

fun typed_storage :: "string \<Rightarrow> ('uri, 'hv, 'cid) storage \<Rightarrow> bool" where
  "typed_storage type (VdirStorage path ext kind) =
     (type = (case kind of Calendar \<Rightarrow> ''vdir/icalendar'' | AddressBook \<Rightarrow> ''vdir/vcard''))"
| "typed_storage type (CardDavStorage client url segment discover) =
     (type = ''carddav'' \<and> client_shaped client \<and> discover = uses_https client)"
| "typed_storage type (CalDavStorage client url segment discover) =
     (type = ''caldav'' \<and> client_shaped client \<and> discover = uses_https client)"
| "typed_storage type (WebCalStorage client url cid) =
     (type = ''webcal'' \<and> client_shaped client \<and> uses_https client)"
| "typed_storage type (JmapStorage client url api kind) =
     (type = (case kind of Calendar \<Rightarrow> ''jmap/icalendar'' | AddressBook \<Rightarrow> ''jmap/vcard'') \<and>
      client_shaped client \<and> uses_https client)"
| "typed_storage type (ReadOnlyStorage st) = False"

lemma client_shaped_build [simp]: "client_shaped (build_http_client c a u)"
  by (simp add: build_http_client_def Let_def)

lemma unwrapped_into_arc: "unwrapped (into_arc st ro) = (if ro then st else unwrapped st)"
  by (simp add: into_arc_def)

lemmas typed_simps = fst_sbind_ok rbind_eq_Inr_iff rmap_eq_Inr_iff unwrapped_into_arc

lemma parse_storage_typed:
  "fst (parse_vdir A H kind ro s) = Inr st \<Longrightarrow>
     typed_storage (case kind of Calendar \<Rightarrow> ''vdir/icalendar'' | AddressBook \<Rightarrow> ''vdir/vcard'') (unwrapped st)"
  "fst (parse_carddav A H ro s) = Inr st \<Longrightarrow> typed_storage ''carddav'' (unwrapped st)"
  "fst (parse_caldav A H ro s) = Inr st \<Longrightarrow> typed_storage ''caldav'' (unwrapped st)"
  "fst (parse_webcal A H ro s) = Inr st \<Longrightarrow> typed_storage ''webcal'' (unwrapped st)"
  "fst (parse_jmap A H kind ro s) = Inr st \<Longrightarrow>
     typed_storage (case kind of Calendar \<Rightarrow> ''jmap/icalendar'' | AddressBook \<Rightarrow> ''jmap/vcard'') (unwrapped st)"
  by (auto simp: parse_vdir_def typed_simps split: option.splits if_splits)
    (auto simp: parse_carddav_def parse_caldav_def parse_webcal_def parse_jmap_def finish_jmap_def typed_simps
      dest!: finish_carddav_ok finish_caldav_ok https_connector_ok split: option.splits)

text \<open>
  C24. The \<^verbatim>\<open>type\<close> of a block decides what its storage is: which kind of storage, holding
  calendars or address books, under at most one read-only wrapper. Every storage that talks
  HTTP sends a user agent with every request, only a DAV storage may use a socket, and service
  discovery is done exactly when it does not.
\<close>
theorem init_storage_typed:
  assumes "scfg_laws A" and "init_storage A H s = Inr (st, interval)"
  shows "\<exists>type. sole_param A s ''type'' = Some type \<and> typed_storage type (unwrapped st)"
proof -
  obtain type ro t where type: "sole_param A s ''type'' = Some type"
    and st: "fst ((if type = ''vdir/icalendar'' then parse_vdir A H Calendar ro
            else if type = ''vdir/vcard'' then parse_vdir A H AddressBook ro
            else if type = ''carddav'' then parse_carddav A H ro
            else if type = ''caldav'' then parse_caldav A H ro
            else if type = ''webcal'' then parse_webcal A H ro
            else if type = ''jmap/icalendar'' \<and> jmap_enabled H then parse_jmap A H Calendar ro
            else if type = ''jmap/vcard'' \<and> jmap_enabled H then parse_jmap A H AddressBook ro
            else if type = ''jmap/icalendar'' \<or> type = ''jmap/vcard'' then
              slift (bail ''pimsync compiled with JMAP support disabled.'')
            else slift (bail (fmt [''Unknown storage type: '', type]))) t) = Inr st"
    by (rule init_storage_parsed [OF assms])
  from st have "typed_storage type (unwrapped st)"
    by (auto split: if_splits dest: parse_storage_typed)
  with type show ?thesis by blast
qed

theorem init_storage_typed_witness:
  "\<exists>type. sole_param (tree_api ro_doc) ro_doc ''type'' = Some type \<and>
     typed_storage type (unwrapped (ReadOnlyStorage (VdirStorage ''/home/u/c'' None AddressBook) :: (string, string, string) storage))"
proof -
  have "init_storage (tree_api ro_doc) demo_host ro_doc =
      Inr (ReadOnlyStorage (VdirStorage ''/home/u/c'' None AddressBook), 300)"
    by code_simp
  from init_storage_typed [OF tree_laws this] show ?thesis .
qed

section \<open>TLS policy\<close>

text \<open>
  The check a TLS client makes with each configuration; \<open>native\<close> and \<open>webpki\<close> stand for the
  library's verifier over the system's and over the given roots.
\<close>

fun server_check ::
  "(bytes \<Rightarrow> bytes) \<Rightarrow> (handshake \<Rightarrow> rustls_error + unit) \<Rightarrow>
    (bytes list \<Rightarrow> handshake \<Rightarrow> rustls_error + unit) \<Rightarrow> server_auth \<Rightarrow> handshake \<Rightarrow> rustls_error + unit"
where
  "server_check sha256 native webpki NativeRoots h = native h"
| "server_check sha256 native webpki (RootCertificates roots) h = webpki roots h"
| "server_check sha256 native webpki (CustomFingerprint v) h = fingerprint_verify sha256 v h"
| "server_check sha256 native webpki (CustomBoth v) h = both_verify sha256 webpki v h"

lemma parse_tls_config_ok:
  assumes "scfg_laws A" and "fst (parse_tls_config A H s) = Inr cfg"
  obtains root_d roots fp_d fp where
    "fst (take_single_directive A ''tls_root'' s) = Inr root_d"
    "load_tls_root A H root_d = Inr roots"
    "fst (take_single_directive A ''tls_fingerprint'' s) = Inr fp_d"
    "load_fingerprint A H fp_d = Inr fp"
    "choose_server_auth H roots fp = Inr (server_auth cfg)"
proof -
  have other: "fst (take_single_directive A ''tls_fingerprint'' (without A s ''tls_root'')) =
      fst (take_single_directive A ''tls_fingerprint'' s)"
    using single.others_unaffected [OF assms(1), of "''tls_fingerprint''" "''tls_root''" s] by simp
  from assms(2) obtain root_d roots fp_d fp auth where
    "fst (take_single_directive A ''tls_root'' s) = Inr root_d"
    "load_tls_root A H root_d = Inr roots"
    "fst (take_single_directive A ''tls_fingerprint'' (without A s ''tls_root'')) = Inr fp_d"
    "load_fingerprint A H fp_d = Inr fp"
    "choose_server_auth H roots fp = Inr auth" "server_auth cfg = auth"
    by (auto simp: parse_tls_config_def fst_sbind_ok rbind_eq_Inr_iff rmap_eq_Inr_iff
        split: option.splits prod.splits)
  then show thesis unfolding other by (intro that) auto
qed

lemma load_tls_root_None_iff: "load_tls_root A H d = Inr r \<Longrightarrow> (r = None) = (d = None)"
  by (auto simp: load_tls_root_def rbind_eq_Inr_iff rmap_eq_Inr_iff split: option.splits)

text \<open>
  C11. With \<^verbatim>\<open>tls_fingerprint\<close> in the block, a server is accepted only if the digest of its
  certificate is the configured one. If \<^verbatim>\<open>tls_root\<close> is there too, it must also pass the check
  against those roots; if it is not, the fingerprint is all that is checked.
\<close>
theorem tls_fingerprint_pins:
  assumes "scfg_laws A" and "fst (parse_tls_config A H s) = Inr cfg"
    and "sole_param A s ''tls_fingerprint'' = Some hex"
  shows "\<exists>fp. hex_decode H hex = Inr fp \<and>
    (if dirs A s ''tls_root'' = None
     then \<forall>h. server_check sha256 native webpki (server_auth cfg) h = Inr () \<longleftrightarrow>
            sha256 (end_entity h) = fp
     else \<exists>d roots. dirs A s ''tls_root'' = Some [d] \<and> load_tls_root A H (Some d) = Inr (Some roots) \<and>
          (\<forall>h. server_check sha256 native webpki (server_auth cfg) h = Inr () \<longleftrightarrow>
            sha256 (end_entity h) = fp \<and> webpki roots h = Inr ()))"
  using assms(1,2)
proof (cases rule: parse_tls_config_ok)
  case (1 root_d roots fp_d fp)
  from assms(3) obtain d where d: "dirs A s ''tls_fingerprint'' = Some [d]"
    "fst (d_take_params A d) = [hex]"
    by (auto simp: sole_param_def split: option.splits list.splits)
  then have "fst (take_single_directive A ''tls_fingerprint'' s) = Inr (Some d)"
    by (simp add: take_single_directive_Some_iff)
  with 1(3) have "fp_d = Some d" by simp
  moreover have "fst (take_single_param A d) = Inr hex" using d by (simp add: take_single_param_ok_iff)
  ultimately obtain b where b: "hex_decode H hex = Inr b" "fp = Some \<lparr>fingerprint = b\<rparr>"
    using 1(4) by (auto simp: load_fingerprint_def fingerprint_new_def rmap_eq_Inr_iff)
  show ?thesis
  proof (cases root_d)
    case None
    with 1(1,2) have root: "dirs A s ''tls_root'' = None" "roots = None"
      by (simp_all add: take_single_directive_None_iff load_tls_root_def)
    with 1(5) b have "server_auth cfg = CustomFingerprint \<lparr>fingerprint = b\<rparr>"
      by (simp add: choose_server_auth_def)
    with b root show ?thesis
      by (auto simp: fingerprint_verify_def Let_def)
  next
    case (Some d')
    with 1(1) have d': "dirs A s ''tls_root'' = Some [d']"
      by (simp add: take_single_directive_Some_iff)
    from 1(2) Some load_tls_root_None_iff [OF 1(2)] obtain r where r: "roots = Some r" by auto
    with 1(5) b(2) have "server_auth cfg = CustomBoth (FingerprintAndWebPki \<lparr>fingerprint = b\<rparr> r)"
      by (auto simp: choose_server_auth_def both_new_def rmap_eq_Inr_iff)
    then have "server_check sha256 native webpki (server_auth cfg) h = Inr () \<longleftrightarrow>
        sha256 (end_entity h) = b \<and> webpki r h = Inr ()" for h
      by (auto simp: fingerprint_verify_def Let_def rbind_eq_Inr_iff)
    moreover have "load_tls_root A H (Some d') = Inr (Some r)" using 1(2) Some r by simp
    ultimately show ?thesis using b(1) d' by auto
  qed
qed

definition pin_doc :: tree where
  "pin_doc = Block [(''tls_fingerprint'', Dir [''07''] None)]"

theorem tls_fingerprint_pins_witness:
  "\<exists>fp. hex_decode demo_host ''07'' = Inr fp \<and>
     (\<forall>h. server_check id (\<lambda>_. Inr ()) (\<lambda>_ _. Inr ()) (CustomFingerprint \<lparr>fingerprint = [7]\<rparr>) h = Inr () \<longleftrightarrow>
        id (end_entity h) = fp)"
proof -
  have cfg: "fst (parse_tls_config (tree_api pin_doc) demo_host pin_doc) =
      Inr \<lparr>server_auth = CustomFingerprint \<lparr>fingerprint = [7]\<rparr>, client_auth = None\<rparr>"
    by code_simp
  have "sole_param (tree_api pin_doc) pin_doc ''tls_fingerprint'' = Some ''07''" by code_simp
  from tls_fingerprint_pins [OF tree_laws cfg this, of id "\<lambda>_. Inr ()" "\<lambda>_ _. Inr ()"] show ?thesis
    by (simp add: fst_tree_remove pin_doc_def named_def)
qed

section \<open>Intervals and paths\<close>

text \<open>
  C38. The interval of a storage is 300 seconds unless configured; a decimal number of seconds
  is taken as it is exactly up to the largest 64-bit integer, and a larger one is an error
  rather than wrapped.
\<close>
theorem interval_roundtrip:
  "(dirs A s ''interval'' = None \<longrightarrow> fst (parse_interval A s) = Inr 300) \<and>
   (sole_param A s ''interval'' = Some (show_nat n) \<longrightarrow>
     fst (parse_interval A s) =
       (if n < 2 ^ 64 then Inr (word_of_nat n)
        else Inl (Err [''Interval must be a valid integer'', ''number too large to fit in target type''])))"
proof (intro conjI impI)
  assume "dirs A s ''interval'' = None"
  then show "fst (parse_interval A s) = Inr 300"
    by (simp add: parse_interval_def fst_sbind take_single_directive_fst)
next
  assume "sole_param A s ''interval'' = Some (show_nat n)"
  then obtain d where "dirs A s ''interval'' = Some [d]" "fst (d_take_params A d) = [show_nat n]"
    by (auto simp: sole_param_def split: option.splits list.splits)
  then have "fst (take_single_directive A ''interval'' s) = Inr (Some d)"
    and "fst (take_single_param A d) = Inr (show_nat n)"
    by (simp_all add: take_single_directive_Some_iff take_single_param_ok_iff)
  then show "fst (parse_interval A s) =
       (if n < 2 ^ 64 then Inr (word_of_nat n)
        else Inl (Err [''Interval must be a valid integer'', ''number too large to fit in target type'']))"
    by (auto simp: parse_interval_def fst_sbind parse_u64_def parse_unsigned_show_nat)
qed

definition interval_doc :: tree where
  "interval_doc = Block [(''interval'', Dir [''18446744073709551616''] None)]"

theorem interval_roundtrip_witness:
  "fst (parse_interval (tree_api interval_doc) interval_doc) =
     Inl (Err [''Interval must be a valid integer'', ''number too large to fit in target type''])"
proof -
  have "show_nat 18446744073709551616 = ''18446744073709551616''"
    by (simp add: show_nat.simps digit_char_def) code_simp
  moreover have "sole_param (tree_api interval_doc) interval_doc ''interval'' = Some ''18446744073709551616''"
    by code_simp
  ultimately have "sole_param (tree_api interval_doc) interval_doc ''interval'' =
      Some (show_nat 18446744073709551616)" by metis
  then have "fst (parse_interval (tree_api interval_doc) interval_doc) =
      (if (18446744073709551616 :: nat) < 2 ^ 64 then Inr (word_of_nat 18446744073709551616)
       else Inl (Err [''Interval must be a valid integer'', ''number too large to fit in target type'']))"
    using interval_roundtrip [of "tree_api interval_doc" interval_doc 18446744073709551616] by blast
  moreover have "\<not> (18446744073709551616 :: nat) < 2 ^ 64" by simp
  ultimately show ?thesis by metis
qed

text \<open>
  Only a leading \<^verbatim>\<open>~/\<close> is expanded: every other path, a bare \<^verbatim>\<open>~\<close> included, is taken as
  it is. What follows \<^verbatim>\<open>~/\<close> is joined to the home directory, and since joining an absolute
  path replaces the base, \<^verbatim>\<open>~//x\<close> is not inside the home directory but the path \<^verbatim>\<open>/x\<close>.
\<close>
theorem expand_tilde_cases:
  assumes "\<And>a b. take 1 b = ''/'' \<Longrightarrow> path_join H a b = b"
  shows "(case strip_prefix ''~/'' p of
      None \<Rightarrow> expand_tilde H p = Inr p
    | Some rest \<Rightarrow>
        (\<forall>h. home_dir H = Some (Inr h) \<longrightarrow>
          expand_tilde H p = Inr (if take 1 rest = ''/'' then rest else path_join H h rest)) \<and>
        (home_dir H = None \<longrightarrow>
          expand_tilde H p = Inl (Panic ''must resolve home path to expand tilde'')))"
proof (cases "strip_prefix ''~/'' p")
  case None
  have "expand_tilde H p = Inr p"
  proof (cases p)
    case (Cons c cs)
    then show ?thesis
      using None by (cases cs) (auto simp: expand_tilde_def strip_prefix_def)
  qed (simp add: expand_tilde_def)
  with None show ?thesis by simp
next
  case (Some rest)
  then have "p = CHR ''~'' # CHR ''/'' # rest" by (simp add: strip_prefix_iff)
  with Some assms show ?thesis by (auto simp: expand_tilde_def)
qed

theorem expand_tilde_cases_witness:
  "expand_tilde demo_host ''~//etc'' = Inr ''/etc''"
proof -
  have "path_join demo_host a b = b" if "take 1 b = ''/''" for a b
    using that by (simp add: demo_host_def)
  from expand_tilde_cases [of demo_host "''~//etc''", OF this]
  show ?thesis by (simp add: strip_prefix_def demo_host_def)
qed

lemma take_single_directive_cong:
  "dirs A s n = dirs A t n \<Longrightarrow> fst (take_single_directive A n s) = fst (take_single_directive A n t)"
  by (rule single.looks_at)

text \<open>
  The extension of a vdir storage may be written with or without its leading dot: two
  blocks that differ only in one leading dot of \<^verbatim>\<open>fileext\<close> give the same storage.
\<close>
theorem fileext_leading_dot:
  fixes H :: "('uri, 'hv, 'cid) host"
  assumes "scfg_laws A"
    and "sole_param A s ''fileext'' = Some ext" and "sole_param A t ''fileext'' = Some (CHR ''.'' # ext)"
    and "take 1 ext \<noteq> ''.''"
    and "\<And>n. n \<noteq> ''fileext'' \<Longrightarrow> dirs A s n = dirs A t n"
  shows "fst (parse_vdir A H kind ro s) = fst (parse_vdir A H kind ro t)"
proof -
  define V where "V x p path = (if fst (sc_remove A (without A x ''path'') ''encoding'') \<noteq> None
      then bail (fmt [[CHR 0x27], ''encoding' is not implemented for vdir storages.''])
      else rbind (vdir_builder H path) (\<lambda>_. Inr (into_arc (VdirStorage path (Some ext) kind) ro :: ('uri, 'hv, 'cid) storage)))"
    for x and p path :: string
  have vdir: "fst (parse_vdir A H kind ro x) =
      rbind (fst (take_single_param_from_directive A ''path'' x)) (\<lambda>p.
      rbind (with_context ''Expanding tilde for storage'' (expand_tilde H p)) (\<lambda>path. V x p path))"
    if "sole_param A x ''fileext'' = Some e" "(case strip_prefix ''.'' e of None \<Rightarrow> e | Some r \<Rightarrow> r) = ext"
    for x e
  proof -
    from that(1) obtain d where d: "dirs A x ''fileext'' = Some [d]" "fst (d_take_params A d) = [e]"
      by (auto simp: sole_param_def split: option.splits list.splits)
    then have "fst (take_single_directive A ''fileext'' (without A (without A x ''path'') ''encoding'')) = Inr (Some d)"
      and "fst (take_single_param A d) = Inr e"
      by (simp_all add: take_single_directive_Some_iff take_single_param_ok_iff dirs_without [OF assms(1)])
    then show ?thesis
      by (auto simp: parse_vdir_def fst_sbind_rbind V_def that(2) intro!: rbind_cong)
  qed
  have "strip_prefix ''.'' ext = None" using assms(4) by (simp add: strip_prefix_def)
  then have "(case strip_prefix ''.'' ext of None \<Rightarrow> ext | Some r \<Rightarrow> r) = ext" by simp
  moreover have "(case strip_prefix ''.'' (CHR ''.'' # ext) of None \<Rightarrow> CHR ''.'' # ext | Some r \<Rightarrow> r) = ext"
    by (simp add: strip_prefix_def)
  moreover have "fst (take_single_param_from_directive A ''path'' s) =
      fst (take_single_param_from_directive A ''path'' t)"
    by (rule param.looks_at) (simp add: assms(5))
  moreover have "V s = V t"
    by (intro ext) (simp add: V_def dirs_without [OF assms(1)] assms(5))
  ultimately show ?thesis using vdir assms(2,3) by simp
qed

definition dot_doc :: "string \<Rightarrow> tree" where
  "dot_doc e = Block [(''path'', Dir [''/v''] None), (''fileext'', Dir [e] None)]"

theorem fileext_leading_dot_witness:
  "fst (parse_vdir (tree_api (dot_doc [])) demo_host Calendar False (dot_doc ''ics'')) =
   fst (parse_vdir (tree_api (dot_doc [])) demo_host Calendar False (dot_doc ''.ics''))"
  by (rule fileext_leading_dot [OF tree_laws, where ext = "''ics''"])
    (auto simp: sole_param_def fst_tree_remove dot_doc_def named_def)

end
