(* ===== verification/Config_Props.thy ===== *)
theory Config_Props
  imports Config_File Storage_Props "HOL-Library.Multiset"
begin

text \<open>
  Properties of reading a configuration file: which pairs and storages a configuration keeps,
  whose commands are run, and that the pairs do not depend on the order of concurrent tasks.
\<close>

section \<open>The loop over the pairs\<close>

definition uses_storage :: "('s, 'd) scfg_api \<Rightarrow> 's \<Rightarrow> string \<Rightarrow> bool" where
  "uses_storage A block n \<longleftrightarrow>
     (\<exists>k \<in> {''storage_a'', ''storage_b''}. \<exists>d ps. sc_get A block k = Some d \<and> d_params A d = n # ps)"

definition used_by :: "('s, 'd) scfg_api \<Rightarrow> (string \<rightharpoonup> 's) \<Rightarrow> string set" where
  "used_by A pairs = {n. \<exists>block \<in> ran pairs. uses_storage A block n}"

lemma first_param_iff:
  "first_param A k e1 e2 block = Inr n \<longleftrightarrow> (\<exists>d ps. sc_get A block k = Some d \<and> d_params A d = n # ps)"
proof (cases "sc_get A block k")
  case (Some d)
  then show ?thesis by (cases "d_params A d") (auto simp: first_param_def)
qed (simp add: first_param_def)

lemma used_by_update:
  assumes "pairs name = None"
    and "first_param A ''storage_a'' e1 e2 child = Inr a" and "first_param A ''storage_b'' e3 e4 child = Inr b"
  shows "used_by A (pairs(name \<mapsto> child)) = insert b (insert a (used_by A pairs))"
proof -
  have "uses_storage A child n \<longleftrightarrow> n = a \<or> n = b" for n
    using assms(2,3) by (auto simp: uses_storage_def first_param_iff)
  moreover have "ran (pairs(name \<mapsto> child)) = insert child (ran pairs)"
    using assms(1) by (rule ran_map_upd)
  ultimately show ?thesis by (auto simp: used_by_def)
qed

lemma pair_directive_cases:
  assumes "pair_directive A d (pairs, enabled, f) = Inr acc"
  obtains n where "fst (take_single_param A d) = Inr n" "pairs n = None" "\<not> fst (wants n f)"
      "acc = (pairs, enabled, snd (wants n f))"
  | n child a b where "fst (take_single_param A d) = Inr n" "pairs n = None" "fst (wants n f)"
      "first_param A ''storage_a'' ''pair must defined directive storage_a''
         ''storage_a must include a parameter'' child = Inr a"
      "first_param A ''storage_b'' ''pair must defined directive storage_b''
         ''storage_b must include a parameter'' child = Inr b"
      "acc = (pairs(n \<mapsto> child), insert b (insert a enabled), snd (wants n f))"
proof (cases "fst (take_single_param A d)")
  case (Inl e)
  with assms show thesis by (simp add: pair_directive_def take_single_param_pair [OF Inl])
next
  case (Inr n)
  obtain w f' where w: "wants n f = (w, f')" by fastforce
  note unfolded = pair_directive_def take_single_param_pair [OF Inr] w
  show thesis
  proof (cases "pairs n")
    case (Some c)
    with assms show thesis by (simp add: unfolded)
  next
    case None
    show thesis
    proof (cases w)
      case False
      with assms None have "acc = (pairs, enabled, f')" by (simp add: unfolded)
      with False None Inr w show thesis by (intro that(1) [of n]) simp_all
    next
      case True
      with assms None obtain child a b where
        fa: "first_param A ''storage_a'' ''pair must defined directive storage_a''
           ''storage_a must include a parameter'' child = Inr a"
        and fb: "first_param A ''storage_b'' ''pair must defined directive storage_b''
           ''storage_b must include a parameter'' child = Inr b"
        and acc: "acc = (pairs(n \<mapsto> child), insert b (insert a enabled), f')"
        by (auto simp: unfolded rbind_eq_Inr_iff)
      show thesis by (rule that(2) [OF Inr None _ fa fb]) (simp_all add: w True acc)
    qed
  qed
qed

lemma pair_directives_ok:
  assumes "pair_directives A ds (pairs, enabled, f) = Inr (pairs', enabled', f')"
    and "enabled = used_by A pairs"
  shows "\<exists>ns. map (\<lambda>d. fst (take_single_param A d)) ds = map Inr ns \<and>
    f' = snd (select_names wants ns f) \<and> enabled' = used_by A pairs' \<and>
    dom pairs' = dom pairs \<union> set (fst (select_names wants ns f)) \<and>
    (\<forall>n \<in> dom pairs. n \<notin> set ns) \<and> (\<forall>n \<in> set (fst (select_names wants ns f)). count_list ns n = 1)"
  using assms
proof (induction ds arbitrary: pairs enabled f)
  case (Cons d ds)
  from Cons.prems(1) obtain acc where acc: "pair_directive A d (pairs, enabled, f) = Inr acc"
    and rest: "pair_directives A ds acc = Inr (pairs', enabled', f')"
    by (auto simp: rbind_eq_Inr_iff)
  from acc show ?case
  proof (cases rule: pair_directive_cases)
    case (1 n)
    from Cons.IH [OF rest [unfolded 1(4)] Cons.prems(2)] obtain ns where
      "map (\<lambda>d. fst (take_single_param A d)) ds = map Inr ns"
      "f' = snd (select_names wants ns (snd (wants n f)))" "enabled' = used_by A pairs'"
      "dom pairs' = dom pairs \<union> set (fst (select_names wants ns (snd (wants n f))))"
      "\<forall>n \<in> dom pairs. n \<notin> set ns"
      "\<forall>m \<in> set (fst (select_names wants ns (snd (wants n f)))). count_list ns m = 1" by blast
    moreover have "n \<notin> set (fst (select_names wants ns (snd (wants n f))))"
      using 1(3) by (cases f rule: filter_names_cases)
        (auto dest: names.select_some [of _ _ ns, simplified] simp: names.select_some)
    ultimately show ?thesis
      using 1 by (intro exI [of _ "n # ns"]) (auto split: prod.splits)
  next
    case (2 n child a b)
    have "insert b (insert a enabled) = used_by A (pairs(n \<mapsto> child))"
      using used_by_update [where ?pairs = pairs, OF 2(2,4,5)] Cons.prems(2) by simp
    from Cons.IH [OF rest [unfolded 2(6)] this] obtain ns where
      "map (\<lambda>d. fst (take_single_param A d)) ds = map Inr ns"
      "f' = snd (select_names wants ns (snd (wants n f)))" "enabled' = used_by A pairs'"
      "dom pairs' = dom (pairs(n \<mapsto> child)) \<union> set (fst (select_names wants ns (snd (wants n f))))"
      "\<forall>n \<in> dom (pairs(n \<mapsto> child)). n \<notin> set ns"
      "\<forall>m \<in> set (fst (select_names wants ns (snd (wants n f)))). count_list ns m = 1" by blast
    moreover have "set (fst (select_names wants ns (snd (wants n f)))) \<subseteq> set ns"
      by (cases "snd (wants n f)" rule: filter_names_cases) (auto simp: names.select_all names.select_some)
    ultimately show ?thesis
      using 2 by (intro exI [of _ "n # ns"]) (auto split: prod.splits simp: count_list_0_iff)
  qed
qed (auto intro!: exI [of _ "[]"])

lemma pair_directives_start:
  assumes "pair_directives A ds (Map.empty, {}, f) = Inr (pairs', enabled', f')"
  shows "\<exists>ns. map (\<lambda>d. fst (take_single_param A d)) ds = map Inr ns \<and>
    f' = snd (select_names wants ns f) \<and> enabled' = used_by A pairs' \<and>
    dom pairs' = set (fst (select_names wants ns f)) \<and>
    (\<forall>n \<in> set (fst (select_names wants ns f)). count_list ns n = 1)"
  using pair_directives_ok [OF assms] by (simp add: used_by_def)

section \<open>The loop over the storages\<close>

lemma storage_directive_cases:
  assumes "storage_directive A run enabled d (st, log) = (Inr (), st', log')"
  obtains (skipped) n where "fst (take_single_param A d) = Inr n" "n \<notin> enabled" "st' = st" "log' = log"
  | (kept) n child child' where "fst (take_single_param A d) = Inr n" "n \<in> enabled"
      "fst (d_take_child A (snd (d_take_params A d))) = Some child"
      "resolve_storage_cmds A run (child, log) = (Inr (), child', log')" "st' = st(n \<mapsto> child')"
proof (cases "fst (take_single_param A d)")
  case (Inl e)
  with assms show thesis by (simp add: storage_directive_def take_single_param_pair [OF Inl])
next
  case (Inr n)
  note unfolded = storage_directive_def take_single_param_pair [OF Inr]
  show thesis
  proof (cases "n \<in> enabled")
    case False
    with assms Inr show thesis by (intro skipped [of n]) (auto simp: unfolded)
  next
    case True
    show thesis
    proof (cases "fst (d_take_child A (snd (d_take_params A d)))")
      case None
      with assms True show thesis by (simp add: unfolded)
    next
      case (Some child)
      obtain r child' log1 where res: "resolve_storage_cmds A run (child, log) = (r, child', log1)"
        using prod_cases3 by blast
      show thesis
      proof (cases r)
        case (Inl e)
        with assms True Some res show thesis by (simp add: unfolded scontext_def)
      next
        case (Inr u)
        with assms True Some res have "st' = st(n \<mapsto> child')" "log' = log1"
          by (simp_all add: unfolded scontext_def)
        with res Inr show thesis
          by (intro kept [OF \<open>fst (take_single_param A d) = Inr n\<close> True Some]) simp_all
      qed
    qed
  qed
qed

lemma storage_directives_ok:
  assumes "storage_directives A run enabled ds (st, log) = (Inr (), st', log')"
  shows "\<exists>ns. map (\<lambda>d. fst (take_single_param A d)) ds = map Inr ns \<and>
    dom st' = dom st \<union> (set ns \<inter> enabled)"
  using assms
proof (induction ds arbitrary: st log)
  case (Cons d ds)
  from Cons.prems obtain st1 log1 where d: "storage_directive A run enabled d (st, log) = (Inr (), st1, log1)"
    and rest: "storage_directives A run enabled ds (st1, log1) = (Inr (), st', log')"
    by (auto simp: sbind_eq_Inr_iff)
  from Cons.IH [OF rest] obtain ns where ns: "map (\<lambda>d. fst (take_single_param A d)) ds = map Inr ns"
    "dom st' = dom st1 \<union> (set ns \<inter> enabled)" by blast
  from d show ?case
  proof (cases rule: storage_directive_cases)
    case (skipped n)
    with ns show ?thesis by (intro exI [of _ "n # ns"]) auto
  next
    case (kept n child child')
    with ns show ?thesis by (intro exI [of _ "n # ns"]) auto
  qed
qed (auto intro!: exI [of _ "[]"])

lemma storage_directives_start:
  assumes "storage_directives A run enabled ds (Map.empty, log) = (Inr (), st', log')"
  shows "\<exists>ns. map (\<lambda>d. fst (take_single_param A d)) ds = map Inr ns \<and> dom st' = set ns \<inter> enabled"
  using storage_directives_ok [OF assms] by simp

section \<open>What a configuration keeps\<close>

lemma named_directives_fst [simp]: "fst (named_directives A k s) = case_option [] id (dirs A s k)"
  by (simp add: named_directives_def split: prod.splits)

lemma named_directives_snd [simp]: "snd (named_directives A k s) = without A s k"
  by (simp add: named_directives_def split: prod.splits)

lemma named_directives_eq:
  "named_directives A k s = (case_option [] id (dirs A s k), without A s k)"
  by (simp add: prod_eq_iff)

lemma list_names_iff:
  assumes "sc_parse A raw = Inr parser"
  shows "list_names A kind ctx raw = Inr ns \<longleftrightarrow>
    map (\<lambda>d. fst (take_single_param A d)) (case_option [] id (dirs A parser kind)) = map Inr ns"
proof -
  have "map (\<lambda>d. with_context ctx (fst (take_single_param A d))) ds = map Inr ns \<longleftrightarrow>
      map (\<lambda>d. fst (take_single_param A d)) ds = map Inr ns" for ds :: "'b list"
    by (induction ds arbitrary: ns) (auto simp: Cons_eq_map_conv)
  then show ?thesis by (simp add: list_names_def assms map_ok_iff)
qed

lemma parse_config_ok:
  assumes "scfg_laws A" and "parse_config A run pick raw f log = (Inr cfg, log2)"
  obtains parser enabled left log1 where "sc_parse A raw = Inr parser"
    "pair_directives A (case_option [] id (dirs A parser ''pair'')) (Map.empty, {}, f) =
       Inr (cfg_pairs cfg, enabled, left)" "next_missing pick left = None"
    "storage_directives A run enabled (case_option [] id (dirs A parser ''storage'')) (Map.empty, log1) =
       (Inr (), cfg_storages cfg, log2)"
proof -
  from assms(2) obtain parser where parser: "sc_parse A raw = Inr parser"
    by (auto simp: parse_config_def split: sum.splits)
  note unfolded = parse_config_def parser named_directives_eq
  from assms(2) obtain parser1 log1 where
    res: "resolve_cmd_inplace A run ''status_path'' (parser, log) = (Inr (), parser1, log1)"
    by (auto simp: unfolded scontext_def with_context_def split: prod.splits sum.splits)
  have res': "scontext ''resolving status path'' (resolve_cmd_inplace A run ''status_path'') (parser, log) =
      (Inr (), parser1, log1)" using res by simp
  have frame: "dirs A parser1 k = dirs A parser k" if "k \<noteq> ''status_path''" for k
    using resolve_frame [OF assms(1) res that] .
  obtain r where r: "take_single_param_from_directive A ''status_path'' parser1 = (r, without A parser1 ''status_path'')"
    using take_single_param_from_directive_snd [of A "''status_path''" parser1] by (metis prod.collapse)
  from assms(2) obtain path where "r = Inr path"
    by (cases r) (simp_all add: unfolded res' r)
  with r have path: "take_single_param_from_directive A ''status_path'' parser1 =
      (Inr path, without A parser1 ''status_path'')" by simp
  from assms(2) obtain pairs enabled left where
    p: "pair_directives A (case_option [] id (dirs A parser ''pair'')) (Map.empty, {}, f) =
       Inr (pairs, enabled, left)" and m: "next_missing pick left = None"
    by (auto simp: unfolded res' path dirs_without [OF assms(1)] frame split: sum.splits option.splits)
  from assms(2) have "storage_directives A run enabled (case_option [] id (dirs A parser ''storage'')) (Map.empty, log1) =
       (Inr (), cfg_storages cfg, log2) \<and> cfg_pairs cfg = pairs"
    by (auto simp: unfolded res' path dirs_without [OF assms(1)] frame p m split: sum.splits prod.splits)
  with parser p m show thesis by (intro that) auto
qed

lemma selected_names:
  "set (fst (select_names wants ns f)) = (case wanted f of None \<Rightarrow> set ns | Some S \<Rightarrow> set ns \<inter> S)"
  by (cases "wanted f") (auto simp: names.select_all dest: names.select_some [of _ _ ns])

definition vdir_block :: "tdir \<Rightarrow> tree" where
  "vdir_block path = Block [(''type'', Dir [''vdir/icalendar''] None), (''path'', path), (''fileext'', Dir [''ics''] None)]"

definition pair_block :: "string \<Rightarrow> string \<Rightarrow> tree" where
  "pair_block a b = Block [(''storage_a'', Dir [a] None), (''storage_b'', Dir [b] None),
     (''collections'', Dir [''all''] None)]"

definition file_doc :: tree where
  "file_doc = Block [(''status_path'', Dir [''/st''] None),
     (''pair'', Dir [''cal''] (Some (pair_block ''x'' ''y''))),
     (''pair'', Dir [''tasks''] (Some (pair_block ''x'' ''z''))),
     (''storage'', Dir [''x''] (Some (vdir_block (Dir [''/x''] None)))),
     (''storage'', Dir [''y''] (Some (vdir_block (Dir [''/y''] None)))),
     (''storage'', Dir [''z''] (Some (vdir_block (Dir [] (Some (Block [(''cmd'', Dir [''ask''] None)]))))))]"

lemma file_doc_parses:
  "\<exists>cfg. parse_config (tree_api file_doc) echo_world (\<lambda>_. []) [] (FilterNames (Some {''cal''})) [] = (Inr cfg, [])"
proof -
  have "is_ok (fst (parse_config (tree_api file_doc) echo_world (\<lambda>_. []) [] (FilterNames (Some {''cal''})) []))"
    "snd (parse_config (tree_api file_doc) echo_world (\<lambda>_. []) [] (FilterNames (Some {''cal''})) []) = []"
    by code_simp+
  then show ?thesis by (auto simp: is_ok_iff prod_eq_iff)
qed

text \<open>The pairs a configuration keeps, in terms of the names its file defines.\<close>

lemma kept_pairs:
  assumes "scfg_laws A" and "parse_config A run pick raw f log = (Inr cfg, log2)"
  shows "\<exists>ns. list_pair_names A raw = Inr ns \<and> dom (cfg_pairs cfg) = set (fst (select_names wants ns f)) \<and>
    (\<forall>S. wanted f = Some S \<longrightarrow> S \<subseteq> set ns) \<and> (\<forall>n \<in> dom (cfg_pairs cfg). count_list ns n = 1)"
proof -
  obtain parser enabled left log1 where parser: "sc_parse A raw = Inr parser"
    and p: "pair_directives A (case_option [] id (dirs A parser ''pair'')) (Map.empty, {}, f) =
       Inr (cfg_pairs cfg, enabled, left)" and m: "next_missing pick left = None"
    and s: "storage_directives A run enabled (case_option [] id (dirs A parser ''storage'')) (Map.empty, log1) =
       (Inr (), cfg_storages cfg, log2)"
    by (rule parse_config_ok [OF assms])
  from pair_directives_start [OF p] obtain ns where ns:
    "map (\<lambda>d. fst (take_single_param A d)) (case_option [] id (dirs A parser ''pair'')) = map Inr ns"
    "left = snd (select_names wants ns f)" "dom (cfg_pairs cfg) = set (fst (select_names wants ns f))"
    "\<forall>n \<in> set (fst (select_names wants ns f)). count_list ns n = 1"
    by (elim exE conjE)
  have "list_pair_names A raw = Inr ns"
    using ns(1) by (simp add: list_pair_names_def list_names_iff [OF parser])
  moreover have "S \<subseteq> set ns" if "wanted f = Some S" for S
    using names.all_found_iff [OF that, of pick ns] m ns(2) by simp
  ultimately show ?thesis using ns(3,4) by auto
qed

lemma requested_pairs:
  assumes "scfg_laws A" and "parse_config A run pick raw f log = (Inr cfg, log2)"
  shows "\<exists>ns. list_pair_names A raw = Inr ns \<and>
    dom (cfg_pairs cfg) = (case wanted f of None \<Rightarrow> set ns | Some S \<Rightarrow> S)"
  using kept_pairs [OF assms] by (fastforce simp: selected_names split: option.splits)

text \<open>
  C3. A configuration keeps exactly the pairs asked for: all that are defined when no name was
  given, and otherwise those named, every one of which is defined; and each pair it keeps is
  defined only once in the file.
\<close>
theorem parse_config_pairs:
  assumes "scfg_laws A" and "parse_config A run pick raw f log = (Inr cfg, log2)"
  shows "\<exists>ns. list_pair_names A raw = Inr ns \<and>
    dom (cfg_pairs cfg) = (case wanted f of None \<Rightarrow> set ns | Some S \<Rightarrow> S) \<and>
    dom (cfg_pairs cfg) \<subseteq> set ns \<and> (\<forall>n \<in> dom (cfg_pairs cfg). count_list ns n = 1)"
  using kept_pairs [OF assms] by (fastforce simp: selected_names split: option.splits)

theorem parse_config_pairs_witness:
  "\<exists>cfg. parse_config (tree_api file_doc) echo_world (\<lambda>_. []) [] (FilterNames (Some {''cal''})) [] = (Inr cfg, []) \<and>
     dom (cfg_pairs cfg) = {''cal''}"
proof -
  obtain cfg where cfg: "parse_config (tree_api file_doc) echo_world (\<lambda>_. []) [] (FilterNames (Some {''cal''})) [] = (Inr cfg, [])"
    using file_doc_parses by blast
  from parse_config_pairs [OF tree_laws cfg] have "dom (cfg_pairs cfg) = {''cal''}" by auto
  with cfg show ?thesis by blast
qed

text \<open>
  C27. A configuration keeps exactly the storages that are defined and that one of its pairs
  uses.
\<close>
theorem parse_config_storages:
  assumes "scfg_laws A" and "parse_config A run pick raw f log = (Inr cfg, log2)"
  shows "\<exists>ns. list_storage_names A raw = Inr ns \<and>
    dom (cfg_storages cfg) = set ns \<inter> used_by A (cfg_pairs cfg)"
proof -
  obtain parser enabled left log1 where parser: "sc_parse A raw = Inr parser"
    and p: "pair_directives A (case_option [] id (dirs A parser ''pair'')) (Map.empty, {}, f) =
       Inr (cfg_pairs cfg, enabled, left)" and m: "next_missing pick left = None"
    and s: "storage_directives A run enabled (case_option [] id (dirs A parser ''storage'')) (Map.empty, log1) =
       (Inr (), cfg_storages cfg, log2)"
    by (rule parse_config_ok [OF assms])
  from pair_directives_start [OF p] have e: "enabled = used_by A (cfg_pairs cfg)" by (elim exE conjE)
  from storage_directives_start [OF s] obtain ns where
    "map (\<lambda>d. fst (take_single_param A d)) (case_option [] id (dirs A parser ''storage'')) = map Inr ns \<and>
     dom (cfg_storages cfg) = set ns \<inter> enabled"
    by (rule exE)
  then show ?thesis
    by (intro exI [of _ ns]) (simp add: list_storage_names_def list_names_iff [OF parser] e)
qed

theorem parse_config_storages_witness:
  "\<exists>cfg. parse_config (tree_api file_doc) echo_world (\<lambda>_. []) [] (FilterNames (Some {''cal''})) [] = (Inr cfg, []) \<and>
     dom (cfg_storages cfg) \<subseteq> {''x'', ''y'', ''z''}"
proof -
  obtain cfg where cfg: "parse_config (tree_api file_doc) echo_world (\<lambda>_. []) [] (FilterNames (Some {''cal''})) [] = (Inr cfg, [])"
    using file_doc_parses by blast
  have "list_storage_names (tree_api file_doc) [] = Inr [''x'', ''y'', ''z'']" by code_simp
  with parse_config_storages [OF tree_laws cfg] have "dom (cfg_storages cfg) \<subseteq> {''x'', ''y'', ''z''}" by auto
  with cfg show ?thesis by blast
qed

text \<open>
  C28. A storage that no enabled pair uses has no effect: leaving its definition out changes
  neither the result nor the commands that are run.
\<close>
theorem unused_storages_inert:
  assumes "\<forall>d \<in> set ds. is_ok (fst (take_single_param A d))"
  shows "storage_directives A run enabled ds acc =
    storage_directives A run enabled
      (filter (\<lambda>d. case fst (take_single_param A d) of Inl _ \<Rightarrow> False | Inr n \<Rightarrow> n \<in> enabled) ds) acc"
  using assms
proof (induction ds arbitrary: acc)
  case (Cons d ds)
  from Cons.prems obtain n where n: "fst (take_single_param A d) = Inr n" by (auto simp: is_ok_iff)
  obtain st log where acc: "acc = (st, log)" by (cases acc)
  show ?case
  proof (cases "n \<in> enabled")
    case True
    have "storage_directives A run enabled (filter (\<lambda>d. case fst (take_single_param A d) of
        Inl _ \<Rightarrow> False | Inr n \<Rightarrow> n \<in> enabled) ds) = storage_directives A run enabled ds"
      using Cons by (intro ext) simp
    with True n show ?thesis by simp
  next
    case False
    then have "storage_directive A run enabled d acc = (Inr (), acc)"
      by (simp add: storage_directive_def take_single_param_pair [OF n] acc)
    then show ?thesis using Cons n False by (simp add: sbind_def)
  qed
qed simp

definition storage_entry :: "string \<Rightarrow> tdir \<Rightarrow> tdir" where
  "storage_entry n path = Dir [n] (Some (vdir_block path))"

theorem unused_storages_inert_witness:
  "snd (snd (storage_directives (tree_api file_doc) echo_world {''x''}
     [storage_entry ''z'' (Dir [] (Some (Block [(''cmd'', Dir [''ask''] None)])))] (Map.empty, []))) = []"
  by (subst unused_storages_inert) (simp_all add: storage_entry_def take_single_param_def)

section \<open>Reading only the storages\<close>

lemma wanted_storages_ok:
  assumes "wanted_storages A run ds ((tasks, f), log) = (Inr (), (tasks', f'), log')"
  shows "\<exists>ns. map (\<lambda>d. fst (take_single_param A d)) ds = map Inr ns \<and>
    map fst tasks' = map fst tasks @ fst (select_names wants ns f) \<and> f' = snd (select_names wants ns f)"
  using assms
proof (induction ds arbitrary: tasks f log)
  case (Cons d ds)
  from Cons.prems obtain tasks1 f1 log1 where
    d: "wanted_storage A run d ((tasks, f), log) = (Inr (), (tasks1, f1), log1)"
    and rest: "wanted_storages A run ds ((tasks1, f1), log1) = (Inr (), (tasks', f'), log')"
    by (auto simp: sbind_eq_Inr_iff)
  from Cons.IH [OF rest] obtain ns where ns: "map (\<lambda>d. fst (take_single_param A d)) ds = map Inr ns"
    "map fst tasks' = map fst tasks1 @ fst (select_names wants ns f1)" "f' = snd (select_names wants ns f1)"
    by blast
  show ?case
  proof (cases "fst (take_single_param A d)")
    case (Inl e)
    with d show ?thesis by (simp add: wanted_storage_def take_single_param_pair [OF Inl])
  next
    case (Inr n)
    obtain w f2 where w: "wants n f = (w, f2)" by fastforce
    have "f1 = f2 \<and> map fst tasks1 = map fst tasks @ (if w then [n] else [])"
      using d by (auto simp: wanted_storage_def take_single_param_pair [OF Inr] w ok_or_def
          split: if_splits option.splits prod.splits sum.splits)
    with ns Inr show ?thesis by (intro exI [of _ "n # ns"]) (simp add: w split: prod.split)
  qed
qed (auto intro!: exI [of _ "[]"])

lemma join_all_permuted:
  assumes "mset rs = mset rs'" and "join_all joinerr rs = Inr xs"
  shows "\<exists>xs'. join_all joinerr rs' = Inr xs' \<and> mset xs' = mset xs"
proof -
  from assms(2) have rs: "rs = map Inr xs" by (simp add: join_all_iff)
  with assms(1) have "set rs' = Inr ` set xs" by (metis set_map set_mset_mset)
  then have rs': "map Inr (map projr rs') = rs'" by (simp, intro map_idI) auto
  have "image_mset projr (mset rs) = image_mset projr (mset rs')" using assms(1) by simp
  then have "mset xs = mset (map projr rs')" using rs by (simp add: multiset.map_comp comp_def)
  with rs' show ?thesis by (intro exI [of _ "map projr rs'"]) (simp add: join_all_iff del: map_map)
qed

lemma parse_storages_ok:
  assumes "parse_storages A H run pick joinerr schedule raw f log = (Inr ss, log')"
  obtains parser tasks left where "sc_parse A raw = Inr parser"
    "wanted_storages A run (case_option [] id (dirs A parser ''storage'')) (([], f), log) =
       (Inr (), (tasks, left), log')"
    "next_missing pick left = None"
    "join_all joinerr (schedule (map (storage_task A H) tasks)) = Inr ss"
proof -
  from assms obtain parser where parser: "sc_parse A raw = Inr parser"
    by (auto simp: parse_storages_def split: sum.splits)
  obtain r tasks left log1 where r:
    "wanted_storages A run (case_option [] id (dirs A parser ''storage'')) (([], f), log) =
       (r, (tasks, left), log1)" by (metis prod.collapse)
  note unfolded = parse_storages_def parser named_directives_eq r
  have ru: "r = Inr ()" "log1 = log'" using assms by (cases r; auto simp: unfolded)+
  have m: "next_missing pick left = None" using assms by (cases "next_missing pick left") (auto simp: unfolded ru)
  have "join_all joinerr (schedule (map (storage_task A H) tasks)) = Inr ss"
    using assms by (simp add: unfolded ru m)
  with parser r ru m show thesis by (intro that) simp_all
qed

text \<open>
  C29. Reading only the storages yields, in whatever order the initialisations end, one storage
  for each definition that is wanted: every definition when no name was given, and otherwise
  the first definition of each name given, none of which may be missing.
\<close>
theorem parse_storages_selects:
  assumes "\<forall>rs. mset (schedule rs) = mset rs"
    and "parse_storages A H run pick joinerr schedule raw f log = (Inr ss, log')"
  shows "\<exists>ns. list_storage_names A raw = Inr ns \<and>
    mset (map ns_name ss) = mset (fst (select_names wants ns f)) \<and>
    (\<forall>S. wanted f = Some S \<longrightarrow> distinct (map ns_name ss) \<and> set (map ns_name ss) = S)"
proof -
  obtain parser tasks left where parser: "sc_parse A raw = Inr parser"
    and w: "wanted_storages A run (case_option [] id (dirs A parser ''storage'')) (([], f), log) =
       (Inr (), (tasks, left), log')" and m: "next_missing pick left = None"
    and j: "join_all joinerr (schedule (map (storage_task A H) tasks)) = Inr ss"
    by (rule parse_storages_ok [OF assms(2)])
  from wanted_storages_ok [OF w] obtain ns where ns:
    "map (\<lambda>d. fst (take_single_param A d)) (case_option [] id (dirs A parser ''storage'')) = map Inr ns"
    "map fst tasks = fst (select_names wants ns f)" "left = snd (select_names wants ns f)" by auto
  from join_all_permuted [OF _ j, of "map (storage_task A H) tasks"] assms(1) obtain ss' where
    ss': "map (storage_task A H) tasks = map Inr ss'" "mset ss' = mset ss" by (auto simp: join_all_iff)
  have "map ns_name ss' = map fst tasks" using ss'(1)
    by (induction tasks arbitrary: ss')
      (auto simp: storage_task_def rmap_eq_Inr_iff Cons_eq_map_conv map_eq_Cons_conv split: prod.splits)
  then have names: "mset (map ns_name ss) = mset (fst (select_names wants ns f))"
    using ns(2) ss'(2) by (metis mset_map)
  have "distinct (map ns_name ss) \<and> set (map ns_name ss) = S" if S: "wanted f = Some S" for S
  proof -
    have "set (fst (select_names wants ns f)) = S" "distinct (fst (select_names wants ns f))"
      using names.select_some [OF S, of ns] names.all_found_iff [OF S, of pick ns] m ns(3) by auto
    then show ?thesis by (metis names mset_eq_imp_distinct_iff mset_eq_setD)
  qed
  with names ns(1) show ?thesis
    by (auto simp: list_storage_names_def list_names_iff [OF parser])
qed

theorem parse_storages_selects_witness:
  "\<exists>ss. parse_storages (tree_api file_doc) demo_host echo_world (\<lambda>_. []) id rev [] (FilterNames (Some {''y'', ''x''})) [] =
      (Inr ss, []) \<and> set (map ns_name ss) = {''x'', ''y''}"
proof -
  have "is_ok (fst (parse_storages (tree_api file_doc) demo_host echo_world (\<lambda>_. []) id rev [] (FilterNames (Some {''y'', ''x''})) []))"
    "snd (parse_storages (tree_api file_doc) demo_host echo_world (\<lambda>_. []) id rev [] (FilterNames (Some {''y'', ''x''})) []) = []"
    by code_simp+
  then obtain ss where ss: "parse_storages (tree_api file_doc) demo_host echo_world (\<lambda>_. []) id rev []
      (FilterNames (Some {''y'', ''x''})) [] = (Inr ss, [])" by (auto simp: is_ok_iff prod_eq_iff)
  show ?thesis
    using parse_storages_selects [OF _ ss] ss by auto
qed

section \<open>From the configuration to the pairs\<close>

lemma spawn_pair_ok:
  assumes "spawn_pair A (name, config) = Inr t"
  shows "\<exists>a b. t = (name, a, b, without A (without A config ''storage_a'') ''storage_b'') \<and>
    fst (take_single_param_from_directive A ''storage_a'' config) = Inr a \<and>
    fst (take_single_param_from_directive A ''storage_b'' (without A config ''storage_a'')) = Inr b"
proof -
  let ?m = "sbind (take_single_param_from_directive A ''storage_a'') (\<lambda>a.
      sbind (take_single_param_from_directive A ''storage_b'') (\<lambda>b. sret (a, b)))"
  from assms obtain a b where fst_m: "fst (?m config) = Inr (a, b)"
    and t: "t = (name, a, b, snd (?m config))"
    by (auto simp: spawn_pair_def split: prod.splits sum.splits)
  moreover have "fst (take_single_param_from_directive A ''storage_a'' config) = Inr a"
    "fst (take_single_param_from_directive A ''storage_b'' (without A config ''storage_a'')) = Inr b"
    using fst_m by (auto simp: fst_sbind_ok)
  moreover have "snd (?m config) = without A (without A config ''storage_a'') ''storage_b''"
    using calculation(3,4) by (simp add: snd_sbind)
  ultimately show ?thesis by simp
qed

lemma pair_task_ok:
  assumes "scfg_laws A" and "spawn_pair A (name, config) = Inr t"
    and "pair_task A H P a_first get dir t = Inr p"
  shows "pair_name p = name \<and>
    fst (take_single_param_from_directive A ''storage_a'' config) = Inr (fst (pair_names p)) \<and>
    fst (take_single_param_from_directive A ''storage_b'' config) = Inr (snd (pair_names p)) \<and>
    (\<exists>sa sb. get (fst (pair_names p)) = Inr (sa, fst (pair_intervals p)) \<and>
      get (snd (pair_names p)) = Inr (sb, snd (pair_intervals p)) \<and> item_kind P sa = item_kind P sb)"
proof -
  from spawn_pair_ok [OF assms(2)] obtain a b where
    t: "t = (name, a, b, without A (without A config ''storage_a'') ''storage_b'')" and
    a: "fst (take_single_param_from_directive A ''storage_a'' config) = Inr a" and
    b: "fst (take_single_param_from_directive A ''storage_b'' (without A config ''storage_a'')) = Inr b"
    by blast
  have b': "fst (take_single_param_from_directive A ''storage_b'' config) = Inr b"
    using b by (simp add: take_single_param_from_directive_ok_iff dirs_without [OF assms(1)])
  from assms(3) obtain st where st: "try_join (a_first name) (get a) (get b) = Inr st" and
    p: "fst (build_named_pair A P (path_join H) dir name (a, b) st
      (without A (without A config ''storage_a'') ''storage_b'')) = Inr p"
    by (auto simp: pair_task_def t rbind_eq_Inr_iff)
  obtain sa ia sb ib where st_eq: "st = ((sa, ia), (sb, ib))" by (metis prod.collapse)
  note built = build_named_pair_basics [OF p [unfolded st_eq]]
  show ?thesis
    using a b' st built by (simp add: try_join_eq_Inr_iff st_eq)
qed

text \<open>The pairs of a start, up to their order, are those of the configuration as it is walked.\<close>

lemma pairs_as_walked:
  assumes "scfg_laws A" and "\<forall>rs. mset (schedule rs) = mset rs"
    and "into_named_pairs A H P a_first joinerr walk schedule cfg = Inr ps"
  obtains ps' where "mset ps' = mset ps" and "length ps' = length (walk (cfg_pairs cfg))"
    and "\<And>i. i < length (walk (cfg_pairs cfg)) \<Longrightarrow> pair_name (ps' ! i) = fst (walk (cfg_pairs cfg) ! i) \<and>
      fst (take_single_param_from_directive A ''storage_a'' (snd (walk (cfg_pairs cfg) ! i))) = Inr (fst (pair_names (ps' ! i))) \<and>
      fst (take_single_param_from_directive A ''storage_b'' (snd (walk (cfg_pairs cfg) ! i))) = Inr (snd (pair_names (ps' ! i))) \<and>
      (\<exists>sa sb. storage_outcome A H (cfg_storages cfg) (fst (pair_names (ps' ! i))) = Inr (sa, fst (pair_intervals (ps' ! i))) \<and>
        storage_outcome A H (cfg_storages cfg) (snd (pair_names (ps' ! i))) = Inr (sb, snd (pair_intervals (ps' ! i))) \<and>
        item_kind P sa = item_kind P sb)"
proof -
  let ?get = "storage_outcome A H (cfg_storages cfg)"
  from assms(3) obtain dir tasks where tasks: "map_ok (spawn_pair A) (walk (cfg_pairs cfg)) = Inr tasks"
    and j: "join_all joinerr (schedule (map (pair_task A H P a_first ?get dir) tasks)) = Inr ps"
    by (auto simp: into_named_pairs_def rbind_eq_Inr_iff)
  from join_all_permuted [OF _ j, of "map (pair_task A H P a_first ?get dir) tasks"] assms(2)
  obtain ps' where ps': "map (pair_task A H P a_first ?get dir) tasks = map Inr ps'" "mset ps' = mset ps"
    by (auto simp: join_all_iff)
  let ?w = "walk (cfg_pairs cfg)"
  have spawned: "map (spawn_pair A) ?w = map Inr tasks" using tasks by (simp add: map_ok_iff)
  then have len: "length tasks = length ?w" "length ps' = length ?w"
    using ps'(1) by (metis length_map)+
  have at: "pair_name (ps' ! i) = fst (?w ! i) \<and>
    fst (take_single_param_from_directive A ''storage_a'' (snd (?w ! i))) = Inr (fst (pair_names (ps' ! i))) \<and>
    fst (take_single_param_from_directive A ''storage_b'' (snd (?w ! i))) = Inr (snd (pair_names (ps' ! i))) \<and>
    (\<exists>sa sb. ?get (fst (pair_names (ps' ! i))) = Inr (sa, fst (pair_intervals (ps' ! i))) \<and>
      ?get (snd (pair_names (ps' ! i))) = Inr (sb, snd (pair_intervals (ps' ! i))) \<and> item_kind P sa = item_kind P sb)"
    if "i < length ?w" for i
  proof (rule pair_task_ok [OF assms(1)])
    show "spawn_pair A (fst (?w ! i), snd (?w ! i)) = Inr (tasks ! i)"
      using that len spawned by (metis nth_map prod.collapse)
    show "pair_task A H P a_first ?get dir (tasks ! i) = Inr (ps' ! i)"
      using that len ps'(1) by (metis nth_map)
  qed
  from that [OF ps'(2) len(2) at] show thesis .
qed

lemma started_pairs:
  assumes "scfg_laws A" and "map_of (walk (cfg_pairs cfg)) = cfg_pairs cfg"
    and "distinct (map fst (walk (cfg_pairs cfg)))" and "\<forall>rs. mset (schedule rs) = mset rs"
    and "into_named_pairs A H P a_first joinerr walk schedule cfg = Inr ps"
  shows "distinct (map pair_name ps)" and "set (map pair_name ps) = dom (cfg_pairs cfg)"
proof -
  let ?w = "walk (cfg_pairs cfg)"
  obtain ps' where ps': "mset ps' = mset ps" "length ps' = length ?w"
    and at: "\<And>i. i < length ?w \<Longrightarrow> pair_name (ps' ! i) = fst (?w ! i)"
    using pairs_as_walked [OF assms(1,4,5)] by metis
  have "map pair_name ps' = map fst ?w" using at ps'(2) by (intro nth_equalityI) auto
  then have "mset (map pair_name ps) = mset (map fst ?w)" using ps'(1) by (metis mset_map)
  moreover have "set (map fst ?w) = dom (cfg_pairs cfg)"
    by (metis assms(2) dom_map_of_conv_image_fst set_map)
  ultimately show "distinct (map pair_name ps)" "set (map pair_name ps) = dom (cfg_pairs cfg)"
    using assms(3) by (metis mset_eq_imp_distinct_iff, metis mset_eq_setD)
qed


definition demo_builder :: "((string, string, string) storage, string, built list) pair_api" where
  "demo_builder = \<lparr>pair_new = (\<lambda>a b. []), with_all_from_a = (\<lambda>p. p @ [FromAllA]),
     with_all_from_b = (\<lambda>p. p @ [FromAllB]), with_direct = (\<lambda>c p. p @ [Direct c]),
     with_mapped = (\<lambda>n a b p. p @ [MappedTo n]), set_on_empty = (\<lambda>x p. p @ [Empty x]),
     set_on_delete = (\<lambda>x p. p @ [Delete x]), with_mode = (\<lambda>m p. p @ [Mode m]),
     default_on_empty = EmptySkip, default_on_delete = DeleteSync,
     item_kind = (\<lambda>_. Calendar), collection_id_of = Inr\<rparr>"

definition demo_config :: "tree config" where
  "demo_config = \<lparr>cfg_status_path = ''/st'', cfg_pairs = [''cal'' \<mapsto> pair_block ''x'' ''y''],
     cfg_storages = [''x'' \<mapsto> vdir_block (Dir [''/x''] None), ''y'' \<mapsto> vdir_block (Dir [''/y''] None)]\<rparr>"

definition demo_walk :: "(string \<rightharpoonup> tree) \<Rightarrow> (string \<times> tree) list" where
  "demo_walk m = (case m ''cal'' of None \<Rightarrow> [] | Some b \<Rightarrow> [(''cal'', b)])"

lemma distinct_singleton:
  assumes "distinct xs" and "set xs = {x}"
  shows "xs = [x]"
proof (cases xs)
  case (Cons y ys)
  with assms have "y = x" "set ys \<subseteq> {x}" "x \<notin> set ys" by auto
  then show ?thesis using Cons by (cases ys) auto
qed (use assms in simp)

lemma demo_walk_ok:
  "map_of (demo_walk (cfg_pairs demo_config)) = cfg_pairs demo_config"
  "distinct (map fst (demo_walk (cfg_pairs demo_config)))"
  "dom (cfg_pairs demo_config) = {''cal''}"
  by (simp_all add: demo_walk_def demo_config_def)

lemma demo_config_starts:
  "\<exists>ps. into_named_pairs (tree_api file_doc) demo_host demo_builder (\<lambda>_. True) id demo_walk rev demo_config = Inr ps"
proof -
  have "is_ok (into_named_pairs (tree_api file_doc) demo_host demo_builder (\<lambda>_. True) id demo_walk rev demo_config)"
    by code_simp
  then show ?thesis by (simp add: is_ok_iff)
qed




end
