(* ===== verification/Transition.thy ===== *)
theory Transition
  imports Main
begin

text \<open>
  Step relations with an invariant: what holds at the start and is kept by every step holds in
  every reachable state, and may be used to show that other facts persist.
\<close>

locale invariant_system =
  fixes start :: "'b" and step :: "'b \<Rightarrow> 'b \<Rightarrow> bool" and inv :: "'b \<Rightarrow> bool"
  assumes inv_start: "inv start"
    and inv_step: "step b b' \<Longrightarrow> inv b \<Longrightarrow> inv b'"
begin

lemma inv_steps: "rtranclp step b b' \<Longrightarrow> inv b \<Longrightarrow> inv b'"
  by (induction rule: rtranclp_induct) (auto intro: inv_step)

lemma inv_reachable: "rtranclp step start b \<Longrightarrow> inv b"
  by (rule inv_steps [OF _ inv_start])

lemma reachable_persists:
  assumes "\<And>b b'. inv b \<Longrightarrow> step b b' \<Longrightarrow> P b \<Longrightarrow> P b'"
    and "rtranclp step start b" and "rtranclp step b b'" and "P b"
  shows "P b'"
  using assms(3,4)
proof (induction rule: rtranclp_induct)
  case (step y z)
  have "inv y" using inv_steps [OF step(1) inv_reachable [OF assms(2)]] .
  then show ?case using assms(1) step by blast
qed

end

end
