(* ===== verification/Storage_Builder.thy ===== *)
theory Storage_Builder
  imports Transition Config_File Storage_Props
begin

text \<open>
  \<^verbatim>\<open>StorageBuilder\<close> of \<^verbatim>\<open>src/src/config.rs\<close>: many concurrent calls of \<^verbatim>\<open>get_storage\<close> share
  one map of lazily initialised storages. Every section between taking and dropping a lock runs
  without an await point, so it is one step; between the steps of one call any steps of other
  calls may happen. A call may also be dropped while it awaits (\<^verbatim>\<open>try_join!\<close> drops the other
  call when one fails, and a dropped \<^verbatim>\<open>JoinSet\<close> aborts its tasks).
\<close>

section \<open>States\<close>

text \<open>
  \<^verbatim>\<open>LazyStorage\<close>. A \<^verbatim>\<open>Notify\<close> is identified by the call that created it. A value is a
  storage with its interval.
\<close>

datatype ('s, 'v) lazy_storage = Raw 's | Initialising nat | Ready 'v

text \<open>Where a call stands.\<close>

datatype ('s, 'v) progress =
    Start                       \<comment> \<open>before the lock is taken the first time\<close>
  | Running 's                  \<comment> \<open>in \<^verbatim>\<open>init_storage\<close>\<close>
  | Storing 'v                  \<comment> \<open>waiting for the lock to store the new storage\<close>
  | Notifying nat 'v            \<comment> \<open>stored, about to notify the waiting calls\<close>
  | Waiting nat                 \<comment> \<open>waiting for a notification\<close>
  | Woken                       \<comment> \<open>notified, waiting for the lock\<close>
  | Returned "failure + 'v"
  | Unreachable string          \<comment> \<open>an \<^verbatim>\<open>unreachable!\<close> was reached\<close>
  | Dropped

record ('s, 'v) builder =
  slots :: "string \<rightharpoonup> ('s, 'v) lazy_storage"
  calls :: "nat \<Rightarrow> ('s, 'v) progress"
  inits :: "(string \<times> (failure + 'v)) list"   \<comment> \<open>the initialisations that have ended\<close>

definition builder_new :: "(string \<rightharpoonup> 's) \<Rightarrow> ('s, 'v) builder" where
  "builder_new raw = \<lparr>slots = (\<lambda>n. map_option Raw (raw n)), calls = (\<lambda>_. Start), inits = []\<rparr>"

abbreviation goes :: "('s, 'v) builder \<Rightarrow> nat \<Rightarrow> ('s, 'v) progress \<Rightarrow> ('s, 'v) builder" where
  "goes b i p \<equiv> b\<lparr>calls := (calls b)(i := p)\<rparr>"

abbreviation stores :: "('s, 'v) builder \<Rightarrow> string \<Rightarrow> ('s, 'v) lazy_storage \<Rightarrow> ('s, 'v) builder" where
  "stores b n l \<equiv> b\<lparr>slots := (slots b)(n \<mapsto> l)\<rparr>"

fun wake :: "nat \<Rightarrow> ('s, 'v) progress \<Rightarrow> ('s, 'v) progress" where
  "wake k (Waiting k') = (if k' = k then Woken else Waiting k')"
| "wake k p = p"

fun awaiting :: "('s, 'v) progress \<Rightarrow> bool" where
  "awaiting Start = True"
| "awaiting (Running _) = True"
| "awaiting (Storing _) = True"
| "awaiting (Waiting _) = True"
| "awaiting Woken = True"
| "awaiting _ = False"

section \<open>Steps\<close>

text \<open>
  \<open>target i\<close> is the name call \<open>i\<close> asks for; \<open>can n s r\<close> says that initialising the storage
  \<open>n\<close> with the block \<open>s\<close> may end with \<open>r\<close>.
\<close>

inductive get_step ::
  "(nat \<rightharpoonup> string) \<Rightarrow> (string \<Rightarrow> 's \<Rightarrow> failure + 'v \<Rightarrow> bool) \<Rightarrow> ('s, 'v) builder \<Rightarrow> ('s, 'v) builder \<Rightarrow> bool"
  for target can
where
  undefined_name: "target i = Some n \<Longrightarrow> calls b i = Start \<Longrightarrow> slots b n = None \<Longrightarrow>
    get_step target can b (goes b i (Returned (bail (fmt [''Storage '', n, '' is not defined.'']))))"
| takes_raw: "target i = Some n \<Longrightarrow> calls b i = Start \<Longrightarrow> slots b n = Some (Raw s) \<Longrightarrow>
    get_step target can b (goes (stores b n (Initialising i)) i (Running s))"
| waits: "target i = Some n \<Longrightarrow> calls b i = Start \<Longrightarrow> slots b n = Some (Initialising k) \<Longrightarrow>
    get_step target can b (goes b i (Waiting k))"
| takes_ready: "target i = Some n \<Longrightarrow> calls b i = Start \<Longrightarrow> slots b n = Some (Ready v) \<Longrightarrow>
    get_step target can b (goes b i (Returned (Inr v)))"
| init_fails: "target i = Some n \<Longrightarrow> calls b i = Running s \<Longrightarrow> can n s (Inl e) \<Longrightarrow>
    get_step target can b
      (goes (b\<lparr>inits := inits b @ [(n, Inl e)]\<rparr>) i
        (Returned (with_context (fmt [''Initialising storage '', n]) (Inl e))))"
| init_succeeds: "target i = Some n \<Longrightarrow> calls b i = Running s \<Longrightarrow> can n s (Inr v) \<Longrightarrow>
    get_step target can b (goes (b\<lparr>inits := inits b @ [(n, Inr v)]\<rparr>) i (Storing v))"
| stores_ready: "target i = Some n \<Longrightarrow> calls b i = Storing v \<Longrightarrow> slots b n = Some old \<Longrightarrow>
    get_step target can b (goes (stores b n (Ready v)) i
      (case old of Initialising k \<Rightarrow> Notifying k v
       | _ \<Rightarrow> Unreachable ''Value was mutated while initialising.''))"
| notifies: "target i = Some n \<Longrightarrow> calls b i = Notifying k v \<Longrightarrow>
    get_step target can b (b\<lparr>calls := (\<lambda>j. wake k (calls b j))(i := Returned (Inr v))\<rparr>)"
| resumes: "target i = Some n \<Longrightarrow> calls b i = Woken \<Longrightarrow> slots b n = Some l \<Longrightarrow>
    get_step target can b (goes b i
      (case l of Ready v \<Rightarrow> Returned (Inr v)
       | _ \<Rightarrow> Unreachable ''Received notification for non-ready storage.''))"
| dropped: "target i = Some n \<Longrightarrow> awaiting (calls b i) \<Longrightarrow> get_step target can b (goes b i Dropped)"

inductive_cases get_stepE: "get_step target can b b'"

section \<open>The invariant\<close>

text \<open>
  What holds of the calls for the name \<open>n\<close> in each state of its slot. A call whose
  initialisation failed or was dropped leaves the slot initialising for ever.
\<close>

fun gave_up :: "('s, 'v) progress \<Rightarrow> bool" where
  "gave_up (Returned (Inl _)) = True"
| "gave_up Dropped = True"
| "gave_up _ = False"

fun inits_of :: "string \<Rightarrow> (string \<times> (failure + 'v)) list \<Rightarrow> (failure + 'v) list" where
  "inits_of n [] = []"
| "inits_of n ((m, r) # rs) = (if m = n then r # inits_of n rs else inits_of n rs)"

lemma inits_of_append [simp]: "inits_of n (xs @ ys) = inits_of n xs @ inits_of n ys"
  by (induction n xs rule: inits_of.induct) auto

text \<open>What a call may be doing while the slot of its name is in a given state.\<close>

fun fits :: "nat \<Rightarrow> ('s, 'v) lazy_storage option \<Rightarrow> (failure + 'v) list \<Rightarrow> ('s, 'v) progress \<Rightarrow> bool" where
  "fits i l rs (Running s) \<longleftrightarrow> l = Some (Initialising i) \<and> rs = []"
| "fits i l rs (Storing v) \<longleftrightarrow> l = Some (Initialising i) \<and> rs = [Inr v]"
| "fits i l rs (Notifying k v) \<longleftrightarrow> l = Some (Ready v) \<and> k = i"
| "fits i l rs (Waiting k) \<longleftrightarrow> l = Some (Initialising k) \<or> (\<exists>v. l = Some (Ready v))"
| "fits i l rs Woken \<longleftrightarrow> (\<exists>v. l = Some (Ready v))"
| "fits i l rs (Returned (Inr v)) \<longleftrightarrow> l = Some (Ready v)"
| "fits i l rs (Unreachable m) \<longleftrightarrow> False"
| "fits i l rs p \<longleftrightarrow> True"

text \<open>What the call that owns an initialising slot has done so far.\<close>

fun owner_ok :: "('s, 'v) progress \<Rightarrow> (failure + 'v) list \<Rightarrow> bool" where
  "owner_ok (Running s) rs \<longleftrightarrow> rs = []"
| "owner_ok (Storing v) rs \<longleftrightarrow> rs = [Inr v]"
| "owner_ok p rs \<longleftrightarrow> gave_up p \<and> length rs \<le> 1"

fun slot_ok :: "(nat \<rightharpoonup> string) \<Rightarrow> string \<Rightarrow> ('s, 'v) lazy_storage option \<Rightarrow> (failure + 'v) list \<Rightarrow>
    (nat \<Rightarrow> ('s, 'v) progress) \<Rightarrow> bool" where
  "slot_ok target n (Some (Initialising k)) rs c \<longleftrightarrow> target k = Some n \<and> owner_ok (c k) rs"
| "slot_ok target n (Some (Ready v)) rs c \<longleftrightarrow> rs = [Inr v]"
| "slot_ok target n l rs c \<longleftrightarrow> rs = []"

definition name_inv :: "(nat \<rightharpoonup> string) \<Rightarrow> string \<Rightarrow> ('s, 'v) lazy_storage option \<Rightarrow> (failure + 'v) list \<Rightarrow>
    (nat \<Rightarrow> ('s, 'v) progress) \<Rightarrow> bool" where
  "name_inv target n l rs c \<longleftrightarrow> slot_ok target n l rs c \<and>
     (\<forall>i. target i = Some n \<longrightarrow> fits i l rs (c i)) \<and>
     (\<forall>i k v. target i = Some n \<longrightarrow> c i = Waiting k \<longrightarrow> l = Some (Ready v) \<longrightarrow>
         target k = Some n \<and> (\<exists>v. c k = Notifying k v))"

definition builder_inv :: "(nat \<rightharpoonup> string) \<Rightarrow> ('s, 'v) builder \<Rightarrow> bool" where
  "builder_inv target b \<longleftrightarrow> (\<forall>n. name_inv target n (slots b n) (inits_of n (inits b)) (calls b))"

lemma slot_ok_cong:
  "\<forall>i. target i = Some n \<longrightarrow> c' i = c i \<Longrightarrow> slot_ok target n l rs c' = slot_ok target n l rs c"
  by (induction target n l rs c rule: slot_ok.induct) auto

lemma name_inv_cong:
  assumes "\<forall>i. target i = Some n \<longrightarrow> c' i = c i"
  shows "name_inv target n l rs c' = name_inv target n l rs c"
  unfolding name_inv_def slot_ok_cong [OF assms]
  using assms by (intro arg_cong2 [where f = "(\<and>)"] refl) metis+

lemma wake_other: "p \<noteq> Waiting k \<Longrightarrow> wake k p = p"
  by (cases p) auto

lemma name_inv_waiting:
  "name_inv target n l rs c \<Longrightarrow> target i = Some n \<Longrightarrow> c i = Waiting k \<Longrightarrow> target k = Some n"
  by (cases "(target, n, l, rs, c)" rule: slot_ok.cases) (auto simp: name_inv_def dest!: spec [of _ i])

text \<open>One lemma for each kind of step, on the name it is about.\<close>

lemma fits_raw: "fits j (Some (Raw s)) rs p \<Longrightarrow> fits j l rs' p \<and> (\<forall>k. p \<noteq> Waiting k)"
  by (induction j "Some (Raw s) :: ('a, 'b) lazy_storage option" rs p rule: fits.induct) auto

lemma inv_takes_raw:
  assumes "name_inv target n (Some (Raw s)) rs c" and "target i = Some n"
  shows "name_inv target n (Some (Initialising i)) rs (c(i := Running s))"
proof -
  have "fits j (Some (Initialising i)) rs (c j) \<and> (\<forall>k. c j \<noteq> Waiting k)" if "target j = Some n" for j
    by (rule fits_raw [of j s rs]) (use assms(1) that in \<open>auto simp: name_inv_def\<close>)
  then show ?thesis using assms by (auto simp: name_inv_def)
qed

lemma inv_quiet:
  assumes "name_inv target n l rs c" and "target i = Some n" and "c i = Start \<or> c i = Woken"
    and "fits i l rs p" and "\<And>k. p = Waiting k \<Longrightarrow> l = Some (Initialising k)"
  shows "name_inv target n l rs (c(i := p))"
proof -
  have "slot_ok target n l rs (c(i := p))"
    using assms(1,3) by (cases "(target, n, l, rs, c)" rule: slot_ok.cases) (auto simp: name_inv_def)
  then show ?thesis using assms unfolding name_inv_def by auto
qed

lemma fits_initialising:
  "fits j (Some (Initialising i)) rs p \<Longrightarrow> j \<noteq> i \<Longrightarrow>
     fits j (Some (Initialising i)) rs' p \<and> fits j (Some (Ready v)) rs' p \<and> (\<forall>k. p = Waiting k \<longrightarrow> k = i)"
  by (induction j "Some (Initialising i) :: ('a, 'b) lazy_storage option" rs p rule: fits.induct) auto

lemma inv_running:
  assumes "name_inv target n l rs c" and "target i = Some n" and "c i = Running s"
  shows "name_inv target n l (rs @ [Inl e]) (c(i := Returned (Inl e')))"
    and "name_inv target n l (rs @ [Inr v]) (c(i := Storing v))"
proof -
  have l: "l = Some (Initialising i)" "rs = []" using assms by (auto simp: name_inv_def dest!: spec [of _ i])
  have "fits j l rs' (c j) \<and> (\<forall>k. c j = Waiting k \<longrightarrow> k = i)" if "target j = Some n" "j \<noteq> i" for j rs'
    using fits_initialising [of j i rs "c j" rs'] assms(1) that by (simp add: name_inv_def l)
  then show "name_inv target n l (rs @ [Inl e]) (c(i := Returned (Inl e')))"
    "name_inv target n l (rs @ [Inr v]) (c(i := Storing v))"
    using assms(2) by (auto simp: name_inv_def l)
qed

lemma inv_stores:
  assumes "name_inv target n l rs c" and "target i = Some n" and "c i = Storing v"
  shows "l = Some (Initialising i)" and "name_inv target n (Some (Ready v)) rs (c(i := Notifying i v))"
proof -
  have l: "l = Some (Initialising i)" "rs = [Inr v]" using assms by (auto simp: name_inv_def dest!: spec [of _ i])
  then show "l = Some (Initialising i)" by simp
  have "fits j (Some (Ready v)) rs (c j) \<and> (\<forall>k. c j = Waiting k \<longrightarrow> k = i)" if "target j = Some n" "j \<noteq> i" for j
    using fits_initialising [of j i rs "c j" rs v] assms(1) that by (simp add: name_inv_def l)
  then show "name_inv target n (Some (Ready v)) rs (c(i := Notifying i v))"
    using assms(2) by (auto simp: name_inv_def l)
qed

lemma fits_wake: "fits j (Some (Ready v)) rs p \<Longrightarrow> fits j (Some (Ready v)) rs (wake k p)"
  by (cases p) auto

lemma wake_Waiting_iff: "wake k p = Waiting k' \<longleftrightarrow> p = Waiting k' \<and> k' \<noteq> k"
  by (cases p) auto

lemma inv_notifies:
  assumes "name_inv target n l rs c" and "target i = Some n" and "c i = Notifying k v"
  shows "k = i" and "name_inv target n l rs ((\<lambda>j. wake i (c j))(i := Returned (Inr v)))"
proof -
  have l: "l = Some (Ready v)" "k = i" using assms by (auto simp: name_inv_def dest!: spec [of _ i])
  then show "k = i" by simp
  have fits: "fits j l rs (c j)" if "target j = Some n" for j using assms(1) that by (simp add: name_inv_def)
  have "target k' = Some n \<and> (\<exists>v. wake i (c k') = Notifying k' v)"
    if "target j = Some n" "c j = Waiting k'" "k' \<noteq> i" for j k'
  proof -
    have "target k' = Some n" "\<exists>v. c k' = Notifying k' v" using assms(1) that l by (auto simp: name_inv_def)
    then show ?thesis by auto
  qed
  moreover have "fits j l rs (wake i (c j))" if "target j = Some n" for j
    using fits [OF that] by (simp add: l fits_wake)
  moreover have "slot_ok target n l rs c'" for c' using assms(1) by (simp add: name_inv_def l)
  ultimately show "name_inv target n l rs ((\<lambda>j. wake i (c j))(i := Returned (Inr v)))"
    unfolding name_inv_def by (simp add: wake_Waiting_iff l)
qed

lemma inv_dropped:
  assumes "name_inv target n l rs c" and "target i = Some n" and "awaiting (c i)"
  shows "name_inv target n l rs (c(i := Dropped))"
proof -
  have "slot_ok target n l rs (c(i := Dropped))"
    using assms by (cases "(target, n, l, rs, c)" rule: slot_ok.cases; cases "c i") (auto simp: name_inv_def)
  moreover have "c i \<noteq> Notifying k v" for k v using assms(3) by auto
  ultimately show ?thesis using assms(1) by (auto simp: name_inv_def)
qed

lemma builder_inv_update:
  assumes "builder_inv target b" and "target i = Some n"
    and "name_inv target n (slots b' n) (inits_of n (inits b')) (calls b')"
    and "\<And>m. m \<noteq> n \<Longrightarrow> slots b' m = slots b m \<and> inits_of m (inits b') = inits_of m (inits b)"
    and "\<And>j m. m \<noteq> n \<Longrightarrow> target j = Some m \<Longrightarrow> calls b' j = calls b j"
  shows "builder_inv target b'"
  unfolding builder_inv_def
proof (rule allI)
  fix m
  show "name_inv target m (slots b' m) (inits_of m (inits b')) (calls b')"
  proof (cases "m = n")
    case False
    have "\<forall>j. target j = Some m \<longrightarrow> calls b' j = calls b j" using assms(5) [OF False] by blast
    from name_inv_cong [OF this] show ?thesis
      using assms(1) assms(4) [OF False] by (simp add: builder_inv_def)
  qed (use assms(3) in simp)
qed

lemma builder_inv_step:
  assumes "get_step target can b b'" and "builder_inv target b"
  shows "builder_inv target b'"
proof -
  have inv: "name_inv target m (slots b m) (inits_of m (inits b)) (calls b)" for m
    using assms(2) by (simp add: builder_inv_def)
  note upd = builder_inv_update [OF assms(2)]
  from assms(1) show ?thesis
  proof (cases rule: get_step.cases)
    case (undefined_name i n)
    have "name_inv target n (slots b n) (inits_of n (inits b)) ((calls b)(i := Returned (Inl e)))" for e
      by (rule inv_quiet [OF inv]) (simp_all add: undefined_name)
    with undefined_name show ?thesis by (intro upd [of i n]) (auto simp: bail_def)
  next
    case (takes_raw i n s)
    then show ?thesis
      using inv_takes_raw [of target n s "inits_of n (inits b)" "calls b" i] inv [of n]
      by (intro upd [of i n]) auto
  next
    case (waits i n k)
    have "name_inv target n (slots b n) (inits_of n (inits b)) ((calls b)(i := Waiting k))"
      by (rule inv_quiet [OF inv]) (simp_all add: waits)
    with waits show ?thesis by (intro upd [of i n]) auto
  next
    case (takes_ready i n v)
    have "name_inv target n (slots b n) (inits_of n (inits b)) ((calls b)(i := Returned (Inr v)))"
      by (rule inv_quiet [OF inv]) (simp_all add: takes_ready)
    with takes_ready show ?thesis by (intro upd [of i n]) auto
  next
    case (init_fails i n s e)
    then show ?thesis
      using inv_running(1) [OF inv [of n], of i] by (intro upd [of i n]) auto
  next
    case (init_succeeds i n s v)
    then show ?thesis
      using inv_running(2) [OF inv [of n], of i] by (intro upd [of i n]) auto
  next
    case (stores_ready i n v old)
    then show ?thesis
      using inv_stores [OF inv [of n] stores_ready(2,3)] by (intro upd [of i n]) auto
  next
    case (notifies i n k v)
    have k: "k = i" using inv_notifies(1) [OF inv [of n] notifies(2,3)] .
    have "calls b j \<noteq> Waiting i" if "target j = Some m" "m \<noteq> n" for j m
      using name_inv_waiting [OF inv [of m] that(1)] that(2) notifies(2) by auto
    then show ?thesis
      using inv_notifies(2) [OF inv [of n] notifies(2,3)] notifies
      by (intro upd [of i n]) (auto simp: k wake_other)
  next
    case (resumes i n l)
    obtain v where v: "l = Ready v" using inv [of n] resumes by (auto simp: name_inv_def dest!: spec [of _ i])
    have "name_inv target n (slots b n) (inits_of n (inits b)) ((calls b)(i := Returned (Inr v)))"
      by (rule inv_quiet [OF inv]) (simp_all add: resumes v)
    with resumes v show ?thesis by (intro upd [of i n]) auto
  next
    case (dropped i n)
    then show ?thesis
      using inv_dropped [OF inv [of n], of i] by (intro upd [of i n]) auto
  qed
qed

lemma builder_inv_new: "builder_inv target (builder_new raw)"
proof -
  have "slot_ok target n (map_option Raw (raw n)) [] c" for n and c :: "nat \<Rightarrow> ('a, 'b) progress"
    by (cases "raw n") auto
  then show ?thesis by (simp add: builder_inv_def builder_new_def name_inv_def)
qed

interpretation builder: invariant_system "builder_new raw" "get_step target can" "builder_inv target"
  for raw target can
  by unfold_locales (auto intro: builder_inv_new builder_inv_step)

section \<open>What calls return\<close>

text \<open>
  \<open>good_end n r\<close>: the result \<open>r\<close> is one that a call for \<open>n\<close> may have, given the blocks the
  builder was made from.
\<close>

definition good_end ::
  "(string \<rightharpoonup> 's) \<Rightarrow> (string \<Rightarrow> 's \<Rightarrow> failure + 'v \<Rightarrow> bool) \<Rightarrow> string \<Rightarrow> failure + 'v \<Rightarrow> bool"
where
  "good_end raw can n r \<longleftrightarrow>
     (case raw n of
        None \<Rightarrow> r = bail (fmt [''Storage '', n, '' is not defined.''])
      | Some s \<Rightarrow> \<exists>r0. can n s r0 \<and> r = with_context (fmt [''Initialising storage '', n]) r0)"

fun good_call ::
  "(string \<rightharpoonup> 's) \<Rightarrow> (string \<Rightarrow> 's \<Rightarrow> failure + 'v \<Rightarrow> bool) \<Rightarrow> string \<Rightarrow> ('s, 'v) progress \<Rightarrow> bool"
where
  "good_call raw can n (Running s) \<longleftrightarrow> raw n = Some s"
| "good_call raw can n (Storing v) \<longleftrightarrow> good_end raw can n (Inr v)"
| "good_call raw can n (Notifying k v) \<longleftrightarrow> good_end raw can n (Inr v)"
| "good_call raw can n (Returned r) \<longleftrightarrow> good_end raw can n r"
| "good_call raw can n p \<longleftrightarrow> True"

fun good_slot ::
  "(string \<rightharpoonup> 's) \<Rightarrow> (string \<Rightarrow> 's \<Rightarrow> failure + 'v \<Rightarrow> bool) \<Rightarrow> string \<Rightarrow> ('s, 'v) lazy_storage option \<Rightarrow> bool"
where
  "good_slot raw can n None \<longleftrightarrow> raw n = None"
| "good_slot raw can n (Some (Raw s)) \<longleftrightarrow> raw n = Some s"
| "good_slot raw can n (Some (Initialising k)) \<longleftrightarrow> True"
| "good_slot raw can n (Some (Ready v)) \<longleftrightarrow> good_end raw can n (Inr v)"

definition outcome_inv ::
  "(nat \<rightharpoonup> string) \<Rightarrow> (string \<rightharpoonup> 's) \<Rightarrow> (string \<Rightarrow> 's \<Rightarrow> failure + 'v \<Rightarrow> bool) \<Rightarrow> ('s, 'v) builder \<Rightarrow> bool"
where
  "outcome_inv target raw can b \<longleftrightarrow>
     (\<forall>n. good_slot raw can n (slots b n)) \<and>
     (\<forall>i n. target i = Some n \<longrightarrow> good_call raw can n (calls b i))"

lemma good_call_wake [simp]: "good_call raw can n (wake k p) = good_call raw can n p"
  by (cases p) auto

lemma outcome_inv_goes:
  "outcome_inv target raw can b \<Longrightarrow> target i = Some n \<Longrightarrow> good_call raw can n p \<Longrightarrow>
     outcome_inv target raw can (goes b i p)"
  by (simp add: outcome_inv_def)

lemma outcome_inv_stores:
  "outcome_inv target raw can b \<Longrightarrow> good_slot raw can n (Some l) \<Longrightarrow>
     outcome_inv target raw can (stores b n l)"
  by (simp add: outcome_inv_def)

lemma outcome_inv_step:
  assumes "get_step target can b b'" and "outcome_inv target raw can b"
  shows "outcome_inv target raw can b'"
proof -
  have slot: "good_slot raw can n (slots b n)" and call: "target i = Some n \<Longrightarrow> good_call raw can n (calls b i)"
    for i n using assms(2) by (simp_all add: outcome_inv_def)
  note goes = outcome_inv_goes [OF assms(2)] and stores = outcome_inv_stores [OF assms(2)]
  from assms(1) show ?thesis
  proof (cases rule: get_step.cases)
    case (undefined_name i n)
    then have "good_end raw can n (bail (fmt [''Storage '', n, '' is not defined.'']))"
      using slot [of n] by (simp add: good_end_def)
    with undefined_name goes show ?thesis by simp
  next
    case (takes_raw i n s)
    have "outcome_inv target raw can (stores b n (Initialising i))" by (rule stores) simp
    from outcome_inv_goes [OF this takes_raw(2), of "Running s"] show ?thesis
      using takes_raw slot [of n] by simp
  next
    case (waits i n k)
    with goes show ?thesis by simp
  next
    case (takes_ready i n v)
    with goes slot [of n] show ?thesis by simp
  next
    case (init_fails i n s e)
    then have "good_end raw can n (with_context (fmt [''Initialising storage '', n]) (Inl e))"
      using call [of i n] unfolding good_end_def by auto
    with init_fails assms(2) show ?thesis by (simp add: outcome_inv_def)
  next
    case (init_succeeds i n s v)
    then have "good_end raw can n (Inr v)"
      using call [of i n] unfolding good_end_def by force
    with init_succeeds assms(2) show ?thesis by (simp add: outcome_inv_def)
  next
    case (stores_ready i n v old)
    then have v: "good_end raw can n (Inr v)" using call [of i n] by simp
    then have "outcome_inv target raw can (stores b n (Ready v))" by (intro stores) simp
    from outcome_inv_goes [OF this stores_ready(2)] show ?thesis
      using stores_ready v by (simp split: lazy_storage.split)
  next
    case (notifies i n k v)
    with call [of i n] assms(2) show ?thesis by (simp add: outcome_inv_def)
  next
    case (resumes i n l)
    with goes slot [of n] show ?thesis by (cases l) simp_all
  next
    case (dropped i n)
    with goes show ?thesis by simp
  qed
qed

lemma outcome_inv_new: "outcome_inv target raw can (builder_new raw)"
proof -
  have "good_slot raw can n (map_option Raw (raw n))" for n by (cases "raw n") simp_all
  then show ?thesis by (simp add: outcome_inv_def builder_new_def)
qed

interpretation outcome: invariant_system "builder_new raw" "get_step target can" "outcome_inv target raw can"
  for raw target can
  by unfold_locales (auto intro: outcome_inv_new outcome_inv_step)

lemma gave_up_wake [simp]: "gave_up (wake k p) = gave_up p"
  by (cases p) auto

section \<open>Every run ends\<close>

text \<open>Each step brings one call closer to its end and no other call further from it.\<close>

fun steps_left :: "('s, 'v) progress \<Rightarrow> nat" where
  "steps_left Start = 4"
| "steps_left (Running _) = 3"
| "steps_left (Storing _) = 2"
| "steps_left (Notifying _ _) = 1"
| "steps_left (Waiting _) = 2"
| "steps_left Woken = 1"
| "steps_left _ = 0"

lemma steps_left_wake: "steps_left (wake k p) \<le> steps_left p"
  by (cases p) auto

lemma get_step_decreases:
  assumes "get_step target can b b'"
  obtains i where "i \<in> dom target" "steps_left (calls b' i) < steps_left (calls b i)"
    "\<And>j. steps_left (calls b' j) \<le> steps_left (calls b j)"
proof -
  from assms have "\<exists>i. i \<in> dom target \<and> steps_left (calls b' i) < steps_left (calls b i) \<and>
      (\<forall>j. steps_left (calls b' j) \<le> steps_left (calls b j))"
  proof (cases rule: get_step.cases)
    case (stores_ready i n v old)
    then show ?thesis by (intro exI [of _ i]) (auto split: lazy_storage.split)
  next
    case (notifies i n k v)
    then show ?thesis by (intro exI [of _ i]) (auto simp: steps_left_wake)
  next
    case (resumes i n l)
    then show ?thesis by (intro exI [of _ i]) (auto split: lazy_storage.split)
  next
    case (dropped i n)
    then show ?thesis by (intro exI [of _ i]) (cases "calls b i"; auto)
  qed (auto intro!: exI)
  then show thesis using that by blast
qed

text \<open>
  With finitely many calls every sequence of steps is finite, whatever the interleaving.
\<close>

lemma get_storage_terminates:
  assumes "finite (dom target)"
  shows "wfp (\<lambda>b' b. get_step target can b b')"
proof (rule wfp_if_convertible_to_nat)
  fix b' b
  assume "get_step target can b b'"
  then obtain i where i: "i \<in> dom target" "steps_left (calls b' i) < steps_left (calls b i)"
    "\<And>j. steps_left (calls b' j) \<le> steps_left (calls b j)" using get_step_decreases by blast
  show "(\<Sum>j \<in> dom target. steps_left (calls b' j)) < (\<Sum>j \<in> dom target. steps_left (calls b j))"
    by (rule sum_strict_mono_ex1) (use assms i in auto)
qed

lemma all_returned_no_step:
  assumes "\<forall>i \<in> dom target. \<exists>r. calls b i = Returned r"
  shows "\<not> get_step target can b b'"
proof
  assume "get_step target can b b'"
  then obtain i where i: "i \<in> dom target" "steps_left (calls b' i) < steps_left (calls b i)"
    by (rule get_step_decreases)
  from assms i(1) obtain r where "calls b i = Returned r" by blast
  with i(2) show False by simp
qed

section \<open>Properties\<close>

lemma builder_reach_name:
  assumes "rtranclp (get_step target can) (builder_new raw) b"
  shows "name_inv target n (slots b n) (inits_of n (inits b)) (calls b)"
proof -
  have "builder_inv target b" by (rule builder.inv_reachable [OF assms])
  then show ?thesis by (simp add: builder_inv_def)
qed

lemma builder_reach_fits:
  assumes "rtranclp (get_step target can) (builder_new raw) b" and "target i = Some n"
  shows "fits i (slots b n) (inits_of n (inits b)) (calls b i)"
  using builder_reach_name [OF assms(1), of n] assms(2) by (simp add: name_inv_def)

text \<open>Two calls for the same storage, for the witnesses: the second waits for the first.\<close>

definition two :: "string \<Rightarrow> nat \<rightharpoonup> string" where
  "two n = [0 \<mapsto> n, Suc 0 \<mapsto> n]"

lemma two_Some_iff [simp]: "two n i = Some m \<longleftrightarrow> m = n \<and> (i = 0 \<or> i = Suc 0)"
  by (auto simp: two_def)

lemma dom_two [simp]: "dom (two n) = {0, Suc 0}"
  by (auto simp: two_def)

lemma second_waits:
  assumes "raw n = Some s"
  shows "\<exists>b. rtranclp (get_step (two n) can) (builder_new raw) b \<and> slots b n = Some (Initialising 0) \<and>
    calls b 0 = Running s \<and> calls b (Suc 0) = Waiting 0"
proof -
  let ?b1 = "goes (stores (builder_new raw) n (Initialising 0)) 0 (Running s)"
  have "get_step (two n) can (builder_new raw) ?b1"
    by (rule takes_raw) (simp_all add: builder_new_def assms)
  moreover have "get_step (two n) can ?b1 (goes ?b1 (Suc 0) (Waiting 0))"
    by (rule waits) (simp_all add: builder_new_def)
  ultimately have "rtranclp (get_step (two n) can) (builder_new raw) (goes ?b1 (Suc 0) (Waiting 0))" by simp
  then show ?thesis by (intro exI [of _ "goes ?b1 (Suc 0) (Waiting 0)"]) simp
qed

lemma both_return:
  assumes "raw n = Some s" and "can n s (Inr v)"
  shows "\<exists>b. rtranclp (get_step (two n) can) (builder_new raw) b \<and>
    calls b 0 = Returned (Inr v) \<and> calls b (Suc 0) = Returned (Inr v)"
proof -
  obtain b where b: "rtranclp (get_step (two n) can) (builder_new raw) b" "slots b n = Some (Initialising 0)"
    "calls b 0 = Running s" "calls b (Suc 0) = Waiting 0" using second_waits [where raw = raw and n = n and can = can, OF assms(1)] by blast
  let ?b1 = "goes (b\<lparr>inits := inits b @ [(n, Inr v)]\<rparr>) 0 (Storing v)"
  let ?b2 = "goes (stores ?b1 n (Ready v)) 0 (Notifying 0 v)"
  let ?b3 = "?b2\<lparr>calls := (\<lambda>j. wake 0 (calls ?b2 j))(0 := Returned (Inr v))\<rparr>"
  have "get_step (two n) can b ?b1" by (rule init_succeeds [where s = s]) (simp_all add: b assms(2))
  moreover have "get_step (two n) can ?b1 ?b2"
    using stores_ready [of "two n" 0 n ?b1 v "Initialising 0" can] by (simp add: b)
  moreover have "get_step (two n) can ?b2 ?b3" by (rule notifies) simp_all
  moreover have "get_step (two n) can ?b3 (goes ?b3 (Suc 0) (Returned (Inr v)))"
    using resumes [of "two n" "Suc 0" n ?b3 "Ready v" can] by (simp add: b)
  ultimately have "rtranclp (get_step (two n) can) (builder_new raw) (goes ?b3 (Suc 0) (Returned (Inr v)))"
    using b(1) by (meson rtranclp.rtrancl_into_rtrancl)
  then show ?thesis by (intro exI [of _ "goes ?b3 (Suc 0) (Returned (Inr v))"]) simp
qed

text \<open>
  C5. However the calls interleave, a storage is initialised at most once, and all calls for it
  that succeed return the value of that one initialisation.
\<close>
theorem initialised_once:
  assumes "rtranclp (get_step target can) (builder_new raw) b"
  shows "length (inits_of n (inits b)) \<le> 1 \<and>
    (\<forall>i v. target i = Some n \<longrightarrow> calls b i = Returned (Inr v) \<longrightarrow> inits_of n (inits b) = [Inr v])"
proof -
  have inv: "slot_ok target n (slots b n) (inits_of n (inits b)) (calls b)"
    using builder_reach_name [OF assms, of n] by (simp add: name_inv_def)
  have owner: "owner_ok p rs \<Longrightarrow> length rs \<le> 1" for p :: "('a, 'b) progress" and rs
    by (cases p) auto
  have "length (inits_of n (inits b)) \<le> 1"
    using inv owner by (cases "(target, n, slots b n, inits_of n (inits b), calls b)" rule: slot_ok.cases) auto
  moreover have "inits_of n (inits b) = [Inr v]" if "target i = Some n" "calls b i = Returned (Inr v)" for i v
    using builder_reach_fits [OF assms that(1)] that(2) inv by simp
  ultimately show ?thesis by blast
qed

theorem initialised_once_witness:
  "\<exists>b. rtranclp (get_step (two ''x'') (\<lambda>_ _ r. r = Inr (7 :: nat))) (builder_new [''x'' \<mapsto> ()]) b \<and>
     calls b (Suc 0) = Returned (Inr 7) \<and> inits_of ''x'' (inits b) = [Inr 7]"
proof -
  obtain b where b: "rtranclp (get_step (two ''x'') (\<lambda>_ _ r. r = Inr (7 :: nat))) (builder_new [''x'' \<mapsto> ()]) b"
    "calls b (Suc 0) = Returned (Inr 7)"
    using both_return [of "[''x'' \<mapsto> ()]" "''x''" "()" "\<lambda>_ _ r. r = Inr (7 :: nat)" 7] by auto
  then show ?thesis using initialised_once [OF b(1), of "''x''"] by auto
qed



text \<open>
  C4. The concurrent builder implements \<open>storage_outcome\<close>: every call that returns, returns
  what initialising its storage on its own would.
\<close>
theorem get_storage_outcome:
  assumes "rtranclp (get_step target (\<lambda>n s r. r = init_storage A H s)) (builder_new raw) b"
    and "target i = Some n" and "calls b i = Returned r"
  shows "r = storage_outcome A H raw n"
proof -
  have "outcome_inv target raw (\<lambda>n s r. r = init_storage A H s) b"
    by (rule outcome.inv_reachable [OF assms(1)])
  then have "good_call raw (\<lambda>n s r. r = init_storage A H s) n (calls b i)"
    using assms(2) by (simp add: outcome_inv_def)
  then show ?thesis
    by (simp add: assms(3) good_end_def storage_outcome_def split: option.splits)
qed

theorem get_storage_outcome_witness:
  "storage_outcome (tree_api (Block [])) demo_host [''x'' \<mapsto> Block []] ''x'' =
     with_context ''Initialising storage x'' (init_storage (tree_api (Block [])) demo_host (Block []))"
proof -
  let ?can = "\<lambda>n s r. r = init_storage (tree_api (Block [])) demo_host s"
  let ?raw = "[''x'' \<mapsto> Block []]"
  obtain b where b: "rtranclp (get_step (two ''x'') ?can) (builder_new ?raw) b" "calls b 0 = Running (Block [])"
    using second_waits [of ?raw "''x''" "Block []" ?can] by auto
  obtain e where e: "init_storage (tree_api (Block [])) demo_host (Block []) = Inl e"
  proof -
    have "\<not> is_ok (init_storage (tree_api (Block [])) demo_host (Block []))" by code_simp
    then show thesis using that by (cases "init_storage (tree_api (Block [])) demo_host (Block [])") auto
  qed
  let ?r = "with_context (fmt [''Initialising storage '', ''x'']) (Inl e)"
  let ?b' = "goes (b\<lparr>inits := inits b @ [(''x'', Inl e)]\<rparr>) 0 (Returned ?r)"
  have "get_step (two ''x'') ?can b ?b'"
    by (rule init_fails [where s = "Block []"]) (simp_all add: b e)
  with b(1) have "rtranclp (get_step (two ''x'') ?can) (builder_new ?raw) ?b'" by simp
  from get_storage_outcome [OF this, of 0 "''x''" ?r] show ?thesis
    by (simp add: e fmt_def)
qed

text \<open>
  C7. A call that waits for another one whose initialisation failed, or that was dropped, is
  never woken: in every later state it still waits, unless it has been dropped itself.
\<close>
theorem waiting_for_failed_is_stuck:
  assumes "rtranclp (get_step target can) (builder_new raw) b"
    and "rtranclp (get_step target can) b b'"
    and "calls b i = Waiting k" and "gave_up (calls b k)"
  shows "calls b' i = Waiting k \<or> calls b' i = Dropped"
proof -
  let ?P = "\<lambda>b. (calls b i = Waiting k \<or> calls b i = Dropped) \<and> gave_up (calls b k)"
  have step: "?P z" if inv: "builder_inv target y" and step: "get_step target can y z" and P: "?P y"
    for y z :: "('a, 'b) builder"
  proof -
    have own: "k' = j" if "target j = Some n" "calls y j = Notifying k' v" for j n k' v
    proof -
      have "name_inv target n (slots y n) (inits_of n (inits y)) (calls y)"
        using inv by (simp add: builder_inv_def)
      then show ?thesis by (rule inv_notifies(1)) (rule that)+
    qed
    have "gave_up (calls z k)"
      using step P by (cases rule: get_step.cases) auto
    moreover have "calls z i = Waiting k \<or> calls z i = Dropped"
      using step P by (cases rule: get_step.cases) (auto split: if_splits dest: own)
    ultimately show ?thesis by blast
  qed
  have "?P b'"
    by (rule builder.reachable_persists [OF step assms(1,2)]) (use assms(3,4) in simp_all)
  then show ?thesis by blast
qed

theorem waiting_for_failed_is_stuck_witness:
  "\<exists>b. rtranclp (get_step (two ''x'') (\<lambda>_ _ r. r = Inl (Err []) \<or> r = Inr ())) (builder_new [''x'' \<mapsto> ()]) b \<and>
     (\<forall>b'. rtranclp (get_step (two ''x'') (\<lambda>_ _ r. r = Inl (Err []) \<or> r = Inr ())) b b' \<longrightarrow>
        calls b' (Suc 0) = Waiting 0 \<or> calls b' (Suc 0) = Dropped)"
proof -
  let ?can = "\<lambda>(_ :: string) (_ :: unit) r. r = Inl (Err []) \<or> r = Inr ()"
  obtain b where b: "rtranclp (get_step (two ''x'') ?can) (builder_new [''x'' \<mapsto> ()]) b"
    "calls b 0 = Running ()" "calls b (Suc 0) = Waiting 0"
    using second_waits [of "[''x'' \<mapsto> ()]" "''x''" "()" ?can] by auto
  have "get_step (two ''x'') ?can b (goes b 0 Dropped)" by (rule dropped) (simp_all add: b)
  with b(1) have reach: "rtranclp (get_step (two ''x'') ?can) (builder_new [''x'' \<mapsto> ()]) (goes b 0 Dropped)" by simp
  have "calls b' (Suc 0) = Waiting 0 \<or> calls b' (Suc 0) = Dropped"
    if "rtranclp (get_step (two ''x'') ?can) (goes b 0 Dropped) b'" for b'
    by (rule waiting_for_failed_is_stuck [OF reach that]) (simp_all add: b)
  with reach show ?thesis by (intro exI conjI) auto
qed

text \<open>
  C6. There is no deadlock: when the only thing that can still happen is that calls are
  dropped, every call has returned or has been dropped, except those that wait for a call that
  failed or was dropped.
\<close>
theorem get_storage_no_deadlock:
  assumes "rtranclp (get_step target can) (builder_new raw) b"
    and "\<forall>n s. \<exists>r. can n s r"
    and "\<forall>b'. get_step target can b b' \<longrightarrow> (\<exists>j. calls b' = (calls b)(j := Dropped))"
    and "target i = Some n"
  shows "(\<exists>r. calls b i = Returned r) \<or> calls b i = Dropped \<or>
    (\<exists>k. calls b i = Waiting k \<and> gave_up (calls b k))"
proof -
  have stuck: False if "get_step target can b b'" "calls b' j \<noteq> calls b j" "calls b' j \<noteq> Dropped" for b' j
    using assms(3) that by (metis fun_upd_apply)
  have moves: "(\<exists>r. calls b j = Returned r) \<or> calls b j = Dropped \<or> (\<exists>k. calls b j = Waiting k)"
    if t: "target j = Some m" for j m
  proof -
    note go = get_step.intros [where target = target and b = b and i = j and can = can]
    show ?thesis
    proof (cases "calls b j")
      case Start
      show ?thesis
      proof (cases "slots b m")
        case None
        from stuck [OF go(1) [OF t Start None], of j] Start show ?thesis by simp
      next
        case (Some l)
        show ?thesis
        proof (cases l)
          case (Raw s)
          from stuck [OF go(2) [OF t Start Some [unfolded Raw]], of j] Start show ?thesis by simp
        next
          case (Initialising k)
          from stuck [OF go(3) [OF t Start Some [unfolded Initialising]], of j] Start show ?thesis by simp
        next
          case (Ready v)
          from stuck [OF go(4) [OF t Start Some [unfolded Ready]], of j] Start show ?thesis by simp
        qed
      qed
    next
      case (Running s)
      obtain r where r: "can m s r" using assms(2) by blast
      show ?thesis
      proof (cases r)
        case (Inl e)
        from stuck [OF go(5) [OF t Running r [unfolded Inl]], of j] Running show ?thesis by simp
      next
        case (Inr v)
        from stuck [OF go(6) [OF t Running r [unfolded Inr]], of j] Running show ?thesis by simp
      qed
    next
      case (Storing v)
      then have "slots b m = Some (Initialising j)" using builder_reach_fits [OF assms(1) t] by simp
      from stuck [OF go(7) [OF t Storing this], of j] Storing show ?thesis by simp
    next
      case (Notifying k v)
      from stuck [OF go(8) [OF t Notifying], of j] Notifying show ?thesis by simp
    next
      case Woken
      then obtain v where "slots b m = Some (Ready v)" using builder_reach_fits [OF assms(1) t] by auto
      from stuck [OF go(9) [OF t Woken this], of j] Woken show ?thesis by simp
    next
      case (Unreachable e)
      then show ?thesis using builder_reach_fits [OF assms(1) t] by simp
    qed auto
  qed
  have "gave_up (calls b k)" if w: "calls b i = Waiting k" for k
  proof -
    have inv: "name_inv target n (slots b n) (inits_of n (inits b)) (calls b)"
      by (rule builder_reach_name [OF assms(1)])
    have k: "target k = Some n" by (rule name_inv_waiting [OF inv assms(4) w])
    from builder_reach_fits [OF assms(1,4)] w
    consider "slots b n = Some (Initialising k)" | v where "slots b n = Some (Ready v)" by auto
    then show ?thesis
    proof cases
      case 1
      then have "owner_ok (calls b k) (inits_of n (inits b))" using inv by (simp add: name_inv_def)
      with moves [OF k] show ?thesis by auto
    next
      case 2
      then obtain v' where "calls b k = Notifying k v'"
        using inv assms(4) w unfolding name_inv_def by metis
      with moves [OF k] show ?thesis by simp
    qed
  qed
  with moves [OF assms(4)] show ?thesis by blast
qed

theorem get_storage_no_deadlock_witness:
  "\<exists>b. rtranclp (get_step (two ''x'') (\<lambda>_ _ r. r = Inr (7 :: nat))) (builder_new [''x'' \<mapsto> ()]) b \<and>
     (\<exists>r. calls b (Suc 0) = Returned r)"
proof -
  let ?can = "\<lambda>(_ :: string) (_ :: unit) r. r = Inr (7 :: nat)"
  obtain b where b: "rtranclp (get_step (two ''x'') ?can) (builder_new [''x'' \<mapsto> ()]) b"
    "calls b 0 = Returned (Inr 7)" "calls b (Suc 0) = Returned (Inr 7)"
    using both_return [of "[''x'' \<mapsto> ()]" "''x''" "()" ?can 7] by auto
  have over: "\<not> get_step (two ''x'') ?can b b'" for b'
    by (rule all_returned_no_step) (simp add: b)
  have "(\<exists>r. calls b (Suc 0) = Returned r) \<or> calls b (Suc 0) = Dropped \<or> (\<exists>k. calls b (Suc 0) = Waiting k \<and> gave_up (calls b k))"
    by (rule get_storage_no_deadlock [OF b(1)]) (use over in \<open>auto\<close>)
  with b show ?thesis by auto
qed

section \<open>Slots only move forward\<close>

datatype phase = Absent | Unused | InProgress | Available

fun phase_rank :: "phase \<Rightarrow> nat" where
  "phase_rank Absent = 0"
| "phase_rank Unused = 1"
| "phase_rank InProgress = 2"
| "phase_rank Available = 3"

lemma phase_rank_inject: "phase_rank p = phase_rank q \<longleftrightarrow> p = q"
  by (cases p; cases q) auto

instantiation phase :: linorder
begin

definition less_eq_phase :: "phase \<Rightarrow> phase \<Rightarrow> bool" where
  "p \<le> q \<longleftrightarrow> phase_rank p \<le> phase_rank q"

definition less_phase :: "phase \<Rightarrow> phase \<Rightarrow> bool" where
  "p < q \<longleftrightarrow> phase_rank p < phase_rank q"

instance
  by standard (auto simp: less_eq_phase_def less_phase_def phase_rank_inject)

end

fun slot_phase :: "('s, 'v) lazy_storage option \<Rightarrow> phase" where
  "slot_phase None = Absent"
| "slot_phase (Some (Raw s)) = Unused"
| "slot_phase (Some (Initialising k)) = InProgress"
| "slot_phase (Some (Ready v)) = Available"

lemma phase_rank_max [simp]: "phase_rank p \<le> 3"
  by (cases p) simp_all

lemma phase_max [simp]: "p \<le> Available"
  by (simp add: less_eq_phase_def)

lemma slot_phase_mono:
  assumes "rtranclp (get_step target can) b b'"
  shows "slot_phase (slots b n) \<le> slot_phase (slots b' n)"
  using assms
proof (induction rule: rtranclp_induct)
  case (step y z)
  from step(2) have "slot_phase (slots y n) \<le> slot_phase (slots z n)"
    by (cases rule: get_step.cases) (auto simp: less_eq_phase_def)
  with step(3) show ?case by (rule order_trans)
qed simp

text \<open>Once a storage is available it stays available, with the same value.\<close>

lemma ready_stays:
  assumes "rtranclp (get_step target can) (builder_new raw) b" and "rtranclp (get_step target can) b b'"
    and "slots b n = Some (Ready v)"
  shows "slots b' n = Some (Ready v)"
proof -
  have "rtranclp (get_step target can) (builder_new raw) b'" using assms(1,2) by simp
  note inv = builder_reach_name [OF this, of n] builder_reach_name [OF assms(1), of n]
  have "slot_phase (slots b' n) = Available"
    using slot_phase_mono [OF assms(2), of n] assms(3) by (simp add: antisym)
  then obtain v' where v': "slots b' n = Some (Ready v')"
    by (cases "slots b' n" rule: slot_phase.cases) auto
  have "\<exists>rs. inits b' = inits b @ rs"
    using assms(2)
  proof (induction rule: rtranclp_induct)
    case (step y z)
    from step(2) have "\<exists>rs. inits z = inits y @ rs" by (cases rule: get_step.cases) auto
    with step(3) show ?case by auto
  qed simp
  then obtain rs where rs: "inits b' = inits b @ rs" ..
  have "inits_of n (inits b) = [Inr v]" using inv(2) assms(3) by (simp add: name_inv_def)
  moreover have "inits_of n (inits b') = [Inr v']" using inv(1) v' by (simp add: name_inv_def)
  ultimately show ?thesis using rs v' by simp
qed

end
