(* ===== verification/Error_Counter.thy ===== *)
theory Error_Counter
  imports Prelude
begin

text \<open>
  The \<^verbatim>\<open>AtomicU32\<close> that \<^verbatim>\<open>sync\<close> and \<^verbatim>\<open>repair_storages\<close> count errors in. Additions from
  concurrent tasks commute, so only their number matters; like every \<^verbatim>\<open>fetch_add\<close> they wrap.
\<close>

definition fetch_add :: "u32 \<Rightarrow> u32 \<Rightarrow> u32" where
  "fetch_add n c = c + n"

locale error_counter =
  fixes zero :: 'c and bump :: "'c \<Rightarrow> 'c" and reading :: "'c \<Rightarrow> nat" and size :: nat
  assumes reads_zero: "reading zero = 0"
    and reads_bump: "reading (bump c) = (reading c + 1) mod size"
    and faithful: "reading c = reading d \<Longrightarrow> c = d"
    and positive: "0 < size"
begin

lemma reads_bumps: "reading ((bump ^^ n) zero) = n mod size"
  by (induction n) (simp_all add: reads_zero reads_bump mod_Suc_eq)

lemma bumps_zero_iff: "(bump ^^ n) zero = zero \<longleftrightarrow> size dvd n"
  using reads_bumps [of n] reads_zero faithful by (metis dvd_eq_mod_eq_0)

lemma reads_below: "n < size \<Longrightarrow> reading ((bump ^^ n) zero) = n"
  by (simp add: reads_bumps)

end

interpretation errors: error_counter "0 :: u32" "fetch_add 1" unat "2 ^ 32"
proof unfold_locales
  fix c d :: u32
  show "unat (0 :: u32) = 0" by simp
  show "unat (fetch_add 1 c) = (unat c + 1) mod 2 ^ 32"
    by (simp add: fetch_add_def unat_word_ariths)
  show "unat c = unat d \<Longrightarrow> c = d" by (rule word_unat_eq_iff [THEN iffD2])
  show "0 < (2 :: nat) ^ 32" by simp
qed

lemma fetch_add_pow: "(fetch_add 1 ^^ n) c = c + of_nat n"
  by (induction n) (simp_all add: fetch_add_def algebra_simps)

lemma fetch_add_of_nat: "fetch_add (of_nat n) 0 = (fetch_add 1 ^^ n) 0"
  by (simp add: fetch_add_pow fetch_add_def)

end
