(* ===== verification/Repair.thy ===== *)
theory Repair
  imports Config_File Error_Counter
begin

text \<open>
  \<^verbatim>\<open>src/src/repair.rs\<close>: giving a UID to every item that has none. The operations of a storage
  (discovery, reading all items of a collection, updating one), what \<^verbatim>\<open>vstorage\<close> knows of an
  item and the clock are the record \<open>repair_api\<close>, on an opaque world. The counter of failures
  is threaded beside the world. Log messages are left out.
\<close>

record 'i fetched =
  ft_href :: string
  ft_etag :: string
  ft_item :: 'i

record ('w, 'st, 'i) repair_api =
  ra_discover :: "'st \<Rightarrow> 'w \<Rightarrow> (failure + (string \<times> string) list) \<times> 'w"   \<comment> \<open>id and reference\<close>
  ra_get_all :: "'st \<Rightarrow> string \<Rightarrow> 'w \<Rightarrow> (failure + 'i fetched list) \<times> 'w"
  ra_update :: "'st \<Rightarrow> string \<Rightarrow> string \<Rightarrow> 'i \<Rightarrow> 'w \<Rightarrow> (failure + unit) \<times> 'w"
  ra_uid :: "'i \<Rightarrow> string option"
  ra_hash :: "'i \<Rightarrow> string"
  ra_with_uid :: "'i \<Rightarrow> string \<Rightarrow> 'i"
  ra_now :: "'w \<Rightarrow> nat option"   \<comment> \<open>nanoseconds since the epoch, unless the clock is before it\<close>

text \<open>
  A \<^verbatim>\<open>match\<close> on the result of an operation of the storage: an error is counted, a panic ends
  the task.
\<close>

definition counting ::
  "('w \<Rightarrow> (failure + 'a) \<times> 'w) \<Rightarrow> 'w \<times> u32 \<Rightarrow> (failure + 'a option) \<times> 'w \<times> u32"
where
  "counting m = (\<lambda>(w, failed).
     (case m w of
        (Inr a, w') \<Rightarrow> (Inr (Some a), w', failed)
      | (Inl (Err _), w') \<Rightarrow> (Inr None, w', fetch_add 1 failed)
      | (Inl (Panic p), w') \<Rightarrow> (Inl (Panic p), w', failed)))"

text \<open>The UID tried for an item: its hash, with the time appended when that is taken.\<close>

definition candidate_uid ::
  "('w, 'st, 'i) repair_api \<Rightarrow> string set \<Rightarrow> 'i \<Rightarrow> 'w \<times> u32 \<Rightarrow> (failure + string) \<times> 'w \<times> u32"
where
  "candidate_uid R all_uids item = (\<lambda>(w, failed).
     (let uid = ra_hash R item in
      (if uid \<in> all_uids then
         (case ra_now R w of
            None \<Rightarrow> Inl (Panic ''Current time should be after Unix epoch'')
          | Some nanos \<Rightarrow> Inr (uid @ ''.'' @ show_nat nanos))
       else Inr uid, w, failed)))"

fun repair_items ::
  "('w, 'st, 'i) repair_api \<Rightarrow> 'st \<Rightarrow> string set \<Rightarrow> 'i fetched list \<Rightarrow> 'w \<times> u32 \<Rightarrow>
    (failure + unit) \<times> 'w \<times> u32"
where
  "repair_items R st all_uids [] = sret ()"
| "repair_items R st all_uids (f # fs) =
     (if ra_uid R (ft_item f) \<noteq> None then repair_items R st all_uids fs
      else
        sbind (candidate_uid R all_uids (ft_item f)) (\<lambda>uid.
        if uid \<in> all_uids then
          sbind (\<lambda>(w, failed). (Inr (), w, fetch_add 1 failed)) (\<lambda>_.
          repair_items R st all_uids fs)
        else
          sbind (counting (ra_update R st (ft_href f) (ft_etag f) (ra_with_uid R (ft_item f) uid))) (\<lambda>_.
          repair_items R st (insert uid all_uids) fs)))"

definition repair_collection ::
  "('w, 'st, 'i) repair_api \<Rightarrow> 'st \<Rightarrow> string \<Rightarrow> 'w \<times> u32 \<Rightarrow> (failure + unit) \<times> 'w \<times> u32"
where
  "repair_collection R st collection =
     sbind (counting (ra_get_all R st collection)) (\<lambda>all_fetched.
     case all_fetched of
       None \<Rightarrow> sret ()
     | Some fs \<Rightarrow> repair_items R st (set (List.map_filter (\<lambda>f. ra_uid R (ft_item f)) fs)) fs)"

fun repair_collections ::
  "('w, 'st, 'i) repair_api \<Rightarrow> 'st \<Rightarrow> (string \<times> string) list \<Rightarrow> 'w \<times> u32 \<Rightarrow>
    (failure + unit) \<times> 'w \<times> u32"
where
  "repair_collections R st [] = sret ()"
| "repair_collections R st (c # cs) =
     sbind (repair_collection R st (snd c)) (\<lambda>_. repair_collections R st cs)"

definition repair_storage ::
  "('w, 'st, 'i) repair_api \<Rightarrow> 'st named_storage \<Rightarrow> 'w \<times> u32 \<Rightarrow> (failure + unit) \<times> 'w \<times> u32"
where
  "repair_storage R storage =
     sbind (counting (ra_discover R (ns_storage storage))) (\<lambda>disco.
     case disco of
       None \<Rightarrow> sret ()
     | Some collections \<Rightarrow> repair_collections R (ns_storage storage) collections)"

section \<open>The tasks of all storages\<close>

text \<open>
  \<^verbatim>\<open>repair_storages\<close> spawns one task per storage; the tasks run concurrently and share the
  counter. Where a task stands: the collections still to be repaired and, within one, the UIDs
  in use and the items still to be looked at.
\<close>

datatype 'i repair_task =
    Discovering
  | AtCollections "(string \<times> string) list"
  | AtItems "string set" "'i fetched list" "(string \<times> string) list"
  | Repaired
  | Crashed failure

fun resume :: "(failure + 'a) \<times> 's \<Rightarrow> ('a \<Rightarrow> 'i repair_task) \<Rightarrow> 'i repair_task \<times> 's" where
  "resume (Inr a, s) k = (k a, s)"
| "resume (Inl e, s) k = (Crashed e, s)"

text \<open>
  What a task does up to and including its next operation on the storage: the loops of
  \<open>repair_collections\<close> and \<open>repair_items\<close>, cut where other tasks may run.
\<close>

fun repair_turn ::
  "('w, 'st, 'i) repair_api \<Rightarrow> 'st \<Rightarrow> 'i repair_task \<Rightarrow> 'w \<times> u32 \<Rightarrow> ('i repair_task \<times> 'w \<times> u32) option"
where
  "repair_turn R st Discovering s =
     Some (resume (counting (ra_discover R st) s) (\<lambda>disco. case disco of
       None \<Rightarrow> Repaired | Some collections \<Rightarrow> AtCollections collections))"
| "repair_turn R st (AtCollections []) s = Some (Repaired, s)"
| "repair_turn R st (AtCollections (c # cs)) s =
     Some (resume (counting (ra_get_all R st (snd c)) s) (\<lambda>all_fetched. case all_fetched of
       None \<Rightarrow> AtCollections cs
     | Some fs \<Rightarrow> AtItems (set (List.map_filter (\<lambda>f. ra_uid R (ft_item f)) fs)) fs cs))"
| "repair_turn R st (AtItems all_uids [] cs) s = Some (AtCollections cs, s)"
| "repair_turn R st (AtItems all_uids (f # fs) cs) s =
     Some (if ra_uid R (ft_item f) \<noteq> None then (AtItems all_uids fs cs, s)
       else (case candidate_uid R all_uids (ft_item f) s of
           (Inl e, s') \<Rightarrow> (Crashed e, s')
         | (Inr uid, (w, failed)) \<Rightarrow>
             if uid \<in> all_uids then (AtItems all_uids fs cs, w, fetch_add 1 failed)
             else resume (counting (ra_update R st (ft_href f) (ft_etag f) (ra_with_uid R (ft_item f) uid)) (w, failed))
               (\<lambda>_. AtItems (insert uid all_uids) fs cs)))"
| "repair_turn R st t s = None"

inductive repair_step ::
  "('w, 'st, 'i) repair_api \<Rightarrow> 'st named_storage list \<Rightarrow> 'i repair_task list \<times> 'w \<times> u32 \<Rightarrow>
    'i repair_task list \<times> 'w \<times> u32 \<Rightarrow> bool"
  for R storages
where
  "i < length tasks \<Longrightarrow> repair_turn R (ns_storage (storages ! i)) (tasks ! i) s = Some (t, s') \<Longrightarrow>
     repair_step R storages (tasks, s) (tasks[i := t], s')"

definition repair_start :: "'st named_storage list \<Rightarrow> 'w \<Rightarrow> 'i repair_task list \<times> 'w \<times> u32" where
  "repair_start storages w = (map (\<lambda>_. Discovering) storages, w, 0)"

fun repair_over :: "'i repair_task \<Rightarrow> bool" where
  "repair_over Repaired = True"
| "repair_over (Crashed e) = True"
| "repair_over t = False"

text \<open>What is returned once all tasks have been joined; how they ended is only logged.\<close>

definition repair_result :: "'i repair_task list \<Rightarrow> u32 \<Rightarrow> (failure + unit) option" where
  "repair_result tasks failed =
     (if \<not> list_all repair_over tasks then None
      else if failed = 0 then Some (Inr ())
      else Some (bail (fmt [''A total of '', show_nat (unat failed), '' operations failed.''])))"

text \<open>\<^verbatim>\<open>repair_storages\<close>: a result it may return and the world it then leaves.\<close>

inductive repair_storages ::
  "('w, 'st, 'i) repair_api \<Rightarrow> 'st named_storage list \<Rightarrow> 'w \<Rightarrow> failure + unit \<Rightarrow> 'w \<Rightarrow> bool"
  for R storages w
where
  "rtranclp (repair_step R storages) (repair_start storages w) (tasks, w', failed) \<Longrightarrow>
     repair_result tasks failed = Some r \<Longrightarrow> repair_storages R storages w r w'"

inductive_cases repair_stepE: "repair_step R storages (tasks, s) x"

section \<open>A task on its own\<close>

definition alone ::
  "('w, 'st, 'i) repair_api \<Rightarrow> 'st \<Rightarrow> 'i repair_task \<times> 'w \<times> u32 \<Rightarrow> 'i repair_task \<times> 'w \<times> u32 \<Rightarrow> bool"
where
  "alone R st x y \<longleftrightarrow> repair_turn R st (fst x) (snd x) = Some y"

fun after :: "failure + unit \<Rightarrow> 'i repair_task \<Rightarrow> 'i repair_task" where
  "after (Inr u) t = t"
| "after (Inl e) t = Crashed e"

lemma alone_items:
  "repair_items R st used fs s = (r, s') \<Longrightarrow>
     rtranclp (alone R st) (AtItems used fs cs, s) (after r (AtCollections cs), s')"
proof (induction fs arbitrary: used s)
  case Nil
  then show ?case by (auto intro!: r_into_rtranclp simp: alone_def)
next
  case (Cons f fs)
  have skip: "rtranclp (alone R st) (AtItems used (f # fs) cs, s) (after r (AtCollections cs), s')"
    if "repair_turn R st (AtItems used (f # fs) cs) s = Some (AtItems used' fs cs, s1)"
      and "repair_items R st used' fs s1 = (r, s')" for used' s1
    by (rule converse_rtranclp_into_rtranclp [OF _ Cons.IH [OF that(2)]]) (simp only: alone_def fst_conv snd_conv that(1))
  have stop: "rtranclp (alone R st) (AtItems used (f # fs) cs, s) (after r (AtCollections cs), s')"
    if "repair_turn R st (AtItems used (f # fs) cs) s = Some (Crashed e, s1)" "r = Inl e" "s' = s1" for e s1
    using that by (simp add: r_into_rtranclp alone_def)
  obtain r1 w c where cand: "candidate_uid R used (ft_item f) s = (r1, w, c)" by (metis prod.collapse)
  show ?case
  proof (cases "ra_uid R (ft_item f) = None")
    case no_uid: True
    show ?thesis
    proof (cases r1)
      case (Inl e)
      with Cons.prems no_uid cand
      have "repair_turn R st (AtItems used (f # fs) cs) s = Some (Crashed e, w, c)" "r = Inl e" "s' = (w, c)"
        by (auto simp: sbind_def)
      then show ?thesis by (rule stop)
    next
      case uid: (Inr uid)
      show ?thesis
      proof (cases "uid \<in> used")
        case True
        with Cons.prems no_uid cand uid show ?thesis by (intro skip) (auto simp: sbind_def)
      next
        case False
        obtain r2 s2 where up: "counting (ra_update R st (ft_href f) (ft_etag f) (ra_with_uid R (ft_item f) uid)) (w, c) =
            (r2, s2)" by (meson surj_pair)
        show ?thesis
        proof (cases r2)
          case (Inl e)
          with Cons.prems no_uid cand uid False up
          have "repair_turn R st (AtItems used (f # fs) cs) s = Some (Crashed e, s2)" "r = Inl e" "s' = s2"
            by (auto simp: sbind_def)
          then show ?thesis by (rule stop)
        next
          case (Inr a)
          with Cons.prems no_uid cand uid False up show ?thesis
            by (intro skip [of "insert uid used" s2]) (auto simp: sbind_def)
        qed
      qed
    qed
  next
    case False
    with Cons.prems show ?thesis by (intro skip) auto
  qed
qed

lemma alone_collections:
  "repair_collections R st cs s = (r, s') \<Longrightarrow> rtranclp (alone R st) (AtCollections cs, s) (after r Repaired, s')"
proof (induction cs arbitrary: s)
  case Nil
  then show ?case by (auto simp: alone_def intro!: r_into_rtranclp)
next
  case (Cons coll cs)
  obtain r1 s1 where got: "counting (ra_get_all R st (snd coll)) s = (r1, s1)" by (meson surj_pair)
  show ?case
  proof (cases r1)
    case (Inl e)
    with Cons.prems got have "repair_turn R st (AtCollections (coll # cs)) s = Some (after r Repaired, s')"
      by (auto simp: sbind_def repair_collection_def)
    then show ?thesis by (simp add: r_into_rtranclp alone_def)
  next
    case (Inr fetched)
    show ?thesis
    proof (cases fetched)
      case None
      with Cons.prems got Inr have "repair_turn R st (AtCollections (coll # cs)) s = Some (AtCollections cs, s1)"
        "repair_collections R st cs s1 = (r, s')"
        by (auto simp: sbind_def repair_collection_def)
      then show ?thesis
        by (intro converse_rtranclp_into_rtranclp [OF _ Cons.IH]) (simp_all only: alone_def fst_conv snd_conv)
    next
      case (Some fs)
      let ?used = "set (List.map_filter (\<lambda>f. ra_uid R (ft_item f)) fs)"
      obtain r2 s2 where items: "repair_items R st ?used fs s1 = (r2, s2)" by (meson surj_pair)
      have turn: "alone R st (AtCollections (coll # cs), s) (AtItems ?used fs cs, s1)"
        using got Inr Some by (simp add: alone_def)
      note first = converse_rtranclp_into_rtranclp [OF turn alone_items [OF items]]
      show ?thesis
      proof (cases r2)
        case (Inl e)
        with Cons.prems got \<open>r1 = Inr fetched\<close> Some items first show ?thesis
          by (auto simp: sbind_def repair_collection_def)
      next
        case (Inr u)
        with Cons.prems got \<open>r1 = Inr fetched\<close> Some items have "repair_collections R st cs s2 = (r, s')"
          by (auto simp: sbind_def repair_collection_def)
        from rtranclp_trans [OF first] Cons.IH [OF this] Inr show ?thesis by simp
      qed
    qed
  qed
qed

text \<open>A task that runs without interruption does what \<open>repair_storage\<close> says.\<close>

lemma alone_storage:
  assumes "repair_storage R storage s = (r, s')"
  shows "rtranclp (alone R (ns_storage storage)) (Discovering, s) (after r Repaired, s')"
proof -
  obtain r1 s1 where disco: "counting (ra_discover R (ns_storage storage)) s = (r1, s1)" by (meson surj_pair)
  show ?thesis
  proof (cases r1)
    case (Inl e)
    with assms disco show ?thesis
      by (auto simp: repair_storage_def sbind_def alone_def intro!: r_into_rtranclp)
  next
    case (Inr found)
    show ?thesis
    proof (cases found)
      case None
      with assms disco Inr show ?thesis
        by (auto simp: repair_storage_def sbind_def alone_def intro!: r_into_rtranclp)
    next
      case (Some cs)
      have turn: "alone R (ns_storage storage) (Discovering, s) (AtCollections cs, s1)"
        using disco Inr Some by (simp add: alone_def)
      from assms disco Inr Some have "repair_collections R (ns_storage storage) cs s1 = (r, s')"
        by (simp add: repair_storage_def sbind_def)
      from converse_rtranclp_into_rtranclp [OF turn alone_collections [OF this]] show ?thesis .
    qed
  qed
qed

lemma alone_among_others:
  assumes "rtranclp (alone R (ns_storage (storages ! i))) (t, s) (t', s')"
    and "i < length tasks" and "tasks ! i = t"
  shows "rtranclp (repair_step R storages) (tasks, s) (tasks[i := t'], s')"
  using assms(1)
proof (induction rule: rtranclp_induct2)
  case refl
  then show ?case by (simp flip: assms(3))
next
  case (step t1 s1 t2 s2)
  have "repair_step R storages (tasks[i := t1], s1) ((tasks[i := t1])[i := t2], s2)"
    by (rule repair_step.intros) (use step(2) assms(2) in \<open>simp_all add: alone_def\<close>)
  with step(3) show ?case by simp
qed

section \<open>The UIDs that are given\<close>

text \<open>The same storage operations, with the updates that are attempted written down.\<close>

definition logging :: "('w, 'st, 'i) repair_api \<Rightarrow> ('w \<times> (string \<times> string \<times> 'i) list, 'st, 'i) repair_api" where
  "logging R =
     \<lparr>ra_discover = (\<lambda>st (w, l). case ra_discover R st w of (r, w') \<Rightarrow> (r, w', l)),
      ra_get_all = (\<lambda>st c (w, l). case ra_get_all R st c w of (r, w') \<Rightarrow> (r, w', l)),
      ra_update = (\<lambda>st h e i (w, l). case ra_update R st h e i w of (r, w') \<Rightarrow> (r, w', l @ [(h, e, i)])),
      ra_uid = ra_uid R, ra_hash = ra_hash R, ra_with_uid = ra_with_uid R, ra_now = (\<lambda>(w, l). ra_now R w)\<rparr>"

text \<open>
  \<open>given R fs uids us\<close>: the updates \<open>us\<close> give the UIDs \<open>uids\<close>, in order, to items of \<open>fs\<close>
  that have none.
\<close>

fun given :: "('w, 'st, 'i) repair_api \<Rightarrow> 'i fetched list \<Rightarrow> string list \<Rightarrow> (string \<times> string \<times> 'i) list \<Rightarrow> bool" where
  "given R fs [] [] = True"
| "given R fs (uid # uids) ((h, e, i) # us) =
     ((\<exists>f \<in> set fs. h = ft_href f \<and> e = ft_etag f \<and> ra_uid R (ft_item f) = None \<and>
        i = ra_with_uid R (ft_item f) uid) \<and> given R fs uids us)"
| "given R fs _ _ = False"

lemma given_Nil [simp]: "given R fs uids [] = (uids = [])"
  by (cases uids) simp_all

lemma given_mono: "given R fs uids us \<Longrightarrow> given R (f # fs) uids us"
  by (induction R fs uids us rule: given.induct) auto

lemma candidate_uid_cases:
  obtains (ok) uid where "candidate_uid R uids i s = (Inr uid, s)" | (panic) p where "candidate_uid R uids i s = (Inl (Panic p), s)"
proof -
  obtain w n where s: "s = (w, n)" by (cases s)
  show thesis
  proof (cases "ra_hash R i \<in> uids \<and> ra_now R w = None")
    case True
    then show thesis by (intro panic) (simp add: candidate_uid_def s)
  next
    case False
    then show thesis
      by (intro ok [of "if ra_hash R i \<in> uids then ra_hash R i @ ''.'' @ show_nat (the (ra_now R w)) else ra_hash R i"])
        (auto simp: candidate_uid_def s)
  qed
qed

lemma logging_simps [simp]:
  "ra_uid (logging R) = ra_uid R" "ra_with_uid (logging R) = ra_with_uid R"
  "ra_update (logging R) st h e i (w, l) = (case ra_update R st h e i w of (r, w') \<Rightarrow> (r, w', l @ [(h, e, i)]))"
  by (simp_all add: logging_def)

lemma counting_update_log:
  "\<exists>r w' k. counting (ra_update (logging R) st h e i) ((w, l), k0) = (r, (w', l @ [(h, e, i)]), k)"
  by (auto simp: counting_def split: prod.splits sum.splits failure.splits)

lemma repair_items_fresh:
  "\<exists>uids us. snd (fst (snd (repair_items (logging R) st used fs ((w, l), n)))) = l @ us \<and>
     given R fs uids us \<and> distinct uids \<and> set uids \<inter> used = {}"
proof (induction fs arbitrary: used w l n)
  case Nil
  show ?case by (intro exI [of _ "[]"]) simp
next
  case (Cons f fs)
  let ?rest = "\<lambda>used s. repair_items (logging R) st used fs s"
  show ?case
  proof (cases "ra_uid R (ft_item f)")
    case (Some u)
    with Cons.IH [of used w l n] show ?thesis by (auto intro: given_mono)
  next
    case None
    note here = None
    show ?thesis
    proof (cases rule: candidate_uid_cases [of "logging R" used "ft_item f" "((w, l), n)"])
      case (panic p)
      with here show ?thesis by (intro exI [of _ "[]"]) (simp add: sbind_def)
    next
      case (ok uid)
      show ?thesis
      proof (cases "uid \<in> used")
        case True
        with here ok Cons.IH [of used w l "fetch_add 1 n"] show ?thesis
          by (auto simp: sbind_def intro: given_mono)
      next
        case False
        let ?i = "ra_with_uid R (ft_item f) uid"
        obtain r w' k where upd: "counting (ra_update (logging R) st (ft_href f) (ft_etag f) ?i) ((w, l), n) =
            (r, (w', l @ [(ft_href f, ft_etag f, ?i)]), k)" using counting_update_log by metis
        have one: "given R (f # fs) [uid] [(ft_href f, ft_etag f, ?i)]" using here by auto
        show ?thesis
        proof (cases r)
          case (Inl e)
          with here ok False upd one show ?thesis
            by (intro exI [of _ "[uid]"] exI [of _ "[(ft_href f, ft_etag f, ?i)]"]) (simp add: sbind_def)
        next
          case (Inr x)
          obtain uids us where IH: "snd (fst (snd (?rest (insert uid used) ((w', l @ [(ft_href f, ft_etag f, ?i)]), k)))) =
              (l @ [(ft_href f, ft_etag f, ?i)]) @ us" "given R fs uids us" "distinct uids" "set uids \<inter> insert uid used = {}"
            using Cons.IH by metis
          with here ok False upd Inr show ?thesis
            by (intro exI [of _ "uid # uids"] exI [of _ "(ft_href f, ft_etag f, ?i) # us"])
              (auto simp: sbind_def intro: given_mono)
        qed
      qed
    qed
  qed
qed

text \<open>
  C14. The UIDs that repairing a collection gives are pairwise different and different from
  every UID that an item of the collection has, and they are given only to items that had none,
  in their place.
\<close>
theorem repaired_uids_fresh:
  assumes "ra_get_all R st coll w = (Inr fs, w1)"
  shows "\<exists>uids us. snd (fst (snd (repair_collection (logging R) st coll ((w, l), n)))) = l @ us \<and>
    given R fs uids us \<and> distinct uids \<and>
    (\<forall>uid \<in> set uids. \<forall>f \<in> set fs. ra_uid R (ft_item f) \<noteq> Some uid)"
proof -
  let ?used = "set (List.map_filter (\<lambda>f. ra_uid R (ft_item f)) fs)"
  have "repair_collection (logging R) st coll ((w, l), n) = repair_items (logging R) st ?used fs ((w1, l), n)"
    using assms by (simp add: repair_collection_def counting_def sbind_def logging_def)
  moreover obtain uids us where fresh: "snd (fst (snd (repair_items (logging R) st ?used fs ((w1, l), n)))) = l @ us"
    "given R fs uids us" "distinct uids" "set uids \<inter> ?used = {}"
    using repair_items_fresh [of R st ?used fs w1 l n] by (elim exE conjE)
  moreover have "ra_uid R (ft_item f) \<noteq> Some uid" if "uid \<in> set uids" "f \<in> set fs" for uid f
  proof
    assume "ra_uid R (ft_item f) = Some uid"
    with that(2) have "uid \<in> ?used" by (force simp: List.map_filter_def)
    with that(1) fresh(4) show False by blast
  qed
  ultimately show ?thesis by (intro exI [of _ uids] exI [of _ us]) simp
qed

text \<open>A storage with one collection of three items; two have no UID and the same hash.\<close>

definition twins :: "(nat \<times> string option) fetched list" where
  "twins = [\<lparr>ft_href = ''/c/1'', ft_etag = ''e'', ft_item = (1, None)\<rparr>,
     \<lparr>ft_href = ''/c/2'', ft_etag = ''e'', ft_item = (2, None)\<rparr>,
     \<lparr>ft_href = ''/c/3'', ft_etag = ''e'', ft_item = (3, Some ''h.0'')\<rparr>]"

definition twins_api :: "(unit, unit, nat \<times> string option) repair_api" where
  "twins_api = \<lparr>ra_discover = (\<lambda>_ w. (Inr [(''c'', ''/c'')], w)), ra_get_all = (\<lambda>_ _ w. (Inr twins, w)),
     ra_update = (\<lambda>_ _ _ _ w. (Inr (), w)), ra_uid = snd, ra_hash = (\<lambda>_. ''h''),
     ra_with_uid = (\<lambda>i u. (fst i, Some u)), ra_now = (\<lambda>_. Some 0)\<rparr>"

theorem repaired_uids_fresh_witness:
  "snd (fst (snd (repair_collection (logging twins_api) () ''/c'' (((), []), 0)))) =
     [(''/c/1'', ''e'', (1, Some ''h''))] \<and> \<not> (\<exists>f \<in> set twins. snd (ft_item f) = Some ''h'')"
proof -
  have run: "snd (fst (snd (repair_collection (logging twins_api) () ''/c'' (((), []), 0)))) =
      [(''/c/1'', ''e'', (1, Some ''h''))]" by code_simp
  have "ra_get_all twins_api () ''/c'' () = (Inr twins, ())" by (simp add: twins_api_def)
  from repaired_uids_fresh [OF this, of "[]" 0] obtain uids us where
    "[(''/c/1'', ''e'', (1, Some ''h''))] = us" and g: "given twins_api twins uids us"
    and fresh: "\<forall>uid \<in> set uids. \<forall>f \<in> set twins. ra_uid twins_api (ft_item f) \<noteq> Some uid"
    unfolding run by auto
  then have "uids = [''h'']" by (cases "(twins_api, twins, uids, us)" rule: given.cases) (auto simp: twins_api_def)
  with fresh run show ?thesis by (simp add: twins_api_def)
qed

end
