(* ===== verification/Repair_Props.thy ===== *)
theory Repair_Props
  imports Repair Transition
begin

text \<open>
  Repairing several storages at once: that it always ends, however its tasks interleave, and
  what the number it reports means, the storage operations that failed and the items that were
  left without a UID.
\<close>

section \<open>A tally of what happens\<close>

text \<open>
  The items without a UID that were read, the updates that were tried, and the operations that
  failed.
\<close>

record tally =
  tl_lacking :: nat
  tl_updates :: nat
  tl_errors :: nat

definition no_tally :: tally where
  "no_tally = \<lparr>tl_lacking = 0, tl_updates = 0, tl_errors = 0\<rparr>"

definition lacking :: "('w, 'st, 'i) repair_api \<Rightarrow> 'i fetched list \<Rightarrow> nat" where
  "lacking R fs = length (filter (\<lambda>f. ra_uid R (ft_item f) = None) fs)"

definition note_error :: "failure + 'a \<Rightarrow> tally \<Rightarrow> tally" where
  "note_error r t = (case r of Inl _ \<Rightarrow> t\<lparr>tl_errors := tl_errors t + 1\<rparr> | Inr _ \<Rightarrow> t)"

text \<open>The same storage operations, with the tally kept beside the world.\<close>

definition tallying :: "('w, 'st, 'i) repair_api \<Rightarrow> ('w \<times> tally, 'st, 'i) repair_api" where
  "tallying R =
     \<lparr>ra_discover = (\<lambda>st (w, t). case ra_discover R st w of (r, w') \<Rightarrow> (r, w', note_error r t)),
      ra_get_all = (\<lambda>st c (w, t). case ra_get_all R st c w of (r, w') \<Rightarrow>
        (r, w', case r of Inl _ \<Rightarrow> note_error r t | Inr fs \<Rightarrow> t\<lparr>tl_lacking := tl_lacking t + lacking R fs\<rparr>)),
      ra_update = (\<lambda>st h e i (w, t). case ra_update R st h e i w of (r, w') \<Rightarrow>
        (r, w', note_error r (t\<lparr>tl_updates := tl_updates t + 1\<rparr>))),
      ra_uid = ra_uid R, ra_hash = ra_hash R, ra_with_uid = ra_with_uid R, ra_now = (\<lambda>(w, t). ra_now R w)\<rparr>"

text \<open>The operations of the storage may fail but do not panic, and the clock is after the epoch.\<close>

definition no_panics :: "('w, 'st, 'i) repair_api \<Rightarrow> bool" where
  "no_panics R \<longleftrightarrow>
     (\<forall>st w p. fst (ra_discover R st w) \<noteq> Inl (Panic p)) \<and>
     (\<forall>st c w p. fst (ra_get_all R st c w) \<noteq> Inl (Panic p)) \<and>
     (\<forall>st h e i w p. fst (ra_update R st h e i w) \<noteq> Inl (Panic p)) \<and>
     (\<forall>w. ra_now R w \<noteq> None)"

text \<open>
  The counter is the number of failed operations and of items passed over, when \<open>pending\<close> of
  the items without a UID are still to come.
\<close>

definition counted :: "nat \<Rightarrow> tally \<Rightarrow> u32 \<Rightarrow> bool" where
  "counted pending t c \<longleftrightarrow> tl_updates t + pending \<le> tl_lacking t \<and>
     c = of_nat (tl_errors t + (tl_lacking t - tl_updates t - pending))"

lemma counting_cases:
  assumes "\<forall>p. fst (m w) \<noteq> Inl (Panic p)"
  obtains (fails) ms w' where "m w = (Inl (Err ms), w')" "counting m (w, c) = (Inr None, w', c + 1)"
    | (works) a w' where "m w = (Inr a, w')" "counting m (w, c) = (Inr (Some a), w', c)"
proof -
  obtain r w' where m: "m w = (r, w')" by fastforce
  show thesis
  proof (cases r)
    case (Inl e)
    then obtain ms where "e = Err ms" using assms m by (cases e) auto
    with m Inl show thesis by (intro fails) (simp_all add: counting_def fetch_add_def)
  next
    case (Inr a)
    with m show thesis by (intro works) (simp_all add: counting_def)
  qed
qed

lemma tallying_simps [simp]:
  "ra_uid (tallying R) = ra_uid R" "ra_with_uid (tallying R) = ra_with_uid R" "ra_hash (tallying R) = ra_hash R"
  "ra_now (tallying R) (w, t) = ra_now R w"
  "ra_discover (tallying R) st (w, t) = (case ra_discover R st w of (r, w') \<Rightarrow> (r, w', note_error r t))"
  by (simp_all add: tallying_def)

lemma no_panics_tallying:
  assumes "no_panics R"
  shows "\<forall>p. fst (ra_discover (tallying R) st s) \<noteq> Inl (Panic p)"
    and "\<forall>p. fst (ra_get_all (tallying R) st coll s) \<noteq> Inl (Panic p)"
    and "\<forall>p. fst (ra_update (tallying R) st h e i s) \<noteq> Inl (Panic p)"
  using assms unfolding no_panics_def
  by (auto simp: tallying_def split: prod.splits) (metis fst_conv)+

lemma counted_skip: "counted (Suc n) t c \<Longrightarrow> counted n t (c + 1)"
proof -
  assume "counted (Suc n) t c"
  then have le: "tl_updates t + Suc n \<le> tl_lacking t"
    and c: "c = of_nat (tl_errors t + (tl_lacking t - tl_updates t - Suc n))"
    by (simp_all only: counted_def)
  from le have "tl_errors t + (tl_lacking t - tl_updates t - n) =
      Suc (tl_errors t + (tl_lacking t - tl_updates t - Suc n))" by arith
  with le c show ?thesis unfolding counted_def by (simp only: of_nat_Suc) simp
qed

lemma counted_update:
  "counted (Suc n) t c \<Longrightarrow> counted n (t\<lparr>tl_updates := tl_updates t + 1\<rparr>) c"
  by (simp add: counted_def)

lemma counted_error: "counted n t c \<Longrightarrow> counted n (t\<lparr>tl_errors := tl_errors t + 1\<rparr>) (c + 1)"
  by (simp add: counted_def algebra_simps)

lemma counted_read: "counted n t c \<Longrightarrow> counted (m + n) (t\<lparr>tl_lacking := tl_lacking t + m\<rparr>) c"
  by (simp add: counted_def)

section \<open>The counter follows the tally\<close>

text \<open>The items of a task that have no UID and are still to come.\<close>

fun pending :: "('w, 'st, 'i) repair_api \<Rightarrow> 'i repair_task \<Rightarrow> nat" where
  "pending R (AtItems used fs cs) = lacking R fs"
| "pending R t = 0"

fun crashed :: "'i repair_task \<Rightarrow> bool" where
  "crashed (Crashed e) = True"
| "crashed t = False"

text \<open>One turn of a task, when the tasks together still have \<open>n\<close> more items to come.\<close>

lemma repair_turn_counted:
  assumes "no_panics R" and "repair_turn (tallying R) st task ((w, t), c) = Some (task', (w', t'), c')"
    and "counted (pending R task + n) t c"
  shows "counted (pending R task' + n) t' c' \<and> \<not> crashed task'"
  using assms(2,3)
proof (induction "tallying R" st task "((w, t), c)" rule: repair_turn.induct)
  case (1 st)
  from no_panics_tallying(1) [OF assms(1)] show ?case
  proof (cases rule: counting_cases [of "ra_discover (tallying R) st" "(w, t)" c])
    case (fails ms s)
    with 1 counted_error [of n t c] show ?thesis by (auto simp: note_error_def split: prod.splits)
  next
    case (works cs s)
    with 1 show ?thesis by (auto simp: note_error_def split: prod.splits)
  qed
next
  case (3 st coll cs)
  from no_panics_tallying(2) [OF assms(1)] show ?case
  proof (cases rule: counting_cases [of "ra_get_all (tallying R) st (snd coll)" "(w, t)" c])
    case (fails ms s)
    with 3 counted_error [of n t c] show ?thesis
      by (auto simp: tallying_def note_error_def split: prod.splits)
  next
    case (works fs s)
    then have "s = (fst s, t\<lparr>tl_lacking := tl_lacking t + lacking R fs\<rparr>)"
      by (auto simp: tallying_def split: prod.splits)
    with works 3 counted_read [of n t c "lacking R fs"] show ?thesis by (cases s) auto
  qed
next
  case (5 st used f fs cs)
  show ?case
  proof (cases "ra_uid R (ft_item f)")
    case (Some u)
    with 5 show ?thesis by (auto simp: lacking_def)
  next
    case None
    then have c: "counted (Suc (lacking R fs + n)) t c" using 5(2) by (simp add: lacking_def)
    have "ra_now R w \<noteq> None" using assms(1) by (simp add: no_panics_def)
    then obtain uid where uid: "candidate_uid (tallying R) used (ft_item f) ((w, t), c) = (Inr uid, (w, t), c)"
      by (cases rule: candidate_uid_cases [of "tallying R" used "ft_item f" "((w, t), c)"])
        (auto simp: candidate_uid_def Let_def split: if_splits option.splits)
    show ?thesis
    proof (cases "uid \<in> used")
      case True
      with None uid 5(1) counted_skip [OF c] show ?thesis by (auto simp: fetch_add_def add.commute)
    next
      case False
      let ?update = "ra_update (tallying R) st (ft_href f) (ft_etag f) (ra_with_uid R (ft_item f) uid)"
      let ?t = "t\<lparr>tl_updates := tl_updates t + 1\<rparr>"
      from None uid False 5(1) have turn: "resume (counting ?update ((w, t), c)) (\<lambda>_. AtItems (insert uid used) fs cs) =
          (task', (w', t'), c')" by simp
      from no_panics_tallying(3) [OF assms(1)] show ?thesis
      proof (cases rule: counting_cases [of ?update "(w, t)" c])
        case (fails ms s)
        then have "s = (fst s, ?t\<lparr>tl_errors := tl_errors ?t + 1\<rparr>)"
          by (auto simp: tallying_def note_error_def split: prod.splits)
        with fails turn counted_error [OF counted_update [OF c]] show ?thesis by (cases s) auto
      next
        case (works a s)
        then have "s = (fst s, ?t)" by (auto simp: tallying_def note_error_def split: prod.splits)
        with works turn counted_update [OF c] show ?thesis by (cases s) auto
      qed
    qed
  qed
qed (auto simp: lacking_def)

section \<open>All tasks together\<close>

fun repair_inv :: "('w, 'st, 'i) repair_api \<Rightarrow> 'st named_storage list \<Rightarrow> 'i repair_task list \<times> ('w \<times> tally) \<times> u32 \<Rightarrow> bool" where
  "repair_inv R storages (tasks, (w, t), c) \<longleftrightarrow> no_panics R \<longrightarrow>
     counted (sum_list (map (pending R) tasks)) t c \<and> \<not> list_ex crashed tasks"

lemma pending_others:
  assumes "i < length tasks"
  obtains n where "sum_list (map (pending R) tasks) = pending R (tasks ! i) + n"
    and "\<And>t. sum_list (map (pending R) (tasks[i := t])) = pending R t + n"
proof -
  have le: "pending R (tasks ! i) \<le> sum_list (map (pending R) tasks)"
    using elem_le_sum_list [of i "map (pending R) tasks"] assms by simp
  show thesis
    by (rule that [of "sum_list (map (pending R) tasks) - pending R (tasks ! i)"])
      (use le assms in \<open>simp_all add: map_update sum_list_update\<close>)
qed

interpretation repairs: invariant_system "repair_start storages (w, no_tally)" "repair_step (tallying R) storages"
  "repair_inv R storages" for storages w R
proof unfold_locales
  show "repair_inv R storages (repair_start storages (w, no_tally))"
    by (auto simp: repair_start_def counted_def no_tally_def list_ex_iff comp_def)
  fix x y
  assume "repair_step (tallying R) storages x y" and inv: "repair_inv R storages x"
  then show "repair_inv R storages y"
  proof (cases rule: repair_step.cases)
    case (1 i tasks s task s')
    obtain w t c w' t' c' where s: "s = ((w, t), c)" "s' = ((w', t'), c')" by (metis prod.collapse)
    obtain n where n: "sum_list (map (pending R) tasks) = pending R (tasks ! i) + n"
      "\<And>t. sum_list (map (pending R) (tasks[i := t])) = pending R t + n"
      by (rule pending_others [where R = R, OF 1(3)]) (rule that)
    show ?thesis
      unfolding 1(2) s repair_inv.simps
    proof
      assume safe: "no_panics R"
      with inv have "counted (pending R (tasks ! i) + n) t c" and ok: "\<not> list_ex crashed tasks"
        unfolding 1(1) s by (simp_all add: n(1))
      with repair_turn_counted [OF safe] 1(4) have "counted (pending R task + n) t' c' \<and> \<not> crashed task"
        unfolding s by blast
      moreover have "set (tasks[i := task]) \<subseteq> insert task (set tasks)" by (rule set_update_subset_insert)
      ultimately show "counted (sum_list (map (pending R) (tasks[i := task]))) t' c' \<and> \<not> list_ex crashed (tasks[i := task])"
        using ok by (auto simp: n(2) list_ex_iff)
    qed
  qed
qed

lemma nothing_pending: "list_all repair_over tasks \<Longrightarrow> sum_list (map (pending R) tasks) = 0"
proof (induction tasks)
  case (Cons t ts)
  then show ?case by (cases t) simp_all
qed simp

section \<open>Repairing ends\<close>

fun rank :: "'i repair_task \<Rightarrow> nat \<times> nat \<times> nat" where
  "rank Discovering = (2, 0, 0)"
| "rank (AtCollections cs) = (1, length cs, 0)"
| "rank (AtItems used fs cs) = (1, length cs, Suc (length fs))"
| "rank Repaired = (0, 0, 0)"
| "rank (Crashed e) = (0, 0, 0)"

abbreviation rank_order :: "((nat \<times> nat \<times> nat) \<times> nat \<times> nat \<times> nat) set" where
  "rank_order \<equiv> less_than <*lex*> less_than <*lex*> less_than"

lemma resume_rank:
  assumes "resume r k = (t', s')" and "\<And>a. (rank (k a), m) \<in> rank_order" and "((0, 0, 0), m) \<in> rank_order"
  shows "(rank t', m) \<in> rank_order"
  using assms by (cases "(r, k)" rule: resume.cases) auto

lemma turn_decreases: "repair_turn R st t s = Some (t', s') \<Longrightarrow> (rank t', rank t) \<in> rank_order"
proof (induction R st t s rule: repair_turn.induct)
  case (5 R st used f fs cs s)
  then show ?case
    by (auto split: if_splits prod.splits sum.splits elim!: resume_rank)
qed (auto elim!: resume_rank split: option.splits)

lemma repair_terminates: "wfp (\<lambda>y x. repair_step R storages x y)"
proof (rule wfp_if_convertible_to_wfp [where f = "\<lambda>x. map rank (fst x)"])
  show "wfp (\<lambda>x y. (x, y) \<in> listrel1 rank_order)"
    by (simp add: wfp_wf_eq wf_listrel1_iff wf_lex_prod)
  fix y x
  assume "repair_step R storages x y"
  then show "(map rank (fst y), map rank (fst x)) \<in> listrel1 rank_order"
  proof (cases rule: repair_step.cases)
    case (1 i tasks s t s')
    from turn_decreases [OF 1(4)] 1(3) show ?thesis
      unfolding 1(1,2) fst_conv listrel1_iff_update
      by (intro exI [of _ "rank (tasks ! i)"] exI [of _ i]) (simp flip: map_update)
  qed
qed

lemma repair_turn_goes_on: "\<not> repair_over t \<Longrightarrow> repair_turn R st t s \<noteq> None"
  by (cases "(R, st, t, s)" rule: repair_turn.cases) auto


text \<open>
  C22. Repairing always ends, however the tasks of the storages interleave: there is no infinite
  run, and a run that cannot go on has finished every task and has a result.
\<close>
theorem repair_always_ends:
  assumes "rtranclp (repair_step R storages) (repair_start storages w) (tasks, w', failed)"
    and "\<nexists>x. repair_step R storages (tasks, w', failed) x"
  shows "wfp (\<lambda>y x. repair_step R storages x y) \<and> (\<exists>r. repair_result tasks failed = Some r)"
proof -
  have "repair_over (tasks ! i)" if "i < length tasks" for i
  proof (rule ccontr)
    assume "\<not> repair_over (tasks ! i)"
    then have "repair_turn R (ns_storage (storages ! i)) (tasks ! i) (w', failed) \<noteq> None"
      by (rule repair_turn_goes_on)
    then obtain t s where "repair_turn R (ns_storage (storages ! i)) (tasks ! i) (w', failed) = Some (t, s)"
      by (metis not_None_eq surj_pair)
    from repair_step.intros [of i tasks R storages, OF that this] show False using assms(2) by blast
  qed
  then have "list_all repair_over tasks" by (simp add: list_all_length)
  then show ?thesis by (simp add: repair_terminates repair_result_def)
qed

section \<open>What is reported\<close>

text \<open>
  C15. The number that a repair reports is exactly how many operations on storages failed plus
  how many items without a UID were left as they were, modulo 2 to the 32, however the tasks of
  the storages interleave: with fewer than that, success means that every storage, every
  collection and every item was dealt with.
\<close>
theorem repair_report_exact:
  assumes "no_panics R" and "repair_storages (tallying R) storages (w, no_tally) r (w', t)"
  shows "tl_updates t \<le> tl_lacking t \<and>
    r = (let n = tl_errors t + (tl_lacking t - tl_updates t) in
         if 2 ^ 32 dvd n then Inr ()
         else bail (fmt [''A total of '', show_nat (n mod 2 ^ 32), '' operations failed.'']))"
  using assms(2)
proof cases
  case (1 tasks c)
  have over: "list_all repair_over tasks" using 1(2) by (auto simp: repair_result_def split: if_splits)
  have "repair_inv R storages (tasks, (w', t), c)" by (rule repairs.inv_reachable [OF 1(1)])
  with assms(1) have "counted 0 t c" by (simp only: repair_inv.simps nothing_pending [OF over] simp_thms)
  then have t: "tl_updates t \<le> tl_lacking t"
    and c: "c = (fetch_add 1 ^^ (tl_errors t + (tl_lacking t - tl_updates t))) 0"
    by (simp_all add: counted_def fetch_add_pow)
  show ?thesis
    using 1(2) over t errors.bumps_zero_iff [of "tl_errors t + (tl_lacking t - tl_updates t)"]
      errors.reads_bumps [of "tl_errors t + (tl_lacking t - tl_updates t)"]
    by (auto simp: repair_result_def c Let_def split: if_splits)
qed

text \<open>
  A run of a repair of one storage, from what its task does alone.
\<close>

lemma repair_one:
  assumes "repair_storage R storage (w, 0) = (r, (w', failed))"
  shows "rtranclp (repair_step R [storage]) (repair_start [storage] w) ([after r Repaired], w', failed)"
  using alone_among_others [of R "[storage]" 0 Discovering "(w, 0)" "after r Repaired" "(w', failed)" "[Discovering]"]
    alone_storage [OF assms] by (simp add: repair_start_def)

text \<open>
  A storage whose task panics is not counted as a failure: when it is the only one, the
  repair is reported as a success.
\<close>
theorem panic_reported_as_success:
  assumes "ra_discover R (ns_storage st) w = (Inl (Panic p), w')"
  shows "repair_storages R [st] w (Inr ()) w'"
proof (rule repair_storages.intros)
  have "repair_storage R st (w, 0) = (Inl (Panic p), (w', 0))"
    by (simp add: repair_storage_def counting_def sbind_def assms)
  from repair_one [OF this]
  show "rtranclp (repair_step R [st]) (repair_start [st] w) ([Crashed (Panic p)], w', 0)" by simp
qed (simp add: repair_result_def)

section \<open>A repair to try\<close>

lemma twins_run:
  "repair_storage (tallying twins_api) \<lparr>ns_name = ''a'', ns_storage = ()\<rparr> (((), no_tally), 0) =
     (Inr (), (((), \<lparr>tl_lacking = 2, tl_updates = 1, tl_errors = 0\<rparr>), 1))"
  by code_simp

theorem repair_report_exact_witness:
  "repair_storages (tallying twins_api) [\<lparr>ns_name = ''a'', ns_storage = ()\<rparr>] ((), no_tally)
     (Inl (Err [''A total of 1 operations failed.''])) ((), \<lparr>tl_lacking = 2, tl_updates = 1, tl_errors = 0\<rparr>)"
proof -
  let ?t = "\<lparr>tl_lacking = 2, tl_updates = 1, tl_errors = 0\<rparr>"
  have safe: "no_panics twins_api" by (simp add: no_panics_def twins_api_def)
  obtain r where r: "repair_result [Repaired :: (nat \<times> string option) repair_task] 1 = Some r"
    by (simp add: repair_result_def)
  have run: "repair_storages (tallying twins_api) [\<lparr>ns_name = ''a'', ns_storage = ()\<rparr>] ((), no_tally) r ((), ?t)"
    by (rule repair_storages.intros [OF _ r]) (use repair_one [OF twins_run] in simp)
  have "show_nat 1 = ''1''" by code_simp
  with repair_report_exact [OF safe run] have "r = Inl (Err [''A total of 1 operations failed.''])"
    by (simp add: bail_def fmt_def)
  with run show ?thesis by simp
qed

theorem repair_always_ends_witness:
  "\<exists>r. repair_result [Repaired :: (nat \<times> string option) repair_task] 1 = Some r"
proof -
  have reach: "rtranclp (repair_step (tallying twins_api) [\<lparr>ns_name = ''a'', ns_storage = ()\<rparr>])
      (repair_start [\<lparr>ns_name = ''a'', ns_storage = ()\<rparr>] ((), no_tally))
      ([Repaired], ((), \<lparr>tl_lacking = 2, tl_updates = 1, tl_errors = 0\<rparr>), 1)"
    using repair_one [OF twins_run] by simp
  have stuck: "\<nexists>x. repair_step (tallying twins_api) [\<lparr>ns_name = ''a'', ns_storage = ()\<rparr>]
      ([Repaired], ((), \<lparr>tl_lacking = 2, tl_updates = 1, tl_errors = 0\<rparr>), 1) x"
    by (auto elim!: repair_stepE)
  from repair_always_ends [OF reach stuck] show ?thesis ..
qed

theorem panic_reported_as_success_witness:
  "repair_storages (twins_api\<lparr>ra_discover := (\<lambda>_ w. (Inl (Panic ''boom''), w))\<rparr>)
     [\<lparr>ns_name = ''a'', ns_storage = ()\<rparr>] () (Inr ()) ()"
  by (rule panic_reported_as_success) simp

end
