(* ===== verification/Interaction.thy ===== *)
theory Interaction
  imports Pair_Config
begin

text \<open>
  The interactive and synchronising half of the program acts on a world: the terminal,
  temporary files, child processes, the status database and the two storages of a pair. The
  world is an opaque type \<open>'w\<close>; what the program does to it through the standard library and
  the \<^verbatim>\<open>vstorage\<close> crate is the record \<open>shell\<close>. A computation is a function from the world to
  a result and the world it leaves; it is \<open>None\<close> when a loop of the program does not end. Log
  messages are left out, what is printed is not.
\<close>

section \<open>Plans\<close>

text \<open>The types of \<^verbatim>\<open>vstorage\<close> that the program looks into.\<close>

datatype side = SideA | SideB

record item_side =
  is_data :: string
  is_href :: string
  is_etag :: string
  is_uid :: string

record conflict_info =
  info_a :: item_side
  info_b :: item_side

record mapping =
  map_alias :: string
  map_href_a :: string
  map_href_b :: string

datatype item_op = ItemConflict conflict_info | OtherItemOp "string option" string

datatype property_op_kind = PropertyConflict string string | OtherPropertyOp string

record property_op =
  po_kind :: property_op_kind
  po_property :: string
  po_mapping :: mapping

datatype operation =
    FlushStaleMappings "string list"
  | CollectionOp string
  | Item item_op
  | Property property_op

type_synonym plan = "(failure + operation) list"

section \<open>The world\<close>

record ('w, 'temp, 'child, 'p, 'db) shell =
  sh_print :: "string \<Rightarrow> 'w \<Rightarrow> 'w"                                       \<comment> \<open>\<^verbatim>\<open>print!\<close>, \<^verbatim>\<open>println!\<close>\<close>
  sh_flush :: "'w \<Rightarrow> (failure + unit) \<times> 'w"
  sh_read_line :: "'w \<Rightarrow> (failure + string) \<times> 'w"                       \<comment> \<open>empty at end of file\<close>
  sh_temp_new :: "'w \<Rightarrow> (failure + 'temp) \<times> 'w"
  sh_temp_write :: "'temp \<Rightarrow> string \<Rightarrow> 'w \<Rightarrow> (failure + unit) \<times> 'w"
  sh_temp_path :: "'temp \<Rightarrow> string"
  sh_temp_rewind :: "'temp \<Rightarrow> 'w \<Rightarrow> (failure + unit) \<times> 'w"
  sh_temp_read :: "'temp \<Rightarrow> 'w \<Rightarrow> (failure + string) \<times> 'w"
  sh_spawn :: "string list \<Rightarrow> 'w \<Rightarrow> (failure + 'child) \<times> 'w"            \<comment> \<open>by argument vector\<close>
  sh_wait :: "'child \<Rightarrow> 'w \<Rightarrow> (failure + bool \<times> string) \<times> 'w"          \<comment> \<open>success, and the status as text\<close>
  sh_sync :: "'w \<Rightarrow> 'w"
  sh_item_hash :: "string \<Rightarrow> string"
  sh_update_item :: "'p \<Rightarrow> side \<Rightarrow> string \<Rightarrow> string \<Rightarrow> string \<Rightarrow> 'w \<Rightarrow> (failure + unit) \<times> 'w"
    \<comment> \<open>the reference, the etag and the item\<close>
  sh_set_property :: "'p \<Rightarrow> side \<Rightarrow> string \<Rightarrow> string \<Rightarrow> string \<Rightarrow> 'w \<Rightarrow> (failure + unit) \<times> 'w"
    \<comment> \<open>the collection, the property and its value\<close>
  sh_b_first :: "'w \<Rightarrow> bool"                                            \<comment> \<open>which branch of \<^verbatim>\<open>join!\<close> goes first\<close>
  sh_status_open :: "string \<Rightarrow> 'w \<Rightarrow> (failure + 'db option) \<times> 'w"
  sh_status_create :: "string \<Rightarrow> 'w \<Rightarrow> (failure + 'db) \<times> 'w"
  sh_plan_new :: "'p \<Rightarrow> 'db option \<Rightarrow> 'w \<Rightarrow> (failure + plan) \<times> 'w"
  sh_keep_side :: "side \<Rightarrow> plan \<Rightarrow> plan"                                \<comment> \<open>\<^verbatim>\<open>resolve_conflicts(.., KeepSideResolver)\<close>\<close>
  sh_execute :: "'p \<Rightarrow> plan \<Rightarrow> 'db \<Rightarrow> 'w \<Rightarrow> ((failure + (failure + unit)) \<times> nat) \<times> 'w"
    \<comment> \<open>with the number of calls of the error handler\<close>
  sh_discover :: "'p \<Rightarrow> side \<Rightarrow> 'w \<Rightarrow> (failure + (string \<times> string) list) \<times> 'w"
  sh_monitor :: "'p \<Rightarrow> side \<Rightarrow> u64 \<Rightarrow> 'w \<Rightarrow> (failure + unit) \<times> 'w"
  sh_next_event :: "'p \<Rightarrow> 'w \<Rightarrow> 'w option"
    \<comment> \<open>the first event of either monitor; none when no event ever comes\<close>
  sh_write_fd :: "int \<Rightarrow> string \<Rightarrow> 'w \<Rightarrow> (failure + unit) \<times> 'w"
  sh_is_conflict :: "operation \<Rightarrow> bool"
  sh_op_uid :: "item_op \<Rightarrow> string option"
  sh_show_item :: "item_op \<Rightarrow> string"
  sh_show_property :: "property_op \<Rightarrow> string"

section \<open>Computations\<close>

type_synonym ('w, 'a) io = "'w \<Rightarrow> ((failure + 'a) \<times> 'w) option"

definition io_ret :: "'a \<Rightarrow> ('w, 'a) io" where
  "io_ret a w = Some (Inr a, w)"

definition io_lift :: "('w \<Rightarrow> (failure + 'a) \<times> 'w) \<Rightarrow> ('w, 'a) io" where
  "io_lift m w = Some (m w)"

definition io_bind :: "('w, 'a) io \<Rightarrow> ('a \<Rightarrow> ('w, 'b) io) \<Rightarrow> ('w, 'b) io" where
  "io_bind m f w =
     (case m w of
        None \<Rightarrow> None
      | Some (Inl e, w') \<Rightarrow> Some (Inl e, w')
      | Some (Inr a, w') \<Rightarrow> f a w')"

definition io_context :: "string \<Rightarrow> ('w, 'a) io \<Rightarrow> ('w, 'a) io" where
  "io_context c m w = (case m w of None \<Rightarrow> None | Some (r, w') \<Rightarrow> Some (with_context c r, w'))"

text \<open>A \<^verbatim>\<open>match\<close> on a result: an error is a value, a panic is not.\<close>

definition io_try :: "('w, 'a) io \<Rightarrow> ('w, string list + 'a) io" where
  "io_try m w =
     (case m w of
        None \<Rightarrow> None
      | Some (Inr a, w') \<Rightarrow> Some (Inr (Inr a), w')
      | Some (Inl (Err ms), w') \<Rightarrow> Some (Inr (Inl ms), w')
      | Some (Inl (Panic p), w') \<Rightarrow> Some (Inl (Panic p), w'))"

abbreviation io_print :: "('w, 'temp, 'child, 'p, 'db) shell \<Rightarrow> string \<Rightarrow> ('w, unit) io" where
  "io_print S s \<equiv> (\<lambda>w. Some (Inr (), sh_print S s w))"

lemma io_ret_simps [simp]: "io_ret a w = Some (Inr a, w)"
  by (simp add: io_ret_def)

lemma io_bind_cases:
  "m w = None \<Longrightarrow> io_bind m f w = None"
  "m w = Some (Inl e, w') \<Longrightarrow> io_bind m f w = Some (Inl e, w')"
  "m w = Some (Inr a, w') \<Longrightarrow> io_bind m f w = f a w'"
  by (simp_all add: io_bind_def)

lemma io_bind_lift [simp]:
  "io_bind (io_lift m) f w = (case m w of (Inl e, w') \<Rightarrow> Some (Inl e, w') | (Inr a, w') \<Rightarrow> f a w')"
  by (simp add: io_bind_def io_lift_def)

lemma io_bind_ret [simp]: "io_bind (io_ret a) f w = f a w"
  by (simp add: io_bind_def)

lemma io_bind_print [simp]: "io_bind (io_print S s) f w = f () (sh_print S s w)"
  by (simp add: io_bind_def)

lemma io_bind_eq_Some_iff:
  "io_bind m f w = Some (Inr b, w2) \<longleftrightarrow> (\<exists>a w1. m w = Some (Inr a, w1) \<and> f a w1 = Some (Inr b, w2))"
  by (auto simp: io_bind_def split: option.splits prod.splits sum.splits)

lemma io_bind_eq_None_iff:
  "io_bind m f w = None \<longleftrightarrow> m w = None \<or> (\<exists>a w1. m w = Some (Inr a, w1) \<and> f a w1 = None)"
  by (auto simp: io_bind_def split: option.splits prod.splits sum.splits)

lemma io_lift_not_None [simp]: "io_lift m w \<noteq> None"
  by (simp add: io_lift_def)

lemma io_context_eq_None_iff [simp]: "io_context c m w = None \<longleftrightarrow> m w = None"
  by (simp add: io_context_def split: option.splits)

lemma io_context_eq_Inr_iff [simp]: "io_context c m w = Some (Inr a, w') \<longleftrightarrow> m w = Some (Inr a, w')"
  by (auto simp: io_context_def split: option.splits)

lemma io_try_eq_None_iff [simp]: "io_try m w = None \<longleftrightarrow> m w = None"
  by (auto simp: io_try_def split: option.splits prod.splits sum.splits failure.splits)

lemma io_try_simps:
  "m w = Some (Inr a, w') \<Longrightarrow> io_try m w = Some (Inr (Inr a), w')"
  "m w = Some (Inl (Err ms), w') \<Longrightarrow> io_try m w = Some (Inr (Inl ms), w')"
  by (simp_all add: io_try_def)

text \<open>Lines printed one after the other.\<close>

definition print_lines :: "('w, 'temp, 'child, 'p, 'db) shell \<Rightarrow> string list \<Rightarrow> 'w \<Rightarrow> 'w" where
  "print_lines S ls = fold (sh_print S) ls"

definition newline :: string where
  "newline = [CHR 0x0A]"

definition quoted :: "string \<Rightarrow> string" where
  "quoted s = CHR 0x22 # s @ [CHR 0x22]"

end
