(* ===== verification/Conflict.thy ===== *)
theory Conflict
  imports Interaction
begin

text \<open>
  \<^verbatim>\<open>src/src/conflict.rs\<close>: resolving conflicts by asking the user and running a merge command.
  The two prompts repeat until they understand the answer, so they are partial functions:
  \<open>None\<close> means that the prompt never returns.
\<close>

section \<open>Temporary files and the merge command\<close>

definition write_to_temp_file ::
  "('w, 'temp, 'child, 'p, 'db) shell \<Rightarrow> string \<Rightarrow> 'w \<Rightarrow> (failure + 'temp) \<times> 'w"
where
  "write_to_temp_file S data =
     sbind (scontext ''Creating temporary file'' (sh_temp_new S)) (\<lambda>temp.
     sbind (scontext ''writing into temporary file'' (sh_temp_write S temp data)) (\<lambda>_.
     sret temp))"

definition check_merged ::
  "('w, 'temp, 'child, 'p, 'db) shell \<Rightarrow> string \<Rightarrow> string \<Rightarrow> 'w \<Rightarrow> (failure + string) \<times> 'w"
where
  "check_merged S new_a new_b w =
     (if trim new_a = [] then (bail ''Resolved value A is empty.'', w)
      else if trim new_b = [] then (bail ''Resolved value B is empty.'', w)
      else if trim new_a \<noteq> trim new_b then
        (bail ''Conflict resolution yielded mismatching values.'',
         sh_print S (fmt [''Resulting values are not identical on both sides.'', newline]) w)
      else (Inr new_a, w))"

definition run_merge_command ::
  "('w, 'temp, 'child, 'p, 'db) shell \<Rightarrow> raw_command \<Rightarrow> 'temp \<Rightarrow> 'temp \<Rightarrow> 'w \<Rightarrow> (failure + string) \<times> 'w"
where
  "run_merge_command S c temp_a temp_b =
     sbind (scontext ''executing conflict resolution command''
       (sh_spawn S (argv c @ [sh_temp_path S temp_a, sh_temp_path S temp_b]))) (\<lambda>child.
     sbind (scontext ''waiting for conflict resolution command'' (sh_wait S child)) (\<lambda>(success, status).
     if \<not> success then slift (bail (fmt [''Conflict resolution command failed: '', status]))
     else
       sbind (\<lambda>w. (Inr (), sh_sync S w)) (\<lambda>_.
       sbind (scontext ''seeking in temporary file for A'' (sh_temp_rewind S temp_a)) (\<lambda>_.
       sbind (scontext ''seeking in temporary file for B'' (sh_temp_rewind S temp_b)) (\<lambda>_.
       sbind (scontext ''reading resolved value A'' (sh_temp_read S temp_a)) (\<lambda>new_a.
       sbind (scontext ''reading resolved value B'' (sh_temp_read S temp_b)) (\<lambda>new_b.
       check_merged S new_a new_b)))))))"

text \<open>An error of the merge is logged and becomes no value; a panic stays a panic.\<close>

fun caught :: "(failure + 'a) \<times> 'w \<Rightarrow> (failure + 'a option) \<times> 'w" where
  "caught (Inr a, w) = (Inr (Some a), w)"
| "caught (Inl (Err ms), w) = (Inr None, w)"
| "caught (Inl (Panic p), w) = (Inl (Panic p), w)"

section \<open>Prompts\<close>

datatype yes_no_quit = Yes | No | Quit

datatype property_choice = ChooseA | ChooseB | Custom string | SkipProperty | QuitProperties

definition ask :: "('w, 'temp, 'child, 'p, 'db) shell \<Rightarrow> string \<Rightarrow> 'w \<Rightarrow> (failure + string) \<times> 'w" where
  "ask S prompt =
     sbind (\<lambda>w. (Inr (), sh_print S prompt w)) (\<lambda>_.
     sbind (sh_flush S) (\<lambda>_.
     scontext ''Reading response from stdin'' (sh_read_line S)))"

text \<open>What an answer means, if anything.\<close>

definition yes_no_quit_of :: "string \<Rightarrow> yes_no_quit option" where
  "yes_no_quit_of response =
     (let r = to_lowercase (trim response)
      in if r = [] \<or> r = ''y'' then Some Yes
         else if r = ''n'' then Some No
         else if r = ''q'' then Some Quit
         else None)"

partial_function (option) continue_skip_or_quit ::
  "('w, 'temp, 'child, 'p, 'db) shell \<Rightarrow> string \<Rightarrow> ('w, yes_no_quit) io"
where
  "continue_skip_or_quit S msg w =
     (case ask S (fmt [msg, '' (Y)es, (N)o, or (Q)uit? '']) w of
        (Inl e, w') \<Rightarrow> Some (Inl e, w')
      | (Inr response, w') \<Rightarrow>
          (case yes_no_quit_of response of
             Some answer \<Rightarrow> Some (Inr answer, w')
           | None \<Rightarrow> continue_skip_or_quit S msg w'))"

declare continue_skip_or_quit.simps [code]

definition edit_value ::
  "('w, 'temp, 'child, 'p, 'db) shell \<Rightarrow> string \<Rightarrow> string \<Rightarrow> raw_command \<Rightarrow> 'w \<Rightarrow>
    (failure + string option) \<times> 'w"
where
  "edit_value S value_a value_b c =
     sbind (write_to_temp_file S value_a) (\<lambda>temp_a.
     sbind (write_to_temp_file S value_b) (\<lambda>temp_b.
     (\<lambda>w. caught (sbind (run_merge_command S c temp_a temp_b) (\<lambda>s. sret (trim s)) w))))"

partial_function (option) choose_property_value ::
  "('w, 'temp, 'child, 'p, 'db) shell \<Rightarrow> string \<Rightarrow> string \<Rightarrow> raw_command \<Rightarrow> ('w, property_choice) io"
where
  "choose_property_value S value_a value_b c w =
     (case ask S ''Keep (A), (B), (E)dit, (S)kip, or (Q)uit? '' w of
        (Inl e, w') \<Rightarrow> Some (Inl e, w')
      | (Inr response, w') \<Rightarrow>
          (let r = to_lowercase (trim response)
           in if r = ''a'' then Some (Inr ChooseA, w')
              else if r = ''b'' then Some (Inr ChooseB, w')
              else if r = ''e'' then
                (case edit_value S value_a value_b c w' of
                   (Inl e, w'') \<Rightarrow> Some (Inl e, w'')
                 | (Inr (Some value), w'') \<Rightarrow> Some (Inr (Custom value), w'')
                 | (Inr None, w'') \<Rightarrow> choose_property_value S value_a value_b c w'')
              else if r = ''s'' then Some (Inr SkipProperty, w')
              else if r = ''q'' then Some (Inr QuitProperties, w')
              else choose_property_value S value_a value_b c w'))"

declare choose_property_value.simps [code]

section \<open>Uploading what was resolved\<close>

text \<open>
  \<^verbatim>\<open>tokio::join!\<close> of two optional uploads: both are attempted, in either order (a panic of the
  first stops the second), and then the error of the upload into A comes first.
\<close>

fun after_join ::
  "(failure + unit) \<times> 'w \<Rightarrow> ('w \<Rightarrow> (failure + unit) \<times> 'w) \<Rightarrow> ((failure + unit) \<times> (failure + unit)) \<times> 'w"
where
  "after_join (Inl (Panic p), w) second = ((Inl (Panic p), Inl (Panic p)), w)"
| "after_join (first, w) second = (case second w of (r, w') \<Rightarrow> ((first, r), w'))"

definition join_uploads ::
  "('w, 'temp, 'child, 'p, 'db) shell \<Rightarrow> ('w \<Rightarrow> (failure + unit) \<times> 'w) option \<Rightarrow>
    ('w \<Rightarrow> (failure + unit) \<times> 'w) option \<Rightarrow> 'w \<Rightarrow> (failure + unit) \<times> 'w"
where
  "join_uploads S task_a task_b w =
     (let a = (case task_a of None \<Rightarrow> sret () | Some t \<Rightarrow> t);
          b = (case task_b of None \<Rightarrow> sret () | Some t \<Rightarrow> t)
      in if sh_b_first S w
         then (case after_join (b w) a of ((rb, ra), w') \<Rightarrow> (rbind ra (\<lambda>_. rb), w'))
         else (case after_join (a w) b of ((ra, rb), w') \<Rightarrow> (rbind ra (\<lambda>_. rb), w')))"

definition upload_resolved_item ::
  "('w, 'temp, 'child, 'p, 'db) shell \<Rightarrow> 'p \<Rightarrow> item_side \<Rightarrow> item_side \<Rightarrow> string \<Rightarrow> 'w \<Rightarrow> (failure + unit) \<times> 'w"
where
  "upload_resolved_item S pair a b new =
     join_uploads S
       (if sh_item_hash S new \<noteq> sh_item_hash S (is_data a)
        then Some (scontext ''uploading resolved item into A''
          (sh_update_item S pair SideA (is_href a) (is_etag a) new))
        else None)
       (if sh_item_hash S new \<noteq> sh_item_hash S (is_data b)
        then Some (scontext ''uploading resolved item into B''
          (sh_update_item S pair SideB (is_href b) (is_etag b) new))
        else None)"

definition upload_resolved_property ::
  "('w, 'temp, 'child, 'p, 'db) shell \<Rightarrow> 'p \<Rightarrow> string \<Rightarrow> mapping \<Rightarrow> string \<Rightarrow> string \<Rightarrow> string \<Rightarrow> 'w \<Rightarrow>
    (failure + unit) \<times> 'w"
where
  "upload_resolved_property S pair property m orig_a orig_b new_value =
     join_uploads S
       (if new_value \<noteq> orig_a
        then Some (scontext ''setting resolved property on A''
          (sh_set_property S pair SideA (map_href_a m) property new_value))
        else None)
       (if new_value \<noteq> orig_b
        then Some (scontext ''setting resolved property on B''
          (sh_set_property S pair SideB (map_href_b m) property new_value))
        else None)"

section \<open>Resolving the conflicts of a pair\<close>

text \<open>The part of the loop over items after the user has said yes.\<close>

definition resolve_item ::
  "('w, 'temp, 'child, 'p, 'db) shell \<Rightarrow> 'p \<Rightarrow> raw_command \<Rightarrow> conflict_info \<Rightarrow> 'w \<Rightarrow> (failure + unit) \<times> 'w"
where
  "resolve_item S pair c info =
     sbind (scontext ''writing item A to temp file'' (write_to_temp_file S (is_data (info_a info)))) (\<lambda>temp_a.
     sbind (scontext ''writing item B to temp file'' (write_to_temp_file S (is_data (info_b info)))) (\<lambda>temp_b.
     sbind (\<lambda>w. caught (run_merge_command S c temp_a temp_b w)) (\<lambda>merged.
     case merged of
       None \<Rightarrow> sret ()
     | Some new \<Rightarrow> upload_resolved_item S pair (info_a info) (info_b info) new)))"

fun resolve_items ::
  "('w, 'temp, 'child, 'p, 'db) shell \<Rightarrow> 'p named_pair \<Rightarrow> raw_command \<Rightarrow> nat \<Rightarrow> nat \<Rightarrow>
    conflict_info list \<Rightarrow> ('w, bool) io"
where
  "resolve_items S pair c count i [] = io_ret True"
| "resolve_items S pair c count i (info # rest) =
     io_bind (io_print S (fmt [''Next is item '', show_nat (i + 1), ''/'', show_nat count, '', with uid '',
       quoted (is_uid (info_a info)), ''.'', newline])) (\<lambda>_.
     io_bind (continue_skip_or_quit S ''Resolve it manually?'') (\<lambda>answer.
     case answer of
       Yes \<Rightarrow>
         io_bind (io_lift (resolve_item S (pair_inner pair) c info)) (\<lambda>_.
         resolve_items S pair c count (i + 1) rest)
     | No \<Rightarrow> resolve_items S pair c count (i + 1) rest
     | Quit \<Rightarrow>
         io_bind (io_print S (fmt [''Skipping all remaining conflicts for pair '', quoted (pair_name pair), ''.'', newline]))
           (\<lambda>_. io_ret False)))"

definition resolve_item_conflicts ::
  "('w, 'temp, 'child, 'p, 'db) shell \<Rightarrow> 'p named_pair \<Rightarrow> conflict_info list \<Rightarrow> raw_command \<Rightarrow> ('w, bool) io"
where
  "resolve_item_conflicts S pair conflicts c = resolve_items S pair c (length conflicts) 0 conflicts"

fun resolve_properties ::
  "('w, 'temp, 'child, 'p, 'db) shell \<Rightarrow> 'p named_pair \<Rightarrow> raw_command \<Rightarrow> nat \<Rightarrow> nat \<Rightarrow>
    property_op list \<Rightarrow> ('w, unit) io"
where
  "resolve_properties S pair c count i [] = io_ret ()"
| "resolve_properties S pair c count i (op # rest) =
     (case po_kind op of
        OtherPropertyOp _ \<Rightarrow> io_lift (slift (Inl (Panic ''internal error: entered unreachable code'')))
      | PropertyConflict value_a value_b \<Rightarrow>
          io_bind (\<lambda>w. Some (Inr (), print_lines S
            [fmt [''Property '', show_nat (i + 1), ''/'', show_nat count, '': '', quoted (po_property op),
               '' on collection '', quoted (map_alias (po_mapping op)), '':'', newline],
             fmt [''  A: '', quoted value_a, newline], fmt [''  B: '', quoted value_b, newline]] w)) (\<lambda>_.
          io_bind (choose_property_value S value_a value_b c) (\<lambda>choice.
          let upload = (\<lambda>resolved.
            io_bind (io_lift (upload_resolved_property S (pair_inner pair) (po_property op) (po_mapping op)
              value_a value_b resolved)) (\<lambda>_. resolve_properties S pair c count (i + 1) rest))
          in case choice of
               ChooseA \<Rightarrow> upload value_a
             | ChooseB \<Rightarrow> upload value_b
             | Custom value \<Rightarrow> upload value
             | SkipProperty \<Rightarrow> resolve_properties S pair c count (i + 1) rest
             | QuitProperties \<Rightarrow>
                 io_print S (fmt [''Skipping all remaining properties for pair '', quoted (pair_name pair), ''.'', newline]))))"

definition resolve_property_conflicts ::
  "('w, 'temp, 'child, 'p, 'db) shell \<Rightarrow> 'p named_pair \<Rightarrow> property_op list \<Rightarrow> raw_command \<Rightarrow> ('w, unit) io"
where
  "resolve_property_conflicts S pair conflicts c = resolve_properties S pair c (length conflicts) 0 conflicts"

text \<open>\<^verbatim>\<open>NamedPair::create_plan\<close> of \<^verbatim>\<open>src/src/main.rs\<close>.\<close>

definition create_plan ::
  "('w, 'temp, 'child, 'p, 'db) shell \<Rightarrow> 'p named_pair \<Rightarrow> 'w \<Rightarrow> (failure + plan) \<times> 'w"
where
  "create_plan S pair =
     sbind (scontext (fmt [''openstatus db for '', pair_name pair]) (sh_status_open S (pair_status_path pair)))
       (\<lambda>status. sh_plan_new S (pair_inner pair) status)"

text \<open>The conflicts of a plan; its errors and its other operations are passed over.\<close>

fun item_conflicts :: "plan \<Rightarrow> conflict_info list" where
  "item_conflicts [] = []"
| "item_conflicts (Inr (Item (ItemConflict info)) # ops) = info # item_conflicts ops"
| "item_conflicts (_ # ops) = item_conflicts ops"

fun is_property_conflict :: "property_op \<Rightarrow> bool" where
  "is_property_conflict op = (case po_kind op of PropertyConflict _ _ \<Rightarrow> True | OtherPropertyOp _ \<Rightarrow> False)"

fun property_conflicts :: "plan \<Rightarrow> property_op list" where
  "property_conflicts [] = []"
| "property_conflicts (Inr (Property op) # ops) =
     (if is_property_conflict op then op # property_conflicts ops else property_conflicts ops)"
| "property_conflicts (_ # ops) = property_conflicts ops"

definition interactive_resolution ::
  "('w, 'temp, 'child, 'p, 'db) shell \<Rightarrow> 'p named_pair \<Rightarrow> ('w, unit) io"
where
  "interactive_resolution S pair =
     (case pair_resolution pair of
        None \<Rightarrow> io_lift (slift (bail (fmt [''No conflict resolution command for '', pair_name pair, ''.''])))
      | Some KeepA \<Rightarrow> io_ret ()
      | Some KeepB \<Rightarrow> io_ret ()
      | Some (Cmd c) \<Rightarrow>
          io_bind (io_lift (create_plan S pair)) (\<lambda>plan.
          let items = item_conflicts plan; properties = property_conflicts plan
          in if items = [] \<and> properties = [] then io_ret ()
             else
               io_bind (io_print S (fmt [''Resolving '', show_nat (length items), '' item conflicts and '',
                 show_nat (length properties), '' property conflicts for pair '', quoted (pair_name pair), ''.'', newline])) (\<lambda>_.
               io_bind (resolve_item_conflicts S pair items c) (\<lambda>go_on.
               if \<not> go_on then io_ret ()
               else
                 io_bind (resolve_property_conflicts S pair properties c) (\<lambda>_.
                 io_print S (fmt [''No conflicts left for pair '', quoted (pair_name pair), ''.'', newline]))))))"

end
