(* ===== verification/Sync.thy ===== *)
theory Sync
  imports Conflict Error_Counter
begin

text \<open>
  Synchronising pairs, from \<^verbatim>\<open>src/src/main.rs\<close>: resolving the conflicts of a plan, printing it,
  executing it once (\<^verbatim>\<open>sync_once\<close>, \<^verbatim>\<open>sync\<close>), resolving conflicts and listing collections for
  every pair, and one turn of the daemon's loop.
\<close>

section \<open>Plans\<close>

definition apply_conflict_resolution_to_plan ::
  "('w, 'temp, 'child, 'p, 'db) shell \<Rightarrow> 'p named_pair \<Rightarrow> plan \<Rightarrow> plan"
where
  "apply_conflict_resolution_to_plan S pair plan =
     (case pair_resolution pair of
        Some KeepA \<Rightarrow> sh_keep_side S SideA plan
      | Some KeepB \<Rightarrow> sh_keep_side S SideB plan
      | _ \<Rightarrow> plan)"

record plan_counts =
  pc_collections :: nat
  pc_items :: nat
  pc_properties :: nat
  pc_conflicts :: nat
  pc_stale :: nat

text \<open>What the loop prints and counts for one operation.\<close>

definition count_operation ::
  "('w, 'temp, 'child, 'p, 'db) shell \<Rightarrow> failure + operation \<Rightarrow> plan_counts \<Rightarrow> plan_counts \<times> string list"
where
  "count_operation S result n =
     (case result of
        Inl _ \<Rightarrow> (n, [])
      | Inr operation \<Rightarrow>
          (case operation of
             FlushStaleMappings uids \<Rightarrow> (n\<lparr>pc_stale := pc_stale n + length uids\<rparr>, [])
           | CollectionOp shown \<Rightarrow>
               (n\<lparr>pc_collections := pc_collections n + 1\<rparr>, [fmt [''-> Collection '', shown, newline]])
           | Item op \<Rightarrow>
               (n\<lparr>pc_items := pc_items n + 1,
                  pc_conflicts := pc_conflicts n + (if sh_is_conflict S operation then 1 else 0)\<rparr>,
                [case sh_op_uid S op of
                   Some uid \<Rightarrow> fmt [''-> Item '', uid, '': '', sh_show_item S op, newline]
                 | None \<Rightarrow> fmt [''-> Item: '', sh_show_item S op, newline]])
           | Property op \<Rightarrow>
               (n\<lparr>pc_properties := pc_properties n + 1,
                  pc_conflicts := pc_conflicts n + (if sh_is_conflict S operation then 1 else 0)\<rparr>,
                [fmt [''-> Property '', po_property op, '': '', sh_show_property S op, newline]])))"

fun collect_plan ::
  "('w, 'temp, 'child, 'p, 'db) shell \<Rightarrow> plan \<Rightarrow> plan_counts \<Rightarrow> plan \<Rightarrow> 'w \<Rightarrow> (plan \<times> plan_counts) \<times> 'w"
where
  "collect_plan S [] n operations w = ((operations, n), w)"
| "collect_plan S (r # rs) n operations w =
     (case count_operation S r n of
        (n', printed) \<Rightarrow> collect_plan S rs n' (operations @ [r]) (print_lines S printed w))"

definition no_counts :: plan_counts where
  "no_counts = \<lparr>pc_collections = 0, pc_items = 0, pc_properties = 0, pc_conflicts = 0, pc_stale = 0\<rparr>"

definition print_and_collect_plan ::
  "('w, 'temp, 'child, 'p, 'db) shell \<Rightarrow> 'p named_pair \<Rightarrow> plan \<Rightarrow> 'w \<Rightarrow> plan \<times> 'w"
where
  "print_and_collect_plan S pair plan w =
     (case collect_plan S plan no_counts []
             (sh_print S (fmt [''>> Storage: '', pair_name pair, newline]) w) of
        ((operations, n), w') \<Rightarrow>
          (operations, print_lines S
            [fmt [show_nat (pc_collections n), '' collection operations, '', show_nat (pc_items n),
               '' item operations, '', show_nat (pc_properties n), '' property operations'', newline],
             fmt [show_nat (pc_conflicts n), '' conflicts detected'', newline],
             fmt [show_nat (pc_stale n), '' stale mappings to flush'', newline],
             newline] w'))"

section \<open>Synchronising once\<close>

text \<open>The world with the counter of errors beside it.\<close>

type_synonym ('w, 'a) counted = "('w \<times> u32, 'a) io"

definition uncounted :: "('w, 'a) io \<Rightarrow> ('w, 'a) counted" where
  "uncounted m = (\<lambda>(w, errors).
     (case m w of None \<Rightarrow> None | Some (r, w') \<Rightarrow> Some (r, w', errors)))"

text \<open>The executor calls its error handler some number of times, also when it fails.\<close>

definition execute_plan ::
  "('w, 'temp, 'child, 'p, 'db) shell \<Rightarrow> 'p named_pair \<Rightarrow> plan \<Rightarrow> ('w, unit) counted"
where
  "execute_plan S pair operations =
     io_bind (uncounted (io_context (fmt [''open_or_create status db for '', pair_name pair])
       (io_lift (sh_status_create S (pair_status_path pair))))) (\<lambda>db.
     (\<lambda>(w, errors).
       (case sh_execute S (pair_inner pair) operations db w of
          ((result, n), w') \<Rightarrow>
            Some (rbind (with_context ''executing plan'' result) (with_context ''execution failed''),
                  w', fetch_add (of_nat n) errors))))"

definition sync_once ::
  "('w, 'temp, 'child, 'p, 'db) shell \<Rightarrow> bool \<Rightarrow> bool \<Rightarrow> 'p named_pair \<Rightarrow> ('w, bool) counted"
where
  "sync_once S dry_run interactive pair =
     io_bind (uncounted (io_context ''Creating plan'' (io_lift (create_plan S pair)))) (\<lambda>plan.
     io_bind (uncounted (\<lambda>w. case print_and_collect_plan S pair (apply_conflict_resolution_to_plan S pair plan) w of
        (operations, w') \<Rightarrow> Some (Inr operations, w'))) (\<lambda>operations.
     io_bind (if interactive then uncounted (continue_skip_or_quit S ''Execute plan?'') else io_ret Yes) (\<lambda>answer.
     case answer of
       No \<Rightarrow> io_bind (uncounted (io_print S (fmt [''Sync skipped for pair '', [CHR 0x27], pair_name pair, [CHR 0x27], ''.'', newline])))
               (\<lambda>_. io_ret True)
     | Quit \<Rightarrow> io_bind (uncounted (io_print S (fmt [''Sync cancelled.'', newline]))) (\<lambda>_. io_ret False)
     | Yes \<Rightarrow>
         if dry_run then io_ret True
         else io_bind (execute_plan S pair operations) (\<lambda>_. io_ret True))))"

text \<open>
  The loop of \<^verbatim>\<open>sync\<close>: an error of a pair is counted and the next pair follows; quitting ends
  the loop.
\<close>

fun sync_pairs ::
  "('w, 'temp, 'child, 'p, 'db) shell \<Rightarrow> bool \<Rightarrow> bool \<Rightarrow> 'p named_pair list \<Rightarrow> ('w, unit) counted"
where
  "sync_pairs S dry_run interactive [] = io_ret ()"
| "sync_pairs S dry_run interactive (pair # pairs) =
     io_bind (io_try (io_context (fmt [''Synchronising pair '', pair_name pair])
       (sync_once S dry_run interactive pair))) (\<lambda>result.
     case result of
       Inr True \<Rightarrow> sync_pairs S dry_run interactive pairs
     | Inr False \<Rightarrow> io_ret ()
     | Inl err \<Rightarrow>
         io_bind (\<lambda>(w, errors). Some (Inr (), w, fetch_add 1 errors)) (\<lambda>_.
         sync_pairs S dry_run interactive pairs))"

definition sync ::
  "('w, 'temp, 'child, 'p, 'db) shell \<Rightarrow> bool \<Rightarrow> bool \<Rightarrow> 'p named_pair list \<Rightarrow> ('w, unit) io"
where
  "sync S dry_run interactive pairs w =
     (case sync_pairs S dry_run interactive pairs (w, 0) of
        None \<Rightarrow> None
      | Some (Inl e, w', errors) \<Rightarrow> Some (Inl e, w')
      | Some (Inr _, w', errors) \<Rightarrow>
          Some (if errors > 0 then bail (fmt [show_nat (unat errors), '' sync operations failed'']) else Inr (), w'))"

section \<open>The other commands on pairs\<close>

fun print_collections ::
  "('w, 'temp, 'child, 'p, 'db) shell \<Rightarrow> (string \<times> string) list \<Rightarrow> 'w \<Rightarrow> 'w"
where
  "print_collections S cs w =
     print_lines S (map (\<lambda>(cid, href). fmt [''- id='', cid, '' href='', href, newline]) cs) w"

definition discover_side ::
  "('w, 'temp, 'child, 'p, 'db) shell \<Rightarrow> 'p named_pair \<Rightarrow> side \<Rightarrow> string \<Rightarrow> string \<Rightarrow> 'w \<Rightarrow> (failure + unit) \<times> 'w"
where
  "discover_side S pair s letter storage_name =
     sbind (sh_discover S (pair_inner pair) s) (\<lambda>disco.
     (\<lambda>w. (Inr (), print_collections S disco
        (sh_print S (fmt [''For pair '', pair_name pair, '', storage '', letter, ''/'', storage_name, '':'', newline]) w))))"

definition discover_pair ::
  "('w, 'temp, 'child, 'p, 'db) shell \<Rightarrow> 'p named_pair \<Rightarrow> 'w \<Rightarrow> (failure + unit) \<times> 'w"
where
  "discover_pair S pair =
     sbind (discover_side S pair SideA ''a'' (fst (pair_names pair))) (\<lambda>_.
     discover_side S pair SideB ''b'' (snd (pair_names pair)))"

fun discover :: "('w, 'temp, 'child, 'p, 'db) shell \<Rightarrow> 'p named_pair list \<Rightarrow> 'w \<Rightarrow> (failure + unit) \<times> 'w" where
  "discover S [] = sret ()"
| "discover S (pair # pairs) = sbind (discover_pair S pair) (\<lambda>_. discover S pairs)"

fun resolve_pairs :: "('w, 'temp, 'child, 'p, 'db) shell \<Rightarrow> 'p named_pair list \<Rightarrow> ('w, unit) io" where
  "resolve_pairs S [] = io_ret ()"
| "resolve_pairs S (pair # pairs) =
     io_bind (io_try (interactive_resolution S pair)) (\<lambda>_. resolve_pairs S pairs)"

definition resolve_conflicts ::
  "('w, 'temp, 'child, 'p, 'db) shell \<Rightarrow> bool \<Rightarrow> 'p named_pair list \<Rightarrow> ('w, unit) io"
where
  "resolve_conflicts S dry_run pairs =
     (if dry_run then io_lift (slift (bail ''dry_run is not implemented for resolve-conflicts''))
      else resolve_pairs S pairs)"

end
