(* ===== verification/Conflict_Props.thy ===== *)
theory Conflict_Props
  imports Conflict
begin

text \<open>
  Properties of conflict resolution: what the prompts do with answers they do not understand
  and at the end of the input, when a merge is accepted, and what is uploaded where.
\<close>

section \<open>A world for the witnesses\<close>

text \<open>
  Lines to be read, what was printed, the temporary files, the content the next merges leave in
  both files, and the uploads made.
\<close>

record demo_world =
  dw_input :: "string list"
  dw_printed :: "string list"
  dw_files :: "string list"
  dw_merged :: "(string \<times> string) list"
  dw_uploads :: "(side \<times> string \<times> string) list"

definition demo_merge :: "demo_world \<Rightarrow> demo_world" where
  "demo_merge w =
     (case (dw_merged w, rev (dw_files w)) of
        ((a, b) # rest, _ # _ # fs) \<Rightarrow> w\<lparr>dw_files := rev fs @ [a, b], dw_merged := rest\<rparr>
      | _ \<Rightarrow> w)"

definition demo_shell :: "(demo_world, nat, bool, unit, unit) shell" where
  "demo_shell =
     \<lparr>sh_print = (\<lambda>s w. w\<lparr>dw_printed := dw_printed w @ [s]\<rparr>),
      sh_flush = (\<lambda>w. (Inr (), w)),
      sh_read_line = (\<lambda>w. case dw_input w of [] \<Rightarrow> (Inr [], w) | l # ls \<Rightarrow> (Inr l, w\<lparr>dw_input := ls\<rparr>)),
      sh_temp_new = (\<lambda>w. (Inr (length (dw_files w)), w\<lparr>dw_files := dw_files w @ [[]]\<rparr>)),
      sh_temp_write = (\<lambda>t s w. (Inr (), w\<lparr>dw_files := (dw_files w)[t := s]\<rparr>)),
      sh_temp_path = show_nat,
      sh_temp_rewind = (\<lambda>t w. (Inr (), w)),
      sh_temp_read = (\<lambda>t w. (Inr (dw_files w ! t), w)),
      sh_spawn = (\<lambda>argv w. (Inr (dw_merged w \<noteq> []), demo_merge w)),
      sh_wait = (\<lambda>c w. (Inr (c, ''exit status: 1''), w)),
      sh_sync = id,
      sh_item_hash = id,
      sh_update_item = (\<lambda>p s href etag new w. (Inr (), w\<lparr>dw_uploads := dw_uploads w @ [(s, href, new)]\<rparr>)),
      sh_set_property = (\<lambda>p s href prop v w. (Inr (), w\<lparr>dw_uploads := dw_uploads w @ [(s, href, v)]\<rparr>)),
      sh_b_first = (\<lambda>_. False),
      sh_status_open = (\<lambda>_ w. (Inr None, w)),
      sh_status_create = (\<lambda>_ w. (Inr (), w)),
      sh_plan_new = (\<lambda>_ _ w. (Inr [Inr (Property \<lparr>po_kind = PropertyConflict ''red'' ''blue'',
         po_property = ''colour'', po_mapping = \<lparr>map_alias = ''work'', map_href_a = ''/a'', map_href_b = ''/b''\<rparr>\<rparr>)], w)),
      sh_keep_side = (\<lambda>_ p. p),
      sh_execute = (\<lambda>_ _ _ w. ((Inr (Inr ()), 0), w)),
      sh_discover = (\<lambda>_ _ w. (Inr [], w)),
      sh_monitor = (\<lambda>_ _ _ w. (Inr (), w)),
      sh_next_event = (\<lambda>_ w. Some w),
      sh_write_fd = (\<lambda>_ _ w. (Inr (), w)),
      sh_is_conflict = (\<lambda>op. case op of Item (ItemConflict _) \<Rightarrow> True
         | Property p \<Rightarrow> is_property_conflict p | _ \<Rightarrow> False),
      sh_op_uid = (\<lambda>_. None), sh_show_item = (\<lambda>_. []), sh_show_property = (\<lambda>_. [])\<rparr>"

definition demo_start :: "string list \<Rightarrow> demo_world" where
  "demo_start ls = \<lparr>dw_input = ls, dw_printed = [], dw_files = [], dw_merged = [], dw_uploads = []\<rparr>"

section \<open>Prompts\<close>

text \<open>The world after a prompt was asked repeatedly and answered with the given lines.\<close>

fun asked :: "('w, 'temp, 'child, 'p, 'db) shell \<Rightarrow> string \<Rightarrow> string list \<Rightarrow> 'w \<Rightarrow> 'w option" where
  "asked S prompt [] w = Some w"
| "asked S prompt (l # ls) w =
     (case ask S prompt w of
        (Inr l', w') \<Rightarrow> if l' = l then asked S prompt ls w' else None
      | (Inl _, _) \<Rightarrow> None)"

text \<open>
  The prompt repeats until it gets an answer it understands: after any number of lines that
  mean nothing it returns the first one that does, whatever its case and the blanks around it.
\<close>
theorem answer_after_retries:
  assumes "asked S (fmt [msg, '' (Y)es, (N)o, or (Q)uit? '']) ls w = Some w1"
    and "\<forall>l \<in> set ls. yes_no_quit_of l = None"
    and "ask S (fmt [msg, '' (Y)es, (N)o, or (Q)uit? '']) w1 = (Inr l, w2)"
    and "yes_no_quit_of l = Some answer"
  shows "continue_skip_or_quit S msg w = Some (Inr answer, w2)"
  using assms(1,2)
proof (induction ls arbitrary: w)
  case Nil
  then show ?case using assms(3,4) by (simp add: continue_skip_or_quit.simps)
next
  case (Cons l ls)
  then obtain w' where "ask S (fmt [msg, '' (Y)es, (N)o, or (Q)uit? '']) w = (Inr l, w')"
    "asked S (fmt [msg, '' (Y)es, (N)o, or (Q)uit? '']) ls w' = Some w1"
    by (auto split: prod.splits sum.splits if_splits)
  with Cons show ?case by (subst continue_skip_or_quit.simps) simp
qed

lemma demo_asked: "snd (ask demo_shell p (demo_start [a, b])) = (demo_start [b])\<lparr>dw_printed := [p]\<rparr>"
  "fst (ask demo_shell p (demo_start [a, b])) = Inr a"
  "ask demo_shell p ((demo_start [b])\<lparr>dw_printed := [p]\<rparr>) = (Inr b, (demo_start [])\<lparr>dw_printed := [p, p]\<rparr>)"
  by (simp_all add: ask_def sbind_def scontext_def demo_shell_def demo_start_def)

theorem answer_after_retries_witness:
  "continue_skip_or_quit demo_shell ''Execute plan?'' (demo_start [''what'', '' Q '']) =
     Some (Inr Quit, (demo_start [])\<lparr>dw_printed := [''Execute plan? (Y)es, (N)o, or (Q)uit? '',
       ''Execute plan? (Y)es, (N)o, or (Q)uit? '']\<rparr>)"
proof -
  let ?p = "fmt [''Execute plan?'', '' (Y)es, (N)o, or (Q)uit? '']"
  have a1: "asked demo_shell ?p [''what''] (demo_start [''what'', '' Q '']) = Some ((demo_start ['' Q ''])\<lparr>dw_printed := [?p]\<rparr>)"
    using demo_asked(1,2) [of ?p "''what''" "'' Q ''"]
    by (cases "ask demo_shell ?p (demo_start [''what'', '' Q ''])") simp
  have a2: "\<forall>l \<in> set [''what'']. yes_no_quit_of l = None" by code_simp
  have a3: "yes_no_quit_of '' Q '' = Some Quit" by code_simp
  have "continue_skip_or_quit demo_shell ''Execute plan?'' (demo_start [''what'', '' Q '']) =
      Some (Inr Quit, (demo_start [])\<lparr>dw_printed := [?p, ?p]\<rparr>)"
    by (rule answer_after_retries [OF a1 a2 demo_asked(3) a3])
  then show ?thesis by (simp add: fmt_def)
qed

lemma eof_means_yes:
  assumes "ask S (fmt [msg, '' (Y)es, (N)o, or (Q)uit? '']) w = (Inr [], w')"
  shows "continue_skip_or_quit S msg w = Some (Inr Yes, w')"
  using assms by (simp add: continue_skip_or_quit.simps yes_no_quit_of_def)

lemma choose_never_returns:
  assumes "choose_property_value S a b c w = Some r"
    and "\<forall>w. E w \<longrightarrow> (\<exists>w'. ask S ''Keep (A), (B), (E)dit, (S)kip, or (Q)uit? '' w = (Inr [], w') \<and> E w')"
  shows "\<not> E w"
  using assms
proof (induction rule: choose_property_value.raw_induct [rotated, consumes 1, case_names step])
  case (step go S a b c w r)
  show ?case
  proof
    assume "E w"
    with step.prems obtain w' where w': "ask S ''Keep (A), (B), (E)dit, (S)kip, or (Q)uit? '' w = (Inr [], w')"
      "E w'" by blast
    with step.hyps have "go S a b c w' = Some r" by simp
    from step.IH [OF this step.prems] w'(2) show False by simp
  qed
qed

lemma resolve_properties_never_returns:
  assumes "\<forall>w. E w \<longrightarrow> (\<exists>w'. ask S ''Keep (A), (B), (E)dit, (S)kip, or (Q)uit? '' w = (Inr [], w') \<and> E w')"
    and "\<forall>s w. E w \<longrightarrow> E (sh_print S s w)"
    and "is_property_conflict op" and "E w"
  shows "resolve_properties S pair c n i (op # rest) w = None"
proof -
  obtain a b where op: "po_kind op = PropertyConflict a b"
    using assms(3) by (auto split: property_op_kind.splits)
  have "E (print_lines S ls w)" if "E w" for ls w
    unfolding print_lines_def using that by (induction ls arbitrary: w) (auto simp: assms(2))
  then have "choose_property_value S a b c (print_lines S ls w) = None" for ls
    using choose_never_returns [OF _ assms(1)] assms(4) by (metis option.exhaust)
  then show ?thesis by (simp add: op io_bind_def)
qed

text \<open>
  C31. At the end of the input, resolving a property conflict never returns: the prompt reads an
  empty answer, which means nothing to it, and asks again for ever. (Resolving the whole pair
  hangs whenever its plan has a property conflict and no item conflict.)
\<close>
theorem resolution_hangs_at_eof:
  assumes "\<forall>w. E w \<longrightarrow> (\<exists>w'. ask S ''Keep (A), (B), (E)dit, (S)kip, or (Q)uit? '' w = (Inr [], w') \<and> E w')"
    and "\<forall>s w. E w \<longrightarrow> E (sh_print S s w)"
    and "pair_resolution pair = Some (Cmd c)"
    and "create_plan S pair w = (Inr plan, w')" and "E w'"
    and "item_conflicts plan = []" and "property_conflicts plan \<noteq> []"
  shows "interactive_resolution S pair w = None"
proof -
  obtain op ops where ops: "property_conflicts plan = op # ops" using assms(7) by (cases "property_conflicts plan") auto
  have "is_property_conflict p" if "p \<in> set (property_conflicts plan)" for p
    using that by (induction plan rule: property_conflicts.induct) (auto split: if_splits)
  then have op: "is_property_conflict op" using ops by simp
  have "resolve_properties S pair c n i (op # ops) (sh_print S s w') = None" for n i s
    by (rule resolve_properties_never_returns [OF assms(1,2) op]) (simp add: assms(2,5))
  then show ?thesis
    by (simp add: interactive_resolution_def assms(3,4,6) ops resolve_item_conflicts_def
        resolve_property_conflicts_def io_bind_def io_lift_def del: resolve_properties.simps)
qed

definition demo_pair_cmd :: "unit named_pair" where
  "demo_pair_cmd = \<lparr>pair_name = ''cal'', pair_inner = (), pair_status_path = [],
     pair_resolution = Some (Cmd \<lparr>command = ''vimdiff'', args = []\<rparr>), pair_names = ([], []), pair_intervals = (0, 0)\<rparr>"

theorem resolution_hangs_at_eof_witness:
  "interactive_resolution demo_shell demo_pair_cmd (demo_start []) = None"
proof (rule resolution_hangs_at_eof)
  show "\<forall>w. dw_input w = [] \<longrightarrow> (\<exists>w'. ask demo_shell ''Keep (A), (B), (E)dit, (S)kip, or (Q)uit? '' w = (Inr [], w') \<and> dw_input w' = [])"
    by (simp add: ask_def sbind_def scontext_def demo_shell_def)
  show "\<forall>s w. dw_input w = [] \<longrightarrow> dw_input (sh_print demo_shell s w) = []"
    by (simp add: demo_shell_def)
  show "create_plan demo_shell demo_pair_cmd (demo_start []) =
     (Inr [Inr (Property \<lparr>po_kind = PropertyConflict ''red'' ''blue'',
         po_property = ''colour'', po_mapping = \<lparr>map_alias = ''work'', map_href_a = ''/a'', map_href_b = ''/b''\<rparr>\<rparr>)], demo_start [])"
    by (simp add: create_plan_def sbind_def scontext_def demo_shell_def demo_pair_cmd_def)
qed (simp_all add: demo_pair_cmd_def demo_start_def)

section \<open>Merging and uploading\<close>

lemma check_merged_ok_iff:
  "check_merged S a b w = (Inr s, w') \<longleftrightarrow> s = a \<and> w' = w \<and> trim a = trim b \<and> trim a \<noteq> []"
  by (auto simp: check_merged_def)


definition demo_merging :: "string \<Rightarrow> string \<Rightarrow> demo_world" where
  "demo_merging a b = (demo_start [])\<lparr>dw_files := [''one'', ''two''], dw_merged := [(a, b)]\<rparr>"


lemma join_none [simp]: "join_uploads S None None w = (Inr (), w)"
  by (simp add: join_uploads_def Let_def)

lemma rbind_Inr [simp]: "rbind r Inr = r"
  by (cases r) simp_all

lemma after_join_idle:
  "after_join (r, w) (sret ()) = ((r, case r of Inl (Panic p) \<Rightarrow> r | _ \<Rightarrow> Inr ()), w)"
proof (cases r)
  case (Inl f)
  then show ?thesis by (cases f) simp_all
qed simp

lemma rbind_idle [simp]:
  fixes r :: "failure + unit"
  shows "rbind r (\<lambda>_. case r of Inl (Panic p) \<Rightarrow> r | _ \<Rightarrow> Inr ()) = r"
    and "rbind (case r of Inl (Panic p) \<Rightarrow> r | _ \<Rightarrow> Inr ()) (\<lambda>_. r) = r"
  by (cases r; simp split: failure.split)+

lemma join_one:
  "join_uploads S (Some t) None w = t w" "join_uploads S None (Some t) w = t w"
proof -
  obtain r w' where t: "t w = (r, w')" by fastforce
  show "join_uploads S (Some t) None w = t w" "join_uploads S None (Some t) w = t w"
    by (simp_all add: join_uploads_def Let_def t after_join_idle del: sret_simps)
      (simp_all add: t)
qed

text \<open>
  A resolved item is uploaded exactly to the sides whose item differs from it, addressed by
  the reference and etag that side had when the plan was made; a side that already has it is
  not touched.
\<close>
theorem upload_only_where_different:
  "upload_resolved_item S p a b new w =
     (if sh_item_hash S new = sh_item_hash S (is_data a) then
        if sh_item_hash S new = sh_item_hash S (is_data b) then (Inr (), w)
        else scontext ''uploading resolved item into B'' (sh_update_item S p SideB (is_href b) (is_etag b) new) w
      else if sh_item_hash S new = sh_item_hash S (is_data b) then
        scontext ''uploading resolved item into A'' (sh_update_item S p SideA (is_href a) (is_etag a) new) w
      else join_uploads S
        (Some (scontext ''uploading resolved item into A'' (sh_update_item S p SideA (is_href a) (is_etag a) new)))
        (Some (scontext ''uploading resolved item into B'' (sh_update_item S p SideB (is_href b) (is_etag b) new))) w)"
  by (simp add: upload_resolved_item_def join_one)

text \<open>
  When the merge command fails, or its result is refused, the conflict is passed over: the
  program goes on without an error and without an upload to either side.
\<close>
theorem failed_merge_keeps_conflict:
  assumes "write_to_temp_file S (is_data (info_a info)) w = (Inr ta, w1)"
    and "write_to_temp_file S (is_data (info_b info)) w1 = (Inr tb, w2)"
    and "run_merge_command S c ta tb w2 = (Inl (Err ms), w3)"
  shows "resolve_item S p c info w = (Inr (), w3)"
  using assms by (simp add: resolve_item_def sbind_def scontext_def)

definition demo_info :: conflict_info where
  "demo_info = \<lparr>info_a = \<lparr>is_data = ''one'', is_href = ''/a/1'', is_etag = ''e1'', is_uid = ''u''\<rparr>,
     info_b = \<lparr>is_data = ''two'', is_href = ''/b/1'', is_etag = ''e2'', is_uid = ''u''\<rparr>\<rparr>"

theorem failed_merge_keeps_conflict_witness:
  "dw_uploads (snd (resolve_item demo_shell () \<lparr>command = ''m'', args = []\<rparr> demo_info (demo_start []))) = []"
proof -
  have 1: "write_to_temp_file demo_shell (is_data (info_a demo_info)) (demo_start []) =
      (Inr 0, (demo_start [])\<lparr>dw_files := [''one'']\<rparr>)" by code_simp
  have 2: "write_to_temp_file demo_shell (is_data (info_b demo_info)) ((demo_start [])\<lparr>dw_files := [''one'']\<rparr>) =
      (Inr 1, (demo_start [])\<lparr>dw_files := [''one'', ''two'']\<rparr>)" by code_simp
  have 3: "run_merge_command demo_shell \<lparr>command = ''m'', args = []\<rparr> 0 1 ((demo_start [])\<lparr>dw_files := [''one'', ''two'']\<rparr>) =
      (Inl (Err [''Conflict resolution command failed: exit status: 1'']), (demo_start [])\<lparr>dw_files := [''one'', ''two'']\<rparr>)"
    by code_simp
  show ?thesis unfolding failed_merge_keeps_conflict [OF 1 2 3] by (simp add: demo_start_def)
qed

end
