(* ===== verification/Sync_Props.thy ===== *)
theory Sync_Props
  imports Sync Conflict_Props
begin

text \<open>
  Properties of synchronising: what a dry run leaves alone, that the summary of a plan counts
  what the plan holds, and which errors are not reported.
\<close>

section \<open>Prompts depend on the terminal only\<close>

lemma continue_same_terminal:
  assumes "continue_skip_or_quit S msg w = Some r" and "\<forall>p. ask S p = ask S' p"
  shows "continue_skip_or_quit S' msg w = Some r"
  using assms
proof (induction rule: continue_skip_or_quit.raw_induct [rotated, consumes 1, case_names step])
  case (step go S msg w r)
  obtain x w' where a: "ask S (fmt [msg, '' (Y)es, (N)o, or (Q)uit? '']) w = (x, w')" by fastforce
  then have a': "ask S' (fmt [msg, '' (Y)es, (N)o, or (Q)uit? '']) w = (x, w')" using step.prems by metis
  from step.hyps a step.IH [of S msg w' r] step.prems show ?case
    by (subst continue_skip_or_quit.simps) (auto simp: a' split: sum.splits option.splits)
qed

lemma continue_cong:
  assumes "\<forall>p. ask S p = ask S' p"
  shows "continue_skip_or_quit S msg = continue_skip_or_quit S' msg"
proof
  fix w
  have "\<forall>p. ask S' p = ask S p" using assms by simp
  then show "continue_skip_or_quit S msg w = continue_skip_or_quit S' msg w"
    using continue_same_terminal [OF _ assms] continue_same_terminal [of S' msg w _ S]
    by (metis not_None_eq)
qed

section \<open>Dry runs\<close>

text \<open>Replacing every operation of the world that changes the storages or the status database.\<close>

abbreviation write_ops ::
  "('w, 'temp, 'child, 'p, 'db) shell \<Rightarrow>
    ('p \<Rightarrow> plan \<Rightarrow> 'db \<Rightarrow> 'w \<Rightarrow> ((failure + (failure + unit)) \<times> nat) \<times> 'w) \<Rightarrow>
    (string \<Rightarrow> 'w \<Rightarrow> (failure + 'db) \<times> 'w) \<Rightarrow>
    ('p \<Rightarrow> side \<Rightarrow> string \<Rightarrow> string \<Rightarrow> string \<Rightarrow> 'w \<Rightarrow> (failure + unit) \<times> 'w) \<Rightarrow>
    ('p \<Rightarrow> side \<Rightarrow> string \<Rightarrow> string \<Rightarrow> string \<Rightarrow> 'w \<Rightarrow> (failure + unit) \<times> 'w) \<Rightarrow>
    ('w, 'temp, 'child, 'p, 'db) shell"
where
  "write_ops S exec create update setp \<equiv>
     S\<lparr>sh_execute := exec, sh_status_create := create, sh_update_item := update, sh_set_property := setp\<rparr>"

lemma write_ops_terminal [simp]:
  "continue_skip_or_quit (write_ops S x c u p) = continue_skip_or_quit S"
  "create_plan (write_ops S x c u p) = create_plan S"
  "apply_conflict_resolution_to_plan (write_ops S x c u p) = apply_conflict_resolution_to_plan S"
proof -
  show "continue_skip_or_quit (write_ops S x c u p) = continue_skip_or_quit S"
    by (intro ext fun_cong [OF continue_cong]) (simp add: ask_def)
qed (simp_all add: create_plan_def apply_conflict_resolution_to_plan_def fun_eq_iff
    split: option.split conflict_resolution.split)

lemma write_ops_collect [simp]:
  "print_and_collect_plan (write_ops S x c u p) = print_and_collect_plan S"
proof -
  have "count_operation (write_ops S x c u p) = count_operation S"
    by (auto simp: count_operation_def fun_eq_iff split: sum.split operation.split option.split)
  moreover have "print_lines (write_ops S x c u p) = print_lines S" by (simp add: print_lines_def fun_eq_iff)
  moreover have "collect_plan (write_ops S x c u p) rs n ops w = collect_plan S rs n ops w" for rs n ops w
    by (induction rs arbitrary: n ops w) (simp_all add: calculation split: prod.split)
  ultimately show ?thesis by (simp add: print_and_collect_plan_def fun_eq_iff)
qed

text \<open>
  A dry run behaves the same whatever executing a plan, creating a status database, or writing
  to a storage would do.
\<close>
lemma dry_run_sync:
  "sync (write_ops S exec create update setp) True interactive pairs w = sync S True interactive pairs w"
proof -
  have once: "sync_once (write_ops S exec create update setp) True interactive pair =
      sync_once S True interactive pair" for pair
    by (simp add: sync_once_def cong: yes_no_quit.case_cong)
  have "sync_pairs (write_ops S exec create update setp) True interactive pairs =
      sync_pairs S True interactive pairs"
    by (induction pairs) (simp_all add: once)
  then show ?thesis by (simp add: sync_def)
qed

section \<open>The summary of a plan\<close>

definition plan_summary :: "('w, 'temp, 'child, 'p, 'db) shell \<Rightarrow> plan \<Rightarrow> plan_counts" where
  "plan_summary S plan =
     (let ops = map projr (filter is_ok plan)
      in \<lparr>pc_collections = length (filter (\<lambda>op. case op of CollectionOp _ \<Rightarrow> True | _ \<Rightarrow> False) ops),
          pc_items = length (filter (\<lambda>op. case op of Item _ \<Rightarrow> True | _ \<Rightarrow> False) ops),
          pc_properties = length (filter (\<lambda>op. case op of Property _ \<Rightarrow> True | _ \<Rightarrow> False) ops),
          pc_conflicts = length (filter (\<lambda>op. (case op of Item _ \<Rightarrow> True | Property _ \<Rightarrow> True | _ \<Rightarrow> False) \<and>
             sh_is_conflict S op) ops),
          pc_stale = length (concat (map (\<lambda>op. case op of FlushStaleMappings uids \<Rightarrow> uids | _ \<Rightarrow> []) ops))\<rparr>)"

definition add_counts :: "plan_counts \<Rightarrow> plan_counts \<Rightarrow> plan_counts" where
  "add_counts m n =
     \<lparr>pc_collections = pc_collections m + pc_collections n, pc_items = pc_items m + pc_items n,
      pc_properties = pc_properties m + pc_properties n, pc_conflicts = pc_conflicts m + pc_conflicts n,
      pc_stale = pc_stale m + pc_stale n\<rparr>"

lemma collect_plan_summary:
  "fst (collect_plan S rs n ops w) = (ops @ rs, add_counts n (plan_summary S rs))"
proof (induction rs arbitrary: n ops w)
  case Nil
  show ?case by (simp add: plan_summary_def add_counts_def)
next
  case (Cons r rs)
  have "add_counts (fst (count_operation S r n)) (plan_summary S rs) = add_counts n (plan_summary S (r # rs))"
    by (cases r) (auto simp: count_operation_def plan_summary_def add_counts_def Let_def split: operation.split)
  then show ?case using Cons.IH by (auto split: prod.split)
qed


section \<open>Errors that are not reported\<close>

text \<open>
  C33. Resolving conflicts never reports an error: whatever goes wrong with a pair is passed
  over, and the program ends as if it had succeeded.
\<close>
theorem resolve_conflicts_hides_errors:
  "resolve_conflicts S False pairs w \<noteq> Some (Inl (Err ms), w')"
proof -
  have "resolve_pairs S pairs w \<noteq> Some (Inl (Err ms), w')"
  proof (induction pairs arbitrary: w)
    case (Cons pair pairs)
    show ?case
    proof (cases "interactive_resolution S pair w")
      case None
      then show ?thesis by (simp add: io_bind_def io_try_def)
    next
      case (Some p)
      obtain r u where p: "p = (r, u)" by fastforce
      show ?thesis
      proof (cases r)
        case (Inl e)
        then show ?thesis using Cons Some p by (cases e) (simp_all add: io_bind_def io_try_def)
      qed (use Cons Some p in \<open>simp add: io_bind_def io_try_def\<close>)
    qed
  qed simp
  then show ?thesis by (simp add: resolve_conflicts_def)
qed

end
