(* ===== verification/Daemon.thy ===== *)
theory Daemon
  imports Transition Sync_Props
begin

text \<open>
  The daemon of \<^verbatim>\<open>src/src/main.rs\<close>: one task per pair, which starts the monitors of both
  storages, opens the status database and then synchronises after every event. The tasks run
  concurrently; between two operations of one task any operations of others may happen.
\<close>

section \<open>The task of one pair\<close>

datatype daemon_error = StatusError failure | MonitorError failure

text \<open>Where a task stands between two of its operations, or how it ended.\<close>

datatype 'db daemon_task =
    NotStarted
  | OneMonitor
  | BothMonitors
  | Looping 'db               \<comment> \<open>waiting for an event\<close>
  | Awake 'db
  | Planned 'db plan
  | Ended daemon_error
  | Aborted string

text \<open>An error ends the task, a panic aborts it.\<close>

fun or_end ::
  "(failure \<Rightarrow> daemon_error) \<Rightarrow> (failure + 'a) \<times> 'w \<Rightarrow> ('a \<Rightarrow> 'w \<Rightarrow> 'db daemon_task \<times> 'w) \<Rightarrow>
    'db daemon_task \<times> 'w"
where
  "or_end err (Inr a, w) k = k a w"
| "or_end err (Inl (Panic p), w) k = (Aborted p, w)"
| "or_end err (Inl (Err ms), w) k = (Ended (err (Err ms)), w)"

definition start_daemon ::
  "('w, 'temp, 'child, 'p, 'db) shell \<Rightarrow> 'p named_pair \<Rightarrow> 'w \<Rightarrow> 'db daemon_task \<times> 'w"
where
  "start_daemon S pair w =
     or_end MonitorError (sh_monitor S (pair_inner pair) SideA (fst (pair_intervals pair)) w) (\<lambda>_ w.
     or_end MonitorError (sh_monitor S (pair_inner pair) SideB (snd (pair_intervals pair)) w) (\<lambda>_ w.
     or_end StatusError (sh_status_create S (pair_status_path pair) w) (\<lambda>db w.
     (Looping db, w))))"

text \<open>One turn of the loop, once an event has come; \<open>None\<close> when none ever does.\<close>

definition daemon_turn ::
  "('w, 'temp, 'child, 'p, 'db) shell \<Rightarrow> 'p named_pair \<Rightarrow> 'db \<Rightarrow> 'w \<Rightarrow> ('db daemon_task \<times> 'w) option"
where
  "daemon_turn S pair db w =
     (case sh_next_event S (pair_inner pair) w of
        None \<Rightarrow> None
      | Some w1 \<Rightarrow>
          Some (case sh_plan_new S (pair_inner pair) (Some db) w1 of
             (Inl (Panic p), w2) \<Rightarrow> (Aborted p, w2)
           | (Inl (Err _), w2) \<Rightarrow> (Looping db, w2)
           | (Inr plan, w2) \<Rightarrow>
               (case sh_execute S (pair_inner pair) (apply_conflict_resolution_to_plan S pair plan) db w2 of
                  ((result, _), w3) \<Rightarrow> or_end StatusError (result, w3) (\<lambda>_ w. (Looping db, w)))))"

partial_function (option) daemon_loop ::
  "('w, 'temp, 'child, 'p, 'db) shell \<Rightarrow> 'p named_pair \<Rightarrow> 'db \<Rightarrow> 'w \<Rightarrow> ('db daemon_task \<times> 'w) option"
where
  "daemon_loop S pair db w =
     (case daemon_turn S pair db w of
        None \<Rightarrow> None
      | Some (Looping db', w') \<Rightarrow> daemon_loop S pair db' w'
      | Some (task, w') \<Rightarrow> Some (task, w'))"

declare daemon_loop.simps [code]

definition daemon_pair ::
  "('w, 'temp, 'child, 'p, 'db) shell \<Rightarrow> 'p named_pair \<Rightarrow> 'w \<Rightarrow> ('db daemon_task \<times> 'w) option"
where
  "daemon_pair S pair w =
     (case start_daemon S pair w of
        (Looping db, w') \<Rightarrow> daemon_loop S pair db w'
      | (task, w') \<Rightarrow> Some (task, w'))"

section \<open>All tasks\<close>

text \<open>
  One operation of a task on the world, between which other tasks may run: what \<open>start_daemon\<close>
  and \<open>daemon_turn\<close> do in one go.
\<close>

fun task_step ::
  "('w, 'temp, 'child, 'p, 'db) shell \<Rightarrow> 'p named_pair \<Rightarrow> 'db daemon_task \<Rightarrow> 'w \<Rightarrow> ('db daemon_task \<times> 'w) option"
where
  "task_step S pair NotStarted w =
     Some (or_end MonitorError (sh_monitor S (pair_inner pair) SideA (fst (pair_intervals pair)) w)
       (\<lambda>_ w. (OneMonitor, w)))"
| "task_step S pair OneMonitor w =
     Some (or_end MonitorError (sh_monitor S (pair_inner pair) SideB (snd (pair_intervals pair)) w)
       (\<lambda>_ w. (BothMonitors, w)))"
| "task_step S pair BothMonitors w =
     Some (or_end StatusError (sh_status_create S (pair_status_path pair) w) (\<lambda>db w. (Looping db, w)))"
| "task_step S pair (Looping db) w =
     map_option (\<lambda>w'. (Awake db, w')) (sh_next_event S (pair_inner pair) w)"
| "task_step S pair (Awake db) w =
     Some (case sh_plan_new S (pair_inner pair) (Some db) w of
       (Inl (Panic p), w') \<Rightarrow> (Aborted p, w')
     | (Inl (Err _), w') \<Rightarrow> (Looping db, w')
     | (Inr plan, w') \<Rightarrow> (Planned db (apply_conflict_resolution_to_plan S pair plan), w'))"
| "task_step S pair (Planned db plan) w =
     Some (case sh_execute S (pair_inner pair) plan db w of
       ((result, _), w') \<Rightarrow> or_end StatusError (result, w') (\<lambda>_ w. (Looping db, w)))"
| "task_step S pair t w = None"

text \<open>The daemon returns only when every task is over.\<close>

inductive daemon_step ::
  "('w, 'temp, 'child, 'p, 'db) shell \<Rightarrow> 'p named_pair list \<Rightarrow> 'db daemon_task list \<times> 'w \<Rightarrow>
    'db daemon_task list \<times> 'w \<Rightarrow> bool"
  for S pairs
where
  "i < length tasks \<Longrightarrow> task_step S (pairs ! i) (tasks ! i) w = Some (t, w') \<Longrightarrow>
     daemon_step S pairs (tasks, w) (tasks[i := t], w')"

inductive_cases daemon_stepE: "daemon_step S pairs (tasks, w) s"

definition daemon_start :: "'p named_pair list \<Rightarrow> 'w \<Rightarrow> 'db daemon_task list \<times> 'w" where
  "daemon_start pairs w = (map (\<lambda>_. NotStarted) pairs, w)"

fun task_over :: "'db daemon_task \<Rightarrow> bool" where
  "task_over (Ended e) = True"
| "task_over (Aborted p) = True"
| "task_over t = False"

text \<open>What the daemon returns, once it returns: always an error.\<close>

definition daemon_result :: "'db daemon_task list \<Rightarrow> (failure + unit) option" where
  "daemon_result tasks =
     (if list_all task_over tasks then Some (bail ''All sync tasks exited.'') else None)"

fun same_length :: "'p named_pair list \<Rightarrow> 'db daemon_task list \<times> 'w \<Rightarrow> bool" where
  "same_length pairs (tasks, w) \<longleftrightarrow> length tasks = length pairs"

interpretation daemons: invariant_system "daemon_start pairs w" "daemon_step S pairs" "same_length pairs"
  for pairs w S
  by unfold_locales (auto simp: daemon_start_def elim: daemon_step.cases)

section \<open>A task on its own\<close>

definition task_alone ::
  "('w, 'temp, 'child, 'p, 'db) shell \<Rightarrow> 'p named_pair \<Rightarrow> 'db daemon_task \<times> 'w \<Rightarrow> 'db daemon_task \<times> 'w \<Rightarrow> bool"
where
  "task_alone S pair x y \<longleftrightarrow> task_step S pair (fst x) (snd x) = Some y"

lemma task_aloneI: "task_step S pair t w = Some y \<Longrightarrow> task_alone S pair (t, w) y"
  by (simp add: task_alone_def)

lemma or_end_steps:
  assumes "task_step S pair t w = Some (or_end err r (\<lambda>a w. (next a, w)))"
    and "\<And>a w'. r = (Inr a, w') \<Longrightarrow> rtranclp (task_alone S pair) (next a, w') (k a w')"
  shows "rtranclp (task_alone S pair) (t, w) (or_end err r k)"
  using task_aloneI [OF assms(1)] assms(2)
  by (cases "(err, r, k)" rule: or_end.cases) (auto intro: converse_rtranclp_into_rtranclp)

lemma start_daemon_steps:
  "rtranclp (task_alone S pair) (NotStarted, w) (start_daemon S pair w)"
  unfolding start_daemon_def
  by (rule or_end_steps, rule task_step.simps, rule or_end_steps, rule task_step.simps,
      rule or_end_steps, rule task_step.simps, rule rtranclp.rtrancl_refl)

lemma daemon_turn_steps:
  assumes "daemon_turn S pair db w = Some y"
  shows "rtranclp (task_alone S pair) (Looping db, w) y"
proof -
  from assms obtain w1 where ev: "sh_next_event S (pair_inner pair) w = Some w1"
    by (auto simp: daemon_turn_def split: option.splits)
  have wake: "task_alone S pair (Looping db, w) (Awake db, w1)" by (simp add: task_alone_def ev)
  obtain r w2 where plan: "sh_plan_new S (pair_inner pair) (Some db) w1 = (r, w2)" by fastforce
  have "rtranclp (task_alone S pair) (Awake db, w1) y"
  proof (cases r)
    case (Inl e)
    with assms ev plan have "task_alone S pair (Awake db, w1) y"
      by (cases e) (simp_all add: daemon_turn_def task_alone_def)
    then show ?thesis by (rule r_into_rtranclp)
  next
    case (Inr ops)
    let ?plan = "apply_conflict_resolution_to_plan S pair ops"
    have "task_alone S pair (Awake db, w1) (Planned db ?plan, w2)" by (simp add: task_alone_def plan Inr)
    moreover have "task_alone S pair (Planned db ?plan, w2) y"
      using assms by (simp add: daemon_turn_def task_alone_def ev plan Inr)
    ultimately show ?thesis by (rule converse_rtranclp_into_rtranclp [OF _ r_into_rtranclp])
  qed
  with wake show ?thesis by (rule converse_rtranclp_into_rtranclp)
qed

lemma task_among_others:
  assumes "rtranclp (task_alone S (pairs ! i)) (t, w) (t', w')" and "i < length tasks" and "tasks ! i = t"
  shows "rtranclp (daemon_step S pairs) (tasks, w) (tasks[i := t'], w')"
  using assms(1)
proof (induction rule: rtranclp_induct2)
  case refl
  then show ?case by (simp flip: assms(3))
next
  case (step t1 w1 t2 w2)
  have "daemon_step S pairs (tasks[i := t1], w1) ((tasks[i := t1])[i := t2], w2)"
    by (rule daemon_step.intros) (use step(2) assms(2) in \<open>simp_all add: task_alone_def\<close>)
  with step(3) show ?case by simp
qed

section \<open>Properties\<close>

text \<open>
  What ends the loop: a panic, or an error of the status database while executing.
\<close>

definition only_recoverable :: "('w, 'temp, 'child, 'p, 'db) shell \<Rightarrow> 'p \<Rightarrow> bool" where
  "only_recoverable S p \<longleftrightarrow>
     (\<forall>db w q. fst (sh_plan_new S p db w) \<noteq> Inl (Panic q)) \<and>
     (\<forall>plan db w e. fst (fst (sh_execute S p plan db w)) \<noteq> Inl e)"

lemma daemon_turn_goes_on:
  assumes "only_recoverable S (pair_inner pair)" and "daemon_turn S pair db w = Some (t, w')"
  shows "t = Looping db"
proof -
  from assms(2) obtain w1 where ev: "sh_next_event S (pair_inner pair) w = Some w1"
    by (auto simp: daemon_turn_def split: option.splits)
  obtain r w2 where plan: "sh_plan_new S (pair_inner pair) (Some db) w1 = (r, w2)" by fastforce
  show ?thesis
  proof (cases r)
    case (Inl e)
    show ?thesis
    proof (cases e)
      case (Panic q)
      with plan Inl assms(1) show ?thesis unfolding only_recoverable_def by (metis fst_conv)
    qed (use assms(2) in \<open>simp add: daemon_turn_def ev plan Inl\<close>)
  next
    case (Inr ops)
    obtain x n w3 where ex: "sh_execute S (pair_inner pair) (apply_conflict_resolution_to_plan S pair ops) db w2 = ((x, n), w3)"
      by (metis prod.collapse)
    then obtain y where "x = Inr y"
      using assms(1) unfolding only_recoverable_def by (metis fst_conv sum.exhaust)
    with assms(2) show ?thesis by (simp add: daemon_turn_def ev plan Inr ex)
  qed
qed

lemma daemon_loop_never_ends:
  assumes "daemon_loop S pair db w = Some r" and "only_recoverable S (pair_inner pair)"
  shows False
  using assms
proof (induction rule: daemon_loop.raw_induct [rotated, consumes 1, case_names step])
  case (step go S pair db w r)
  obtain t w' where t: "daemon_turn S pair db w = Some (t, w')"
    using step.hyps by (cases "daemon_turn S pair db w") auto
  have "t = Looping db" by (rule daemon_turn_goes_on [OF step.prems t])
  with step.hyps t have "go S pair db w' = Some r" by simp
  from step.IH [OF this step.prems] show False .
qed

text \<open>
  Errors of planning and of executing never stop the daemon of a pair: unless the status
  database fails or something panics, its loop does not end.
\<close>
theorem daemon_survives_errors:
  assumes "only_recoverable S (pair_inner pair)"
  shows "daemon_loop S pair db w = None"
  using daemon_loop_never_ends [OF _ assms] by (cases "daemon_loop S pair db w") auto

lemma demo_recoverable: "only_recoverable demo_shell ()"
  by (simp add: only_recoverable_def demo_shell_def)

theorem daemon_survives_errors_witness:
  "daemon_loop demo_shell demo_pair_cmd () (demo_start []) = None"
  by (rule daemon_survives_errors) (simp add: demo_pair_cmd_def demo_recoverable)

text \<open>Where a task stands that has started and goes on, with its status database.\<close>

fun serving :: "'db daemon_task \<Rightarrow> bool" where
  "serving (Looping db) = True"
| "serving (Awake db) = True"
| "serving (Planned db plan) = True"
| "serving t = False"

lemma task_step_serves:
  assumes "only_recoverable S (pair_inner pair)" and "task_step S pair t w = Some (t', w')" and "serving t"
  shows "serving t'"
proof (cases t)
  case (Awake db)
  obtain r w1 where plan: "sh_plan_new S (pair_inner pair) (Some db) w = (r, w1)" by fastforce
  with assms(1) have "r \<noteq> Inl (Panic q)" for q by (auto simp: only_recoverable_def) (metis fst_conv)
  with assms(2) Awake plan show ?thesis by (auto split: sum.splits failure.splits)
next
  case (Planned db plan)
  obtain r n w1 where run: "sh_execute S (pair_inner pair) plan db w = ((r, n), w1)" by (metis prod.collapse)
  with assms(1) have "r \<noteq> Inl e" for e by (auto simp: only_recoverable_def) (metis fst_conv)
  then obtain a where "r = Inr a" by (cases r) auto
  with assms(2) Planned run show ?thesis by auto
qed (use assms(2,3) in auto)

text \<open>
  C17. A pair that has started keeps the whole daemon running, whatever happens to the other
  pairs and in whatever order: as long as its own status database works, the daemon does not
  return.
\<close>
theorem one_pair_keeps_daemon_alive:
  assumes "rtranclp (daemon_step S pairs) (daemon_start pairs w0) s" and "rtranclp (daemon_step S pairs) s s'"
    and "i < length pairs" and "only_recoverable S (pair_inner (pairs ! i))" and "serving (fst s ! i)"
  shows "daemon_result (fst s') = None"
proof -
  have keeps: "serving (fst t' ! i)"
    if "same_length pairs t" "daemon_step S pairs t t'" "serving (fst t ! i)" for t t'
    using that(2)
  proof cases
    case (1 k tasks w u w')
    show ?thesis
    proof (cases "k = i")
      case True
      with 1 that(3) task_step_serves [OF assms(4), of "tasks ! i" w u w'] show ?thesis by simp
    qed (use 1 that(3) in simp)
  qed
  have "serving (fst s' ! i)"
    by (rule daemons.reachable_persists [where P = "\<lambda>s. serving (fst s ! i)", OF keeps assms(1,2,5)])
  moreover have "length (fst s') = length pairs"
    using daemons.inv_reachable [OF rtranclp_trans [OF assms(1,2)]] by (cases s') simp
  moreover have "\<not> task_over t" if "serving t" for t :: "'a daemon_task"
    using that by (cases t) simp_all
  ultimately have "\<not> list_all task_over (fst s')"
    using assms(3) by (auto simp: list_all_length intro!: exI [of _ i])
  then show ?thesis by (simp add: daemon_result_def)
qed

theorem one_pair_keeps_daemon_alive_witness:
  "rtranclp (daemon_step demo_shell [demo_pair_cmd]) (daemon_start [demo_pair_cmd] (demo_start []))
     ([Looping ()], demo_start []) \<and>
   daemon_step demo_shell [demo_pair_cmd] ([Looping ()], demo_start []) ([Awake ()], demo_start []) \<and>
   daemon_result [Awake () :: unit daemon_task] = None"
proof -
  have "start_daemon demo_shell demo_pair_cmd (demo_start []) = (Looping (), demo_start [])"
    by (simp add: start_daemon_def demo_shell_def)
  with start_daemon_steps [of demo_shell demo_pair_cmd "demo_start []"]
  have start: "rtranclp (daemon_step demo_shell [demo_pair_cmd]) (daemon_start [demo_pair_cmd] (demo_start []))
      ([Looping ()], demo_start [])"
    using task_among_others [of demo_shell "[demo_pair_cmd]" 0 NotStarted "demo_start []" "Looping ()" "demo_start []"
        "[NotStarted]"]
    by (simp add: daemon_start_def)
  have "task_step demo_shell demo_pair_cmd (Looping ()) (demo_start []) = Some (Awake (), demo_start [])"
    by (simp add: demo_shell_def)
  then have turn: "daemon_step demo_shell [demo_pair_cmd] ([Looping ()], demo_start []) ([Awake ()], demo_start [])"
    using daemon_step.intros [of 0 "[Looping ()]" demo_shell "[demo_pair_cmd]"] by simp
  have "daemon_result (fst ([Awake () :: unit daemon_task], demo_start [])) = None"
    by (rule one_pair_keeps_daemon_alive [OF start r_into_rtranclp [of "daemon_step demo_shell [demo_pair_cmd]", OF turn], of 0])
      (simp_all add: demo_pair_cmd_def demo_recoverable)
  with start turn show ?thesis by simp
qed

end
