(* ===== verification/Sync_Report.thy ===== *)
theory Sync_Report
  imports Sync_Props
begin

text \<open>
  What the number reported by \<^verbatim>\<open>sync\<close> means, for any pairs and any way the run goes: the
  operations that failed and the calls of the executor's error handler.
\<close>

section \<open>Counting what fails\<close>

text \<open>
  The same world with a count beside it. The operations that \<^verbatim>\<open>sync\<close> uses and that may fail add
  one to it when they do; executing a plan also adds the calls of its error handler.
\<close>

definition beside :: "('w \<Rightarrow> 'a \<times> 'w) \<Rightarrow> 'w \<times> nat \<Rightarrow> 'a \<times> 'w \<times> nat" where
  "beside m = (\<lambda>(w, k). case m w of (r, w') \<Rightarrow> (r, w', k))"

definition noting :: "('w \<Rightarrow> (failure + 'a) \<times> 'w) \<Rightarrow> 'w \<times> nat \<Rightarrow> (failure + 'a) \<times> 'w \<times> nat" where
  "noting m = (\<lambda>(w, k). case m w of (r, w') \<Rightarrow> (r, w', k + (if is_ok r then 0 else 1)))"

definition noting_execute ::
  "('w \<Rightarrow> ((failure + (failure + unit)) \<times> nat) \<times> 'w) \<Rightarrow> 'w \<times> nat \<Rightarrow>
    ((failure + (failure + unit)) \<times> nat) \<times> 'w \<times> nat"
where
  "noting_execute m = (\<lambda>(w, k). case m w of
     ((r, n), w') \<Rightarrow> ((r, n), w', k + n + (if r = Inr (Inr ()) then 0 else 1)))"

definition noting_shell :: "('w, 'temp, 'child, 'p, 'db) shell \<Rightarrow> ('w \<times> nat, 'temp, 'child, 'p, 'db) shell" where
  "noting_shell S =
     \<lparr>sh_print = (\<lambda>s (w, k). (sh_print S s w, k)), sh_flush = noting (sh_flush S),
      sh_read_line = noting (sh_read_line S), sh_temp_new = beside (sh_temp_new S),
      sh_temp_write = (\<lambda>t s. beside (sh_temp_write S t s)), sh_temp_path = sh_temp_path S,
      sh_temp_rewind = (\<lambda>t. beside (sh_temp_rewind S t)), sh_temp_read = (\<lambda>t. beside (sh_temp_read S t)),
      sh_spawn = (\<lambda>c. beside (sh_spawn S c)), sh_wait = (\<lambda>c. beside (sh_wait S c)),
      sh_sync = (\<lambda>(w, k). (sh_sync S w, k)), sh_item_hash = sh_item_hash S,
      sh_update_item = (\<lambda>p s h e i. beside (sh_update_item S p s h e i)),
      sh_set_property = (\<lambda>p s h n v. beside (sh_set_property S p s h n v)),
      sh_b_first = (\<lambda>(w, k). sh_b_first S w), sh_status_open = (\<lambda>path. noting (sh_status_open S path)),
      sh_status_create = (\<lambda>path. noting (sh_status_create S path)),
      sh_plan_new = (\<lambda>p db. noting (sh_plan_new S p db)), sh_keep_side = sh_keep_side S,
      sh_execute = (\<lambda>p plan db. noting_execute (sh_execute S p plan db)),
      sh_discover = (\<lambda>p s. beside (sh_discover S p s)), sh_monitor = (\<lambda>p s i. beside (sh_monitor S p s i)),
      sh_next_event = (\<lambda>p (w, k). map_option (\<lambda>w'. (w', k)) (sh_next_event S p w)),
      sh_write_fd = (\<lambda>fd s. beside (sh_write_fd S fd s)), sh_is_conflict = sh_is_conflict S,
      sh_op_uid = sh_op_uid S, sh_show_item = sh_show_item S, sh_show_property = sh_show_property S\<rparr>"

lemma noting_shell_simps [simp]:
  "sh_print (noting_shell S) s (w, k) = (sh_print S s w, k)"
  "sh_flush (noting_shell S) = noting (sh_flush S)" "sh_read_line (noting_shell S) = noting (sh_read_line S)"
  "sh_status_open (noting_shell S) path = noting (sh_status_open S path)"
  "sh_status_create (noting_shell S) path = noting (sh_status_create S path)"
  "sh_plan_new (noting_shell S) p status = noting (sh_plan_new S p status)"
  "sh_execute (noting_shell S) p plan db = noting_execute (sh_execute S p plan db)"
  by (simp_all add: noting_shell_def)

text \<open>The operations may fail, but do not panic.\<close>

definition calm :: "('w \<Rightarrow> (failure + 'a) \<times> 'w) \<Rightarrow> bool" where
  "calm m \<longleftrightarrow> (\<forall>w p. fst (m w) \<noteq> Inl (Panic p))"

definition calm_shell :: "('w, 'temp, 'child, 'p, 'db) shell \<Rightarrow> bool" where
  "calm_shell S \<longleftrightarrow>
     calm (sh_flush S) \<and> calm (sh_read_line S) \<and> (\<forall>path. calm (sh_status_open S path)) \<and>
     (\<forall>path. calm (sh_status_create S path)) \<and> (\<forall>p db. calm (sh_plan_new S p db)) \<and>
     (\<forall>p plan db w q. fst (fst (sh_execute S p plan db w)) \<noteq> Inl (Panic q) \<and>
        fst (fst (sh_execute S p plan db w)) \<noteq> Inr (Inl (Panic q)))"

section \<open>Computations that are counted rightly\<close>

text \<open>A computation on the world fails exactly when it adds one to the count.\<close>

fun one_if_failed :: "failure + 'a \<Rightarrow> nat \<Rightarrow> nat \<Rightarrow> bool" where
  "one_if_failed (Inr a) k k' = (k' = k)"
| "one_if_failed (Inl (Err ms)) k k' = (k' = k + 1)"
| "one_if_failed (Inl (Panic p)) k k' = False"

definition noted :: "('w \<times> nat, 'a) io \<Rightarrow> bool" where
  "noted m \<longleftrightarrow> (\<forall>w k r w' k'. m (w, k) = Some (r, w', k') \<longrightarrow> one_if_failed r k k')"

lemma notedD: "noted m \<Longrightarrow> m (w, k) = Some (r, w', k') \<Longrightarrow> one_if_failed r k k'"
  by (simp add: noted_def)

lemma one_if_failed_context [simp]: "one_if_failed (with_context c r) k k' = one_if_failed r k k'"
  by (cases "(r, k, k')" rule: one_if_failed.cases) simp_all

lemma noted_noting [intro]: "calm m \<Longrightarrow> noted (io_lift (noting m))"
  unfolding noted_def
proof (intro allI impI)
  fix w k r w' k'
  assume m: "calm m" "io_lift (noting m) (w, k) = Some (r, w', k')"
  then have r: "fst (m w) = r" "k' = k + (if is_ok r then 0 else 1)"
    by (auto simp: io_lift_def noting_def split: prod.splits)
  show "one_if_failed r k k'"
  proof (cases r)
    case (Inl e)
    then obtain ms where "e = Err ms" using m(1) r(1) by (cases e) (auto simp: calm_def)
    with Inl r(2) show ?thesis by simp
  qed (use r(2) in simp)
qed

lemma noted_bind [intro]:
  assumes "noted m" and "\<And>a. noted (f a)"
  shows "noted (io_bind m f)"
  unfolding noted_def
proof (intro allI impI)
  fix w k r w' k'
  assume run: "io_bind m f (w, k) = Some (r, w', k')"
  then obtain r1 w1 k1 where m: "m (w, k) = Some (r1, w1, k1)"
    by (cases "m (w, k)") (auto simp: io_bind_def)
  with assms(1) have one: "one_if_failed r1 k k1" by (rule notedD)
  show "one_if_failed r k k'"
  proof (cases r1)
    case (Inl e)
    with run m one show ?thesis by (cases e) (auto simp: io_bind_def)
  next
    case (Inr a)
    with run m have "f a (w1, k1) = Some (r, w', k')" by (simp add: io_bind_def)
    with assms(2) have "one_if_failed r k1 k'" by (rule notedD)
    with one Inr show ?thesis by simp
  qed
qed

lemma noted_context [intro]: "noted m \<Longrightarrow> noted (io_context c m)"
  by (fastforce simp: noted_def io_context_def split: option.splits prod.splits)

lemma io_lift_sbind: "io_lift (sbind m f) = io_bind (io_lift m) (\<lambda>a. io_lift (f a))"
  by (auto simp: fun_eq_iff io_lift_def io_bind_def sbind_def split: prod.split sum.split)

lemma io_lift_scontext: "io_lift (scontext c m) = io_context c (io_lift m)"
  by (auto simp: fun_eq_iff io_lift_def io_context_def scontext_def split: prod.split)

lemma noted_print [intro]: "noted (io_print (noting_shell S) s)"
  by (simp add: noted_def)

lemma noted_io_print [intro]: "noted (io_lift (\<lambda>w. (Inr (), sh_print (noting_shell S) s w)))"
  by (simp add: noted_def io_lift_def)

lemma noted_ask: "calm_shell S \<Longrightarrow> noted (io_lift (ask (noting_shell S) prompt))"
  unfolding ask_def io_lift_sbind io_lift_scontext
  by (intro noted_bind noted_context noted_io_print) (simp_all add: calm_shell_def noted_noting)

lemma noted_create_plan: "calm_shell S \<Longrightarrow> noted (io_lift (create_plan (noting_shell S) pair))"
  unfolding create_plan_def io_lift_sbind io_lift_scontext
  by (intro noted_bind noted_context) (simp_all add: calm_shell_def noted_noting)

lemma continue_one_if_failed:
  assumes "continue_skip_or_quit (noting_shell S) msg (w, k) = Some (r, w', k')" and "calm_shell S"
  shows "one_if_failed r k k'"
proof -
  have "calm_shell S \<Longrightarrow> S' = noting_shell S \<Longrightarrow> one_if_failed (fst res) (snd s) (snd (snd res))"
    if "continue_skip_or_quit S' msg s = Some res" for S' msg s res
    using that
  proof (induction rule: continue_skip_or_quit.raw_induct [rotated, consumes 1, case_names step])
    case (step go S' msg s res)
    obtain w k where s: "s = (w, k)" by (cases s)
    obtain x w1 k1 where a: "ask S' (fmt [msg, '' (Y)es, (N)o, or (Q)uit? '']) s = (x, w1, k1)" by (metis prod.collapse)
    have one: "one_if_failed x k k1"
      using noted_ask [OF step.prems(1)] a s step.prems(2) by (auto simp: noted_def io_lift_def)
    show ?case
    proof (cases x)
      case (Inl e)
      with step.hyps a s one show ?thesis by (cases e) auto
    next
      case (Inr response)
      show ?thesis
      proof (cases "yes_no_quit_of response")
        case None
        with step.hyps a Inr have "go S' msg (w1, k1) = Some res" by simp
        from step.IH [OF this step.prems] one Inr s show ?thesis by simp
      qed (use step.hyps a Inr one s in auto)
    qed
  qed
  from this [OF assms(1,2) refl] show ?thesis by simp
qed

lemma noted_continue: "calm_shell S \<Longrightarrow> noted (continue_skip_or_quit (noting_shell S) msg)"
  using continue_one_if_failed by (fastforce simp: noted_def)

section \<open>The counter follows the count\<close>

text \<open>
  What the counter is after a computation of a pair: that of the count, or one behind it when
  the computation fails, since the loop over the pairs counts that error.
\<close>

fun one_behind :: "failure + 'a \<Rightarrow> u32 \<Rightarrow> nat \<Rightarrow> bool" where
  "one_behind (Inr a) c k = (c = of_nat k)"
| "one_behind (Inl (Err ms)) c k = (c + 1 = of_nat k)"
| "one_behind (Inl (Panic p)) c k = False"

definition counts_right :: "('w \<times> nat, 'a) counted \<Rightarrow> bool" where
  "counts_right m \<longleftrightarrow> (\<forall>w k r w' k' c'. m ((w, k), of_nat k) = Some (r, (w', k'), c') \<longrightarrow> one_behind r c' k')"

lemma counts_rightD: "counts_right m \<Longrightarrow> m ((w, k), of_nat k) = Some (r, (w', k'), c') \<Longrightarrow> one_behind r c' k'"
  by (simp add: counts_right_def)

lemma one_behind_context [simp]: "one_behind (with_context c r) n k = one_behind r n k"
  by (cases "(r, n, k)" rule: one_behind.cases) simp_all

lemma counts_right_ret [intro]: "counts_right (io_ret a)"
  by (simp add: counts_right_def)

lemma counts_right_uncounted [intro]:
  assumes "noted m"
  shows "counts_right (uncounted m)"
  unfolding counts_right_def
proof (intro allI impI)
  fix w k r w' k' c'
  assume "uncounted m ((w, k), of_nat k) = Some (r, (w', k'), c')"
  then have m: "m (w, k) = Some (r, w', k')" "c' = of_nat k"
    by (auto simp: uncounted_def split: option.splits prod.splits)
  with assms have "one_if_failed r k k'" by (metis notedD)
  with m(2) show "one_behind r c' k'" by (cases "(r, k, k')" rule: one_if_failed.cases) simp_all
qed

lemma counts_right_bind [intro]:
  assumes "counts_right m" and "\<And>a. counts_right (f a)"
  shows "counts_right (io_bind m f)"
  unfolding counts_right_def
proof (intro allI impI)
  fix w k r w' k' c'
  assume run: "io_bind m f ((w, k), of_nat k) = Some (r, (w', k'), c')"
  then obtain r1 w1 k1 c1 where m: "m ((w, k), of_nat k) = Some (r1, (w1, k1), c1)"
    by (cases "m ((w, k), of_nat k)") (auto simp: io_bind_def)
  with assms(1) have one: "one_behind r1 c1 k1" by (rule counts_rightD)
  show "one_behind r c' k'"
  proof (cases r1)
    case (Inl e)
    with run m one show ?thesis by (cases e) (auto simp: io_bind_def)
  next
    case (Inr a)
    with one have "c1 = of_nat k1" by simp
    with run m Inr have "f a ((w1, k1), of_nat k1) = Some (r, (w', k'), c')" by (simp add: io_bind_def)
    with assms(2) show ?thesis by (rule counts_rightD)
  qed
qed

lemma counts_right_context [intro]: "counts_right m \<Longrightarrow> counts_right (io_context c m)"
  by (fastforce simp: counts_right_def io_context_def split: option.splits prod.splits)

lemma counts_right_execute:
  assumes "calm_shell S"
  shows "counts_right (execute_plan (noting_shell S) pair operations)"
  unfolding execute_plan_def
proof (intro counts_right_bind counts_right_uncounted noted_context)
  show "noted (io_lift (sh_status_create (noting_shell S) (pair_status_path pair)))"
    using assms by (simp add: calm_shell_def noted_noting)
  fix db
  show "counts_right (\<lambda>(w, c). case sh_execute (noting_shell S) (pair_inner pair) operations db w of
      ((result, n), w') \<Rightarrow>
        Some (rbind (with_context ''executing plan'' result) (with_context ''execution failed''), w',
          fetch_add (of_nat n) c))"
    unfolding counts_right_def
  proof (intro allI impI)
    fix w k r w' k' c'
    assume run: "(case ((w, k), of_nat k) of (w, c) \<Rightarrow>
        case sh_execute (noting_shell S) (pair_inner pair) operations db w of ((result, n), w') \<Rightarrow>
          Some (rbind (with_context ''executing plan'' result) (with_context ''execution failed''), w',
            fetch_add (of_nat n) c)) = Some (r, (w', k'), c')"
    obtain result n w1 where e: "sh_execute S (pair_inner pair) operations db w = ((result, n), w1)"
      by (metis prod.collapse)
    with assms have calm: "result \<noteq> Inl (Panic q)" "result \<noteq> Inr (Inl (Panic q))" for q
      by (auto simp: calm_shell_def) (metis fst_conv)+
    from run e have r: "r = rbind (with_context ''executing plan'' result) (with_context ''execution failed'')"
      and k': "k' = k + n + (if result = Inr (Inr ()) then 0 else 1)" and c': "c' = of_nat (k + n)"
      by (auto simp: noting_execute_def fetch_add_def)
    show "one_behind r c' k'"
    proof (cases result)
      case (Inl f)
      with calm obtain ms where "f = Err ms" by (cases f) auto
      with Inl r k' c' show ?thesis by simp
    next
      case (Inr inner)
      show ?thesis
      proof (cases inner)
        case (Inl f)
        with calm \<open>result = Inr inner\<close> obtain ms where "f = Err ms" by (cases f) auto
        with Inl \<open>result = Inr inner\<close> r k' c' show ?thesis by simp
      qed (use Inr r k' c' in simp)
    qed
  qed
qed

lemma noting_shell_prints [simp]:
  "print_lines (noting_shell S) ls (w, k) = (print_lines S ls w, k)"
  unfolding print_lines_def by (induction ls arbitrary: w) simp_all

lemma noted_collect:
  "noted (\<lambda>w. case print_and_collect_plan (noting_shell S) pair plan w of (operations, w') \<Rightarrow> Some (Inr operations, w'))"
proof -
  have "\<exists>x w'. collect_plan (noting_shell S) rs n ops (w, k) = (x, w', k)" for rs n ops w and k :: nat
  proof (induction rs arbitrary: n ops w)
    case (Cons r rs)
    then show ?case by (auto split: prod.split)
  qed simp
  then show ?thesis
    unfolding noted_def print_and_collect_plan_def
    by (auto split: prod.splits) (metis noting_shell_prints prod.inject)
qed

lemma counts_right_sync_once:
  assumes "calm_shell S"
  shows "counts_right (sync_once (noting_shell S) dry_run interactive pair)"
  unfolding sync_once_def
proof (intro counts_right_bind)
  show "counts_right (uncounted (io_context ''Creating plan'' (io_lift (create_plan (noting_shell S) pair))))"
    using noted_create_plan [OF assms] by auto
  show "counts_right (uncounted (\<lambda>w. case print_and_collect_plan (noting_shell S) pair plan w of
      (operations, w') \<Rightarrow> Some (Inr operations, w')))" for plan
    by (rule counts_right_uncounted) (rule noted_collect)
  show "counts_right (if interactive then uncounted (continue_skip_or_quit (noting_shell S) ''Execute plan?'') else io_ret Yes)"
    using noted_continue [OF assms] by auto
  show "counts_right (case answer of
      No \<Rightarrow> io_bind (uncounted (io_print (noting_shell S) s)) (\<lambda>_. io_ret True)
    | Quit \<Rightarrow> io_bind (uncounted (io_print (noting_shell S) s')) (\<lambda>_. io_ret False)
    | Yes \<Rightarrow> if dry_run then io_ret True
        else io_bind (execute_plan (noting_shell S) pair operations) (\<lambda>_. io_ret True))"
    for answer operations s s'
    using counts_right_execute [OF assms] by (cases answer) auto
qed

lemma sync_pairs_counted:
  assumes "calm_shell S"
    and "sync_pairs (noting_shell S) dry_run interactive pairs ((w, k), of_nat k) = Some (r, (w', k'), c')"
  shows "r = Inr () \<and> c' = of_nat k'"
  using assms(2)
proof (induction pairs arbitrary: w k)
  case (Cons pair pairs)
  let ?once = "io_context (fmt [''Synchronising pair '', pair_name pair]) (sync_once (noting_shell S) dry_run interactive pair)"
  obtain r1 w1 k1 c1 where once: "?once ((w, k), of_nat k) = Some (r1, (w1, k1), c1)"
    using Cons.prems by (cases "?once ((w, k), of_nat k)") (auto simp: io_bind_def io_try_def)
  have one: "one_behind r1 c1 k1"
    by (rule counts_rightD [OF counts_right_context [OF counts_right_sync_once [OF assms(1)]] once])
  show ?case
  proof (cases r1)
    case (Inr go_on)
    show ?thesis
    proof (cases go_on)
      case True
      with Inr Cons.prems once one have "sync_pairs (noting_shell S) dry_run interactive pairs ((w1, k1), of_nat k1) =
          Some (r, (w', k'), c')" by (simp add: io_bind_def io_try_def)
      then show ?thesis by (rule Cons.IH)
    qed (use Inr Cons.prems once one in \<open>simp add: io_bind_def io_try_def\<close>)
  next
    case (Inl e)
    with one obtain ms where e: "e = Err ms" "c1 + 1 = of_nat k1" by (cases e) auto
    with Inl Cons.prems once have "sync_pairs (noting_shell S) dry_run interactive pairs ((w1, k1), of_nat k1) =
        Some (r, (w', k'), c')"
      by (simp add: io_bind_def io_try_def fetch_add_def)
    then show ?thesis by (rule Cons.IH)
  qed
qed simp

section \<open>What is reported\<close>

text \<open>
  C16. The number that a synchronisation reports is exactly how many of its operations failed
  plus how often the executor reported an error, modulo 2 to the 32, whatever pairs there are,
  dry run or not, interactive or not: with fewer than that, success means that nothing failed.
\<close>
theorem sync_report_exact:
  assumes "calm_shell S" and "sync (noting_shell S) dry_run interactive pairs (w, 0) = Some (r, w', k)"
  shows "r = (if 2 ^ 32 dvd k then Inr () else bail (fmt [show_nat (k mod 2 ^ 32), '' sync operations failed'']))"
proof -
  obtain r1 s c where run: "sync_pairs (noting_shell S) dry_run interactive pairs ((w, 0), 0) = Some (r1, s, c)"
    using assms(2) by (cases "sync_pairs (noting_shell S) dry_run interactive pairs ((w, 0), 0)") (auto simp: sync_def)
  obtain w1 k1 where s: "s = (w1, k1)" by (cases s)
  have "r1 = Inr ()" and c: "c = (fetch_add 1 ^^ k1) 0"
    using sync_pairs_counted [OF assms(1), of dry_run interactive pairs w 0] run s by (simp_all add: fetch_add_pow)
  moreover have "k1 = k" using assms(2) run s \<open>r1 = Inr ()\<close> by (auto simp: sync_def split: if_splits)
  moreover have "(0 :: u32) < n \<longleftrightarrow> n \<noteq> 0" for n by (simp add: word_neq_0_conv)
  ultimately show ?thesis
    using assms(2) run errors.bumps_zero_iff [of k] errors.reads_bumps [of k]
    by (auto simp: sync_def split: if_splits)
qed


definition failing_shell :: "(demo_world, nat, bool, unit, unit) shell" where
  "failing_shell = demo_shell\<lparr>sh_execute := (\<lambda>_ _ _ w. ((Inr (Inl (Err [''conflict''])), 3), w))\<rparr>"

theorem sync_report_exact_witness:
  "\<exists>w. sync (noting_shell failing_shell) False False [demo_pair_cmd, demo_pair_cmd] (demo_start [], 0) =
     Some (Inl (Err [''8 sync operations failed'']), w, 8)"
proof -
  let ?run = "sync (noting_shell failing_shell) False False [demo_pair_cmd, demo_pair_cmd] (demo_start [], 0)"
  have calm: "calm_shell failing_shell"
    by (auto simp: calm_shell_def calm_def failing_shell_def demo_shell_def split: list.split)
  have count: "map_option (\<lambda>r. snd (snd r)) ?run = Some 8" by code_simp
  obtain r w k where run: "?run = Some (r, w, k)" using count by (cases ?run) auto
  with count have k: "k = 8" by simp
  have "show_nat 8 = ''8''" by code_simp
  then have "r = Inl (Err [''8 sync operations failed''])"
    using sync_report_exact [OF calm run] by (simp add: k bail_def fmt_def)
  with run k show ?thesis by simp
qed

end
