(* ===== verification/Transport.thy ===== *)
theory Transport
  imports Storage_Props
begin

text \<open>
  \<^verbatim>\<open>src/src/proxy/mod.rs\<close>: the connector that always uses one Unix socket, and the wrapper
  around its stream. The operations of a stream and connecting to a socket are parameters, on
  an opaque world.
\<close>

section \<open>The stream\<close>

datatype 'stream connected_io = ConnectedIo 'stream

text \<open>
  \<^verbatim>\<open>ConnectedIo\<close> passes every poll on to the stream it wraps. A poll changes the stream and
  the world and yields what the stream yields; reading also fills the cursor it is given.
\<close>

fun wrapped :: "('stream \<Rightarrow> 'w \<Rightarrow> 'r \<times> 'stream \<times> 'w) \<Rightarrow> 'stream connected_io \<Rightarrow> 'w \<Rightarrow> 'r \<times> 'stream connected_io \<times> 'w" where
  "wrapped poll (ConnectedIo s) w = (case poll s w of (r, s', w') \<Rightarrow> (r, ConnectedIo s', w'))"

definition poll_read where
  "poll_read inner_read cursor io w = wrapped (inner_read cursor) io w"

definition poll_write where
  "poll_write inner_write buf io w = wrapped (inner_write buf) io w"

definition poll_flush where
  "poll_flush inner_flush io w = wrapped inner_flush io w"

definition poll_shutdown where
  "poll_shutdown inner_shutdown io w = wrapped inner_shutdown io w"

text \<open>A wrapped stream says nothing about its connection but what the library says by default.\<close>

definition connected :: "'c \<Rightarrow> 'stream connected_io \<Rightarrow> 'c" where
  "connected default_connected io = default_connected"

section \<open>The connector\<close>

definition unix_connector_new :: "string \<Rightarrow> 'uri connector" where
  "unix_connector_new path = UnixConnector path"

definition unix_poll_ready :: "failure + unit" where
  "unix_poll_ready = Inr ()"

definition unix_call ::
  "(string \<Rightarrow> 'w \<Rightarrow> (failure + 'stream) \<times> 'w) \<Rightarrow> string \<Rightarrow> 'uri \<Rightarrow> 'w \<Rightarrow> (failure + 'stream connected_io) \<times> 'w"
where
  "unix_call connect path uri = sbind (connect path) (\<lambda>stream. sret (ConnectedIo stream))"

text \<open>What a client does for a request: the connector of a socket, or the one for HTTPS.\<close>

fun service_call ::
  "(string \<Rightarrow> 'w \<Rightarrow> (failure + 'stream) \<times> 'w) \<Rightarrow>
    (tls_config \<Rightarrow> 'uri option \<Rightarrow> 'uri \<Rightarrow> 'w \<Rightarrow> (failure + 'stream connected_io) \<times> 'w) \<Rightarrow>
    'uri connector \<Rightarrow> 'uri \<Rightarrow> 'w \<Rightarrow> (failure + 'stream connected_io) \<times> 'w"
where
  "service_call connect https (UnixConnector path) uri = unix_call connect path uri"
| "service_call connect https (HttpsConnector tls proxy) uri = https tls proxy uri"


definition socket_doc :: tree where
  "socket_doc = Block [(''url'', Dir [''http://dav/''] None), (''socket'', Dir [''/run/dav.sock''] None)]"


end
