(* ===== verification/Cli.thy ===== *)
theory Cli
  imports Filter_Names
begin

text \<open>
  \<^verbatim>\<open>src/src/cli.rs\<close>: reading the command line. The parser of the \<^verbatim>\<open>lexopt\<close> crate is the record
  \<open>lexopt\<close> on an opaque state; its errors are values of \<open>failure\<close>. The loops call it until it
  has no argument left, so they are partial functions, and that they end is a theorem about
  parsers that use up their arguments.
\<close>

section \<open>The parser\<close>

type_synonym i32 = "32 word"

datatype 'os arg = Short char | Long string | Value 'os

record ('ps, 'os, 'lvl) lexopt =
  lx_from_args :: "string list \<Rightarrow> 'ps"
  lx_next :: "'ps \<Rightarrow> (failure + 'os arg option) \<times> 'ps"
  lx_value :: "'ps \<Rightarrow> (failure + 'os) \<times> 'ps"
  lx_string :: "'os \<Rightarrow> failure + string"
  lx_parse_level :: "'os \<Rightarrow> failure + 'lvl"
  lx_parse_fd :: "'os \<Rightarrow> failure + i32"
  lx_unexpected :: "'os arg \<Rightarrow> failure"
  lx_warn :: 'lvl   \<comment> \<open>\<^verbatim>\<open>LevelFilter::Warn\<close>\<close>

section \<open>Commands\<close>

datatype list_target = Pairs | Storages

datatype command =
    Check
  | Daemon "i32 option"
  | Sync bool bool            \<comment> \<open>dry run, interactive\<close>
  | ResolveConflicts bool
  | Discover
  | List list_target
  | Repair
  | Version

record 'lvl cli =
  cli_command :: command
  cli_log_level :: 'lvl
  cli_config_file :: "string option"
  cli_names :: filter_names

text \<open>The state of the functions below: the parser and the names read so far.\<close>

type_synonym 'ps reading = "'ps \<times> filter_names"

definition next_arg :: "('ps, 'os, 'lvl) lexopt \<Rightarrow> 'ps reading \<Rightarrow> (failure + 'os arg option) \<times> 'ps reading" where
  "next_arg L = (\<lambda>(ps, names). (case lx_next L ps of (r, ps') \<Rightarrow> (r, ps', names)))"

definition next_value :: "('ps, 'os, 'lvl) lexopt \<Rightarrow> 'ps reading \<Rightarrow> (failure + 'os) \<times> 'ps reading" where
  "next_value L = (\<lambda>(ps, names). (case lx_value L ps of (r, ps') \<Rightarrow> (r, ps', names)))"

definition push_name :: "('ps, 'os, 'lvl) lexopt \<Rightarrow> 'os \<Rightarrow> 'ps reading \<Rightarrow> (failure + unit) \<times> 'ps reading" where
  "push_name L v =
     sbind (slift (lx_string L v)) (\<lambda>n. (\<lambda>(ps, names). (Inr (), ps, snd (push n names))))"

text \<open>\<^verbatim>\<open>while let Some(arg) = parser.next()? { .. }\<close> with the flags read so far.\<close>

partial_function (option) args_loop ::
  "('ps, 'os, 'lvl) lexopt \<Rightarrow> ('os arg \<Rightarrow> 'f \<Rightarrow> 'ps reading \<Rightarrow> (failure + 'f) \<times> 'ps reading) \<Rightarrow> 'f \<Rightarrow>
    'ps reading \<Rightarrow> ((failure + 'f) \<times> 'ps reading) option"
where
  "args_loop L handle flags s =
     (case next_arg L s of
        (Inl e, s') \<Rightarrow> Some (Inl e, s')
      | (Inr None, s') \<Rightarrow> Some (Inr flags, s')
      | (Inr (Some arg), s') \<Rightarrow>
          (case handle arg flags s' of
             (Inl e, s'') \<Rightarrow> Some (Inl e, s'')
           | (Inr flags', s'') \<Rightarrow> args_loop L handle flags' s''))"

declare args_loop.simps [code]

definition returning :: "('f \<Rightarrow> 'a) \<Rightarrow> ((failure + 'f) \<times> 's) option \<Rightarrow> ((failure + 'a) \<times> 's) option" where
  "returning f r = map_option (\<lambda>(x, s). (rmap f x, s)) r"

section \<open>One function per command\<close>

text \<open>\<^verbatim>\<open>check\<close>, \<^verbatim>\<open>discover\<close> and \<^verbatim>\<open>repair\<close> only take names.\<close>

definition only_names ::
  "('ps, 'os, 'lvl) lexopt \<Rightarrow> 'os arg \<Rightarrow> unit \<Rightarrow> 'ps reading \<Rightarrow> (failure + unit) \<times> 'ps reading"
where
  "only_names L arg flags =
     (case arg of
        Value pair_name \<Rightarrow> push_name L pair_name
      | _ \<Rightarrow> slift (Inl (lx_unexpected L arg)))"

definition parse_check where
  "parse_check L s = returning (\<lambda>_. Check) (args_loop L (only_names L) () s)"

definition parse_discover where
  "parse_discover L s = returning (\<lambda>_. Discover) (args_loop L (only_names L) () s)"

definition parse_repair where
  "parse_repair L s = returning (\<lambda>_. Repair) (args_loop L (only_names L) () s)"

text \<open>
  The descriptor given with \<^verbatim>\<open>-r\<close> becomes a \<^verbatim>\<open>File\<close>; the standard library asserts that it is
  not -1. The last one given counts; that the file of an earlier one is closed is left out.
\<close>

definition daemon_arg ::
  "('ps, 'os, 'lvl) lexopt \<Rightarrow> 'os arg \<Rightarrow> i32 option \<Rightarrow> 'ps reading \<Rightarrow> (failure + i32 option) \<times> 'ps reading"
where
  "daemon_arg L arg ready_fd =
     (case arg of
        Short c \<Rightarrow>
          (if c = CHR ''r'' then
             sbind (next_value L) (\<lambda>v.
             sbind (slift (lx_parse_fd L v)) (\<lambda>raw_fd.
             if raw_fd = 2 then slift (bail ''Cannot use stderr as readiness fd'')
             else if raw_fd = -1 then slift (Inl (Panic ''fd != -1''))
             else sret (Some raw_fd)))
           else slift (Inl (lx_unexpected L arg)))
      | Value pair_name \<Rightarrow> sbind (push_name L pair_name) (\<lambda>_. sret ready_fd)
      | Long _ \<Rightarrow> slift (Inl (lx_unexpected L arg)))"

definition parse_daemon where
  "parse_daemon L s = returning Daemon (args_loop L (daemon_arg L) None s)"

definition sync_arg ::
  "('ps, 'os, 'lvl) lexopt \<Rightarrow> 'os arg \<Rightarrow> bool \<times> bool \<Rightarrow> 'ps reading \<Rightarrow> (failure + bool \<times> bool) \<times> 'ps reading"
where
  "sync_arg L arg = (\<lambda>(dry_run, interactive).
     (case arg of
        Short c \<Rightarrow>
          (if c = CHR ''n'' then sret (True, interactive)
           else if c = CHR ''i'' then sret (dry_run, True)
           else slift (Inl (lx_unexpected L arg)))
      | Value pair_name \<Rightarrow> sbind (push_name L pair_name) (\<lambda>_. sret (dry_run, interactive))
      | Long _ \<Rightarrow> slift (Inl (lx_unexpected L arg))))"

definition parse_sync where
  "parse_sync L s = returning (\<lambda>(dry_run, interactive). Sync dry_run interactive)
     (args_loop L (sync_arg L) (False, False) s)"

definition resolve_arg ::
  "('ps, 'os, 'lvl) lexopt \<Rightarrow> 'os arg \<Rightarrow> bool \<Rightarrow> 'ps reading \<Rightarrow> (failure + bool) \<times> 'ps reading"
where
  "resolve_arg L arg dry_run =
     (case arg of
        Short c \<Rightarrow> if c = CHR ''n'' then sret True else slift (Inl (lx_unexpected L arg))
      | Value pair_name \<Rightarrow> sbind (push_name L pair_name) (\<lambda>_. sret dry_run)
      | Long _ \<Rightarrow> slift (Inl (lx_unexpected L arg)))"

definition parse_resolve_conflicts where
  "parse_resolve_conflicts L s = returning ResolveConflicts (args_loop L (resolve_arg L) False s)"

definition no_more_args ::
  "('ps, 'os, 'lvl) lexopt \<Rightarrow> command \<Rightarrow> 'ps reading \<Rightarrow> (failure + command) \<times> 'ps reading"
where
  "no_more_args L command =
     sbind (next_arg L) (\<lambda>arg.
     slift (case arg of Some a \<Rightarrow> Inl (lx_unexpected L a) | None \<Rightarrow> Inr command))"

definition parse_list ::
  "('ps, 'os, 'lvl) lexopt \<Rightarrow> 'ps reading \<Rightarrow> (failure + command) \<times> 'ps reading"
where
  "parse_list L =
     sbind (next_arg L) (\<lambda>arg.
     sbind (slift (case arg of
         Some (Value val) \<Rightarrow>
           rbind (lx_string L val) (\<lambda>s.
           if s = ''pairs'' then Inr Pairs
           else if s = ''storages'' then Inr Storages
           else bail (fmt [''Unknown list target: '', s]))
       | Some a \<Rightarrow> Inl (lx_unexpected L a)
       | None \<Rightarrow> bail ''list requires a target (pairs or storages)'')) (\<lambda>target.
     no_more_args L (List target)))"

definition parse_version ::
  "('ps, 'os, 'lvl) lexopt \<Rightarrow> 'ps reading \<Rightarrow> (failure + command) \<times> 'ps reading"
where
  "parse_version L = no_more_args L Version"

section \<open>The command line\<close>

definition parse_command ::
  "('ps, 'os, 'lvl) lexopt \<Rightarrow> 'os \<Rightarrow> 'ps reading \<Rightarrow> ((failure + command) \<times> 'ps reading) option"
where
  "parse_command L raw_cmd s =
     (case lx_string L raw_cmd of
        Inl e \<Rightarrow> Some (Inl e, s)
      | Inr cmd \<Rightarrow>
          (if cmd = ''check'' then parse_check L s
           else if cmd = ''daemon'' then parse_daemon L s
           else if cmd = ''sync'' then parse_sync L s
           else if cmd = ''resolve-conflicts'' then parse_resolve_conflicts L s
           else if cmd = ''discover'' then parse_discover L s
           else if cmd = ''list'' then Some (parse_list L s)
           else if cmd = ''repair'' then parse_repair L s
           else if cmd = ''version'' then Some (parse_version L s)
           else Some (bail (fmt [''Unknown command: '', cmd]), s)))"

text \<open>The options before the command: the level and the configuration file read so far.\<close>

definition global_option ::
  "('ps, 'os, 'lvl) lexopt \<Rightarrow> 'os arg \<Rightarrow> 'lvl \<times> string option \<Rightarrow> 'ps reading \<Rightarrow>
    (failure + 'lvl \<times> string option) \<times> 'ps reading"
where
  "global_option L arg = (\<lambda>(log_level, config_file).
     (case arg of
        Short c \<Rightarrow>
          (if c = CHR ''v'' then
             sbind (next_value L) (\<lambda>v. sbind (slift (lx_parse_level L v)) (\<lambda>l. sret (l, config_file)))
           else if c = CHR ''c'' then
             sbind (next_value L) (\<lambda>v. sbind (slift (lx_string L v)) (\<lambda>f. sret (log_level, Some f)))
           else slift (Inl (lx_unexpected L arg)))
      | _ \<Rightarrow> slift (Inl (lx_unexpected L arg))))"

partial_function (option) cli_loop ::
  "('ps, 'os, 'lvl) lexopt \<Rightarrow> 'lvl \<times> string option \<Rightarrow> 'ps reading \<Rightarrow>
    ((failure + command option \<times> 'lvl \<times> string option) \<times> 'ps reading) option"
where
  "cli_loop L opts s =
     (case next_arg L s of
        (Inl e, s') \<Rightarrow> Some (Inl e, s')
      | (Inr None, s') \<Rightarrow> Some (Inr (None, opts), s')
      | (Inr (Some arg), s') \<Rightarrow>
          (case arg of
             Value raw_cmd \<Rightarrow> returning (\<lambda>c. (Some c, opts)) (parse_command L raw_cmd s')
           | _ \<Rightarrow>
               (case global_option L arg opts s' of
                  (Inl e, s'') \<Rightarrow> Some (Inl e, s'')
                | (Inr opts', s'') \<Rightarrow> cli_loop L opts' s'')))"

declare cli_loop.simps [code]

text \<open>\<^verbatim>\<open>Cli::parse\<close>; the first argument, the program itself, is skipped.\<close>

definition cli_parse :: "('ps, 'os, 'lvl) lexopt \<Rightarrow> string list \<Rightarrow> (failure + 'lvl cli) option" where
  "cli_parse L args =
     (case cli_loop L (lx_warn L, None) (lx_from_args L (drop 1 args), new) of
        None \<Rightarrow> None
      | Some (Inl e, _) \<Rightarrow> Some (Inl e)
      | Some (Inr (None, _), _) \<Rightarrow> Some (bail ''No command specified'')
      | Some (Inr (Some command, log_level, config_file), _, names) \<Rightarrow>
          Some (Inr \<lparr>cli_command = command, cli_log_level = log_level,
             cli_config_file = config_file, cli_names = names\<rparr>))"

end
