(* ===== verification/Cli_Props.thy ===== *)
theory Cli_Props
  imports Cli
begin

text \<open>
  Properties of the command line: reading it ends, and what the arguments of a command mean.
\<close>

section \<open>Reading ends\<close>

text \<open>
  What \<^verbatim>\<open>lexopt\<close> documents: an argument that is handed out is used up, and asking for the
  value of an option gives nothing back.
\<close>

definition uses_up :: "('ps, 'os, 'lvl) lexopt \<Rightarrow> ('ps \<Rightarrow> nat) \<Rightarrow> bool" where
  "uses_up L left \<longleftrightarrow>
     (\<forall>ps a ps'. lx_next L ps = (Inr (Some a), ps') \<longrightarrow> left ps' < left ps) \<and>
     (\<forall>ps. left (snd (lx_value L ps)) \<le> left ps)"

lemma next_arg_decreases:
  "uses_up L left \<Longrightarrow> next_arg L s = (Inr (Some a), s') \<Longrightarrow> left (fst s') < left (fst s)"
  by (auto simp: next_arg_def uses_up_def split: prod.splits)

lemma next_value_snd: "uses_up L left \<Longrightarrow> left (fst (snd (next_value L s))) \<le> left (fst s)"
  by (cases s) (auto simp: next_value_def uses_up_def split: prod.splits, metis snd_conv)

lemma push_name_fst [simp]: "fst (snd (push_name L v s)) = fst s"
  by (cases s) (simp add: push_name_def snd_sbind_slift split: sum.split)

lemma args_loop_returns:
  assumes "uses_up L left" and "\<And>arg f s. left (fst (snd (handle arg f s))) \<le> left (fst s)"
  shows "args_loop L handle f s \<noteq> None"
proof (induction "left (fst s)" arbitrary: f s rule: less_induct)
  case less
  obtain r s1 where n: "next_arg L s = (r, s1)" by (cases "next_arg L s")
  show ?case
  proof (cases r)
    case (Inr o1)
    show ?thesis
    proof (cases o1)
      case (Some a)
      obtain r2 s2 where h: "handle a f s1 = (r2, s2)" by (cases "handle a f s1")
      have "left (fst s2) < left (fst s)"
        using next_arg_decreases [OF assms(1)] n Inr Some assms(2) [of a f s1] h by fastforce
      from less [OF this] show ?thesis
        by (subst args_loop.simps) (simp add: n Inr Some h split: sum.split)
    qed (subst args_loop.simps, simp add: n Inr)
  qed (subst args_loop.simps, simp add: n)
qed

lemma handlers_use_up:
  assumes "uses_up L left"
  shows "left (fst (snd (only_names L arg u s))) \<le> left (fst s)"
    and "left (fst (snd (daemon_arg L arg fd s))) \<le> left (fst s)"
    and "left (fst (snd (sync_arg L arg flags s))) \<le> left (fst s)"
    and "left (fst (snd (resolve_arg L arg dry s))) \<le> left (fst s)"
    and "left (fst (snd (global_option L arg opts s))) \<le> left (fst s)"
  using next_value_snd [OF assms, of s]
  by (auto simp: only_names_def daemon_arg_def sync_arg_def resolve_arg_def global_option_def snd_sbind
      snd_sbind_slift split: arg.split sum.split prod.split)

lemma returning_None_iff [simp]: "returning f r = None \<longleftrightarrow> r = None"
  by (simp add: returning_def)

lemma parse_command_returns:
  assumes "uses_up L left"
  shows "parse_command L raw s \<noteq> None"
proof -
  note ends = args_loop_returns [OF assms handlers_use_up(1) [OF assms]]
    args_loop_returns [OF assms handlers_use_up(2) [OF assms]]
    args_loop_returns [OF assms handlers_use_up(3) [OF assms]]
    args_loop_returns [OF assms handlers_use_up(4) [OF assms]]
  show ?thesis
    unfolding parse_command_def parse_check_def parse_daemon_def parse_sync_def parse_resolve_conflicts_def
      parse_discover_def parse_repair_def
    by (simp add: ends del: not_None_eq split: sum.split)
qed

lemma cli_loop_returns:
  assumes "uses_up L left"
  shows "cli_loop L opts s \<noteq> None"
proof (induction "left (fst s)" arbitrary: opts s rule: less_induct)
  case less
  obtain r s1 where n: "next_arg L s = (r, s1)" by (cases "next_arg L s")
  show ?case
  proof (cases r)
    case (Inr o1)
    show ?thesis
    proof (cases o1)
      case (Some a)
      obtain r2 s2 where h: "global_option L a opts s1 = (r2, s2)" by (cases "global_option L a opts s1")
      have "left (fst s2) < left (fst s)"
        using next_arg_decreases [OF assms] n Inr Some handlers_use_up(5) [OF assms, of a opts s1] h by fastforce
      note again = less [OF this]
      show ?thesis
      proof (cases a)
        case (Value v)
        then show ?thesis
          by (subst cli_loop.simps) (simp add: n Inr Some parse_command_returns [OF assms] del: not_None_eq)
      qed (subst cli_loop.simps, use h again in \<open>simp add: n Inr Some del: not_None_eq split: sum.split\<close>)+
    qed (subst cli_loop.simps, simp add: n Inr)
  qed (subst cli_loop.simps, simp add: n)
qed

text \<open>
  C21. Reading the command line ends, whatever the arguments are: with a parser that uses up its
  arguments, the program gets a command line or an error.
\<close>
theorem cli_parse_returns:
  assumes "uses_up L left"
  shows "\<exists>r. cli_parse L args = Some r"
  using cli_loop_returns [OF assms, of "(lx_warn L, None)" "(lx_from_args L (drop 1 args), new)"]
  by (auto simp: cli_parse_def split: sum.splits option.splits)

text \<open>A small parser, for the witnesses: clusters of short options, values and separate values.\<close>

definition demo_next :: "string \<times> string list \<Rightarrow> (failure + string arg option) \<times> string \<times> string list" where
  "demo_next = (\<lambda>(cluster, rest).
     (case cluster of
        c # cs \<Rightarrow> (Inr (Some (Short c)), cs, rest)
      | [] \<Rightarrow>
          (case rest of
             [] \<Rightarrow> (Inr None, [], [])
           | a # as \<Rightarrow>
               (case a of
                  c # d # ds \<Rightarrow> if c = CHR ''-'' then (Inr (Some (Short d)), ds, as) else (Inr (Some (Value a)), [], as)
                | _ \<Rightarrow> (Inr (Some (Value a)), [], as)))))"

definition demo_lexopt :: "(string \<times> string list, string, nat) lexopt" where
  "demo_lexopt =
     \<lparr>lx_from_args = (\<lambda>as. ([], as)), lx_next = demo_next,
      lx_value = (\<lambda>(cluster, rest). case rest of [] \<Rightarrow> (bail ''missing argument'', cluster, rest)
        | a # as \<Rightarrow> (Inr a, [], as)),
      lx_string = Inr, lx_parse_level = (\<lambda>_. Inr 3), lx_parse_fd = (\<lambda>_. Inr 5),
      lx_unexpected = (\<lambda>_. Err [''invalid option'']), lx_warn = 2\<rparr>"

lemma demo_uses_up: "uses_up demo_lexopt (\<lambda>(cluster, rest). length cluster + length (concat rest) + length rest)"
  by (auto simp: uses_up_def demo_lexopt_def demo_next_def split: list.splits if_splits)

theorem cli_parse_returns_witness:
  "\<exists>r. cli_parse demo_lexopt [''pimsync'', ''-v'', ''debug'', ''sync'', ''-ni'', ''cal''] = Some r"
  by (rule cli_parse_returns [OF demo_uses_up])

section \<open>What the arguments of sync mean\<close>

text \<open>The parser hands out exactly these arguments and then has none left.\<close>

fun supplies :: "('ps, 'os, 'lvl) lexopt \<Rightarrow> 'ps \<Rightarrow> 'os arg list \<Rightarrow> bool" where
  "supplies L ps [] = (fst (lx_next L ps) = Inr None)"
| "supplies L ps (a # as) =
     (fst (lx_next L ps) = Inr (Some a) \<and> supplies L (snd (lx_next L ps)) as)"

definition names_in :: "('ps, 'os, 'lvl) lexopt \<Rightarrow> 'os arg list \<Rightarrow> string set" where
  "names_in L as = {n. \<exists>v. Value v \<in> set as \<and> lx_string L v = Inr n}"

definition more_names :: "string set \<Rightarrow> filter_names \<Rightarrow> string set option" where
  "more_names ns names = (if ns = {} then wanted names
     else Some (ns \<union> (case wanted names of None \<Rightarrow> {} | Some s \<Rightarrow> s)))"

lemma more_names_new: "more_names ns new = (if ns = {} then None else Some ns)"
  by (simp add: more_names_def)

lemma sync_args_read:
  assumes "supplies L ps as"
    and "\<forall>a \<in> set as. a = Short (CHR ''n'') \<or> a = Short (CHR ''i'') \<or> (\<exists>v n. a = Value v \<and> lx_string L v = Inr n)"
  shows "\<exists>ps' names'. args_loop L (sync_arg L) (d, i) (ps, names) =
      Some (Inr (d \<or> Short (CHR ''n'') \<in> set as, i \<or> Short (CHR ''i'') \<in> set as), ps', names') \<and>
    wanted names' = more_names (names_in L as) names"
  using assms
proof (induction as arbitrary: ps d i names)
  case Nil
  then have "next_arg L (ps, names) = (Inr None, snd (lx_next L ps), names)"
    by (cases "lx_next L ps") (simp add: next_arg_def)
  then show ?case by (subst args_loop.simps) (simp add: more_names_def names_in_def)
next
  case (Cons a as)
  let ?ps = "snd (lx_next L ps)"
  have n: "next_arg L (ps, names) = (Inr (Some a), ?ps, names)"
    using Cons.prems(1) by (cases "lx_next L ps") (simp add: next_arg_def)
  have IH: "\<exists>ps' names'. args_loop L (sync_arg L) (d', i') (?ps, names1) =
      Some (Inr (d' \<or> Short (CHR ''n'') \<in> set as, i' \<or> Short (CHR ''i'') \<in> set as), ps', names') \<and>
    wanted names' = more_names (names_in L as) names1" for d' i' names1
    using Cons by simp
  from Cons.prems(2) consider "a = Short (CHR ''n'')" | "a = Short (CHR ''i'')"
    | v m where "a = Value v" "lx_string L v = Inr m" by auto
  then show ?case
  proof cases
    case 1
    then have "names_in L (a # as) = names_in L as" by (simp add: names_in_def)
    with IH [of True i names] 1 n show ?thesis by (subst args_loop.simps) (simp add: sync_arg_def)
  next
    case 2
    then have "names_in L (a # as) = names_in L as" by (simp add: names_in_def)
    with IH [of d True names] 2 n show ?thesis by (subst args_loop.simps) (simp add: sync_arg_def)
  next
    case (3 v m)
    have "names_in L (a # as) = insert m (names_in L as)" using 3 by (auto simp: names_in_def)
    then have "more_names (names_in L as) (snd (push m names)) = more_names (names_in L (a # as)) names"
      by (auto simp: more_names_def wanted_push)
    moreover have "sync_arg L a (d, i) (?ps, names) = (Inr (d, i), ?ps, snd (push m names))"
      using 3 by (simp add: sync_arg_def push_name_def sbind_def)
    ultimately show ?thesis
      using IH [of d i "snd (push m names)"] n 3 by (subst args_loop.simps) simp
  qed
qed

text \<open>
  C23. The arguments of \<^verbatim>\<open>sync\<close> mean what they say, in any order and however often they occur:
  \<^verbatim>\<open>-n\<close> makes it a dry run, \<^verbatim>\<open>-i\<close> interactive, and exactly the names given are wanted (all
  pairs when none is given).
\<close>
theorem parse_sync_meaning:
  assumes "supplies L ps as"
    and "\<forall>a \<in> set as. a = Short (CHR ''n'') \<or> a = Short (CHR ''i'') \<or> (\<exists>v n. a = Value v \<and> lx_string L v = Inr n)"
  shows "\<exists>ps' names. parse_sync L (ps, new) =
      Some (Inr (Sync (Short (CHR ''n'') \<in> set as) (Short (CHR ''i'') \<in> set as)), ps', names) \<and>
    wanted names = (if names_in L as = {} then None else Some (names_in L as))"
proof -
  obtain ps' names' where "args_loop L (sync_arg L) (False, False) (ps, new) =
      Some (Inr (Short (CHR ''n'') \<in> set as, Short (CHR ''i'') \<in> set as), ps', names')"
    "wanted names' = (if names_in L as = {} then None else Some (names_in L as))"
    using sync_args_read [OF assms, of False False new] by (auto simp only: more_names_new simp_thms)
  then show ?thesis by (simp add: parse_sync_def returning_def)
qed

theorem parse_sync_meaning_witness:
  "\<exists>ps' names. parse_sync demo_lexopt (([], [''cal'', ''-in'', ''work'']), new) = Some (Inr (Sync True True), ps', names) \<and>
     wanted names = Some {''cal'', ''work''}"
proof -
  let ?as = "[Value ''cal'', Short (CHR ''i''), Short (CHR ''n''), Value ''work'']"
  have s: "supplies demo_lexopt ([], [''cal'', ''-in'', ''work'']) ?as"
    by (simp add: demo_lexopt_def demo_next_def)
  have "\<forall>a \<in> set ?as. a = Short (CHR ''n'') \<or> a = Short (CHR ''i'') \<or> (\<exists>v n. a = Value v \<and> lx_string demo_lexopt v = Inr n)"
    by (simp add: demo_lexopt_def)
  moreover have "names_in demo_lexopt ?as = {''cal'', ''work''}"
    by (auto simp: names_in_def demo_lexopt_def)
  ultimately show ?thesis using parse_sync_meaning [OF s] by auto
qed

end
