(* ===== verification/App.thy ===== *)
theory App
  imports Config_Props Repair_Props Daemon Cli_Props
begin

text \<open>
  \<^verbatim>\<open>main\<close> of \<^verbatim>\<open>src/src/main.rs\<close>: from the arguments of the program to its end, through all the
  other parts. Everything outside the program is one record, \<open>app_env\<close>; the state is the world
  of \<open>shell\<close> with the commands that reading the configuration has run beside it.
\<close>

section \<open>What surrounds the program\<close>

record ('s, 'd, 'uri, 'hv, 'cid, 'p, 'w, 'temp, 'child, 'db, 'ps, 'os, 'lvl, 'i, 'file) app_env =
  app_lexopt :: "('ps, 'os, 'lvl) lexopt"
  app_eprint :: "string \<Rightarrow> 'w \<Rightarrow> 'w"                        \<comment> \<open>\<^verbatim>\<open>eprintln!\<close>\<close>
  app_set_logger :: "'lvl \<Rightarrow> failure + unit"
  app_xdg :: "string option"                               \<comment> \<open>\<^verbatim>\<open>XDG_CONFIG_HOME\<close>\<close>
  app_home :: "string option"
  app_open :: "string \<Rightarrow> failure + 'file"
  app_read :: "'file \<Rightarrow> failure + string"
  app_scfg :: "('s, 'd) scfg_api"
  app_host :: "('uri, 'hv, 'cid) host"
  app_pairs :: "(('uri, 'hv, 'cid) storage, 'cid, 'p) pair_api"
  app_shell :: "('w, 'temp, 'child, 'p, 'db) shell"
  app_repair :: "('w, ('uri, 'hv, 'cid) storage, 'i) repair_api"
  app_run :: cmd_world
  app_pick :: "string set \<Rightarrow> string"                       \<comment> \<open>the first of a \<^verbatim>\<open>HashSet\<close>\<close>
  app_joinerr :: "string \<Rightarrow> string"
  app_a_first :: "string \<Rightarrow> bool"
  app_walk :: "(string \<rightharpoonup> 's) \<Rightarrow> (string \<times> 's) list"       \<comment> \<open>the order of a \<^verbatim>\<open>HashMap\<close>\<close>
  app_storage_order ::
    "(failure + ('uri, 'hv, 'cid) storage named_storage) list \<Rightarrow>
      (failure + ('uri, 'hv, 'cid) storage named_storage) list"
  app_pair_order :: "(failure + 'p named_pair) list \<Rightarrow> (failure + 'p named_pair) list"

text \<open>
  How \<^verbatim>\<open>main\<close> goes on: it exits with a code, returns a result, or hands over to the concurrent
  tasks of a daemon or of a repair.
\<close>

datatype ('p, 'st) app_outcome =
    Exits nat
  | Returns "failure + unit"
  | Serves "'p named_pair list"
  | Repairs "'st named_storage list"

fun final :: "('p, 'st) app_outcome \<Rightarrow> bool" where
  "final (Exits code) = True"
| "final (Returns r) = True"
| "final (Serves pairs) = False"
| "final (Repairs storages) = False"

type_synonym ('p, 'st, 'w) app_result = "(('p, 'st) app_outcome \<times> 'w \<times> cmd_log) option"

definition returns :: "(failure + unit) \<times> 'w \<Rightarrow> cmd_log \<Rightarrow> ('p, 'st, 'w) app_result" where
  "returns result log = Some (Returns (fst result), snd result, log)"

section \<open>Usage\<close>

definition tab :: string where
  "tab = [CHR 0x09]"

text \<open>The ellipsis of the usage text, as the bytes of its UTF-8 encoding.\<close>

definition ellipsis :: string where
  "ellipsis = [CHR 0xE2, CHR 0x80, CHR 0xA6]"

fun show_failure :: "failure \<Rightarrow> string" where
  "show_failure (Err (m # ms)) = m"
| "show_failure (Err []) = []"
| "show_failure (Panic m) = m"

definition usage :: "failure \<Rightarrow> string list" where
  "usage err =
     map (\<lambda>parts. fmt (parts @ [newline]))
       [[''Bad usage: '', show_failure err, newline],
        [''Usage: pimsync [-c CONFIGFILE ] [-v LOGLEVEL] COMMAND''],
        [''Commands:''],
        [tab, ''check [PAIR'', ellipsis, '']'', tab, tab, tab, ''check configuration and exit''],
        [tab, ''daemon -[r READY_FD] [PAIR'', ellipsis, '']'', tab, ''keep storages in sync''],
        [tab, ''sync [-n] [-i] [PAIR'', ellipsis, '']'', tab, tab, ''sync storages once''],
        [tab, ''resolve-conflicts [-n] [PAIR'', ellipsis, '']'', tab, ''manually resolve conflicts''],
        [tab, ''discover [PAIR'', ellipsis, '']'', tab, tab, ''print discovered collections''],
        [tab, ''list [pairs|storages]'', tab, tab, ''list configured pairs or storages''],
        [tab, ''repair [PAIR/STORAGE'', ellipsis, '']'', tab, tab, ''repair invalid items in collections''],
        [tab, ''version'', tab, tab, tab, tab, ''print version''],
        [''See '', [CHR 0x27], ''man pimsync'', [CHR 0x27], '' for details'']]"

section \<open>The commands\<close>

text \<open>The configuration file that is read: its path and what it holds.\<close>

definition load_config where
  "load_config E config_file =
     rbind (case config_file of
              Some file \<Rightarrow>
                rmap (Pair file) (with_context (fmt [''Could not open '', file, ''.'']) (app_open E file))
            | None \<Rightarrow>
                open_default_path (app_xdg E) (app_home E) (path_join (app_host E)) (app_open E)) (\<lambda>(path, file).
     rmap (Pair path) (app_read E file))"

definition repair_command where
  "repair_command E names config_data w log =
     (case parse_storages (app_scfg E) (app_host E) (app_run E) (app_pick E) (app_joinerr E)
             (app_storage_order E) config_data names log of
        (Inl e, log') \<Rightarrow> returns (Inl e, w) log'
      | (Inr storages, log') \<Rightarrow> Some (Repairs storages, w, log'))"

definition list_command where
  "list_command E target config_data w log =
     (case (case target of
              Pairs \<Rightarrow> list_pair_names (app_scfg E) config_data
            | Storages \<Rightarrow> list_storage_names (app_scfg E) config_data) of
        Inl e \<Rightarrow> returns (Inl e, w) log
      | Inr names \<Rightarrow>
          returns (Inr (), print_lines (app_shell E) (map (\<lambda>name. fmt [name, newline]) names) w) log)"

text \<open>The pairs the other commands work on.\<close>

definition start_pairs where
  "start_pairs E names config_path config_data log =
     (case parse_config (app_scfg E) (app_run E) (app_pick E) config_data names log of
        (config, log') \<Rightarrow>
          (rbind (with_context (fmt [''Could not parse configuration file at '', config_path]) config)
            (into_named_pairs (app_scfg E) (app_host E) (app_pairs E) (app_a_first E) (app_joinerr E)
              (app_walk E) (app_pair_order E)), log'))"

definition io_returns :: "((failure + unit) \<times> 'w) option \<Rightarrow> cmd_log \<Rightarrow> ('p, 'st, 'w) app_result" where
  "io_returns result log = Option.bind result (\<lambda>r. returns r log)"

text \<open>The note on the readiness descriptor, whose file is closed right after.\<close>

definition signal_ready ::
  "('w, 'temp, 'child, 'p, 'db) shell \<Rightarrow> i32 option \<Rightarrow> 'w \<Rightarrow> (failure + unit) \<times> 'w"
where
  "signal_ready S ready_fd =
     (case ready_fd of
        None \<Rightarrow> sret ()
      | Some fd \<Rightarrow> scontext ''writing to readiness fd''
          (sh_write_fd S (sint fd) (fmt [''READY=1'', newline])))"

definition pair_command where
  "pair_command E cmd pairs w log =
     (case cmd of
        Check \<Rightarrow> returns (Inr (), w) log
      | Daemon ready_fd \<Rightarrow>
          (case signal_ready (app_shell E) ready_fd w of
             (Inl e, w') \<Rightarrow> returns (Inl e, w') log
           | (Inr _, w') \<Rightarrow> Some (Serves pairs, w', log))
      | Sync dry_run interactive \<Rightarrow> io_returns (sync (app_shell E) dry_run interactive pairs w) log
      | ResolveConflicts dry_run \<Rightarrow> io_returns (resolve_conflicts (app_shell E) dry_run pairs w) log
      | Discover \<Rightarrow> returns (discover (app_shell E) pairs w) log
      | _ \<Rightarrow> returns (Inl (Panic ''internal error: entered unreachable code: Handled above''), w) log)"

definition run_command where
  "run_command E cmd names config_path config_data w log =
     (case cmd of
        Repair \<Rightarrow> repair_command E names config_data w log
      | List target \<Rightarrow> list_command E target config_data w log
      | _ \<Rightarrow>
          (case start_pairs E names config_path config_data log of
             (Inl e, log') \<Rightarrow> returns (Inl e, w) log'
           | (Inr pairs, log') \<Rightarrow> pair_command E cmd pairs w log'))"

text \<open>\<^verbatim>\<open>main\<close>. What the logger writes is left out.\<close>

definition app_main where
  "app_main E os_args w log =
     (case cli_parse (app_lexopt E) os_args of
        None \<Rightarrow> None
      | Some (Inl (Panic p)) \<Rightarrow> returns (Inl (Panic p), w) log
      | Some (Inl err) \<Rightarrow> Some (Exits 100, fold (app_eprint E) (usage err) w, log)
      | Some (Inr cli) \<Rightarrow>
          (if cli_command cli = Version then
             returns (Inr (), sh_print (app_shell E) (fmt [''pimsync '', version (app_host E), newline]) w) log
           else
             (case app_set_logger E (cli_log_level cli) of
                Inl _ \<Rightarrow> returns (Inl (Panic ''logger should initialise''), w) log
              | Inr _ \<Rightarrow>
                  (case load_config E (cli_config_file cli) of
                     Inl e \<Rightarrow> returns (Inl e, w) log
                   | Inr (config_path, config_data) \<Rightarrow>
                       run_command E (cli_command cli) (cli_names cli) config_path config_data w log))))"

text \<open>
  A run of the whole program that ends: \<^verbatim>\<open>main\<close> returns or exits, or the daemon it started has
  taken some steps and every one of its tasks is over, or all tasks of a repair have ended.
\<close>

inductive program_ends for E os_args w log where
  main_ends: "app_main E os_args w log = Some (out, w', log') \<Longrightarrow> final out \<Longrightarrow>
    program_ends E os_args w log out w'"
| daemon_ends: "app_main E os_args w log = Some (Serves pairs, w', log') \<Longrightarrow>
    rtranclp (daemon_step (app_shell E) pairs) (daemon_start pairs w') (tasks, w'') \<Longrightarrow>
    daemon_result tasks = Some r \<Longrightarrow> program_ends E os_args w log (Returns r) w''"
| repair_ends: "app_main E os_args w log = Some (Repairs storages, w', log') \<Longrightarrow>
    repair_storages (app_repair E) storages w' r w'' \<Longrightarrow> program_ends E os_args w log (Returns r) w''"

inductive_cases program_endsE: "program_ends E os_args w log out w'"

end
