(* ===== verification/App_Props.thy ===== *)
theory App_Props
  imports App
begin

text \<open>
  Properties of whole runs of the program: what each command may do to the world and which
  pairs it works on, through reading the command line, the configuration and the storages.
\<close>

section \<open>What a command does\<close>

definition on_pairs :: "command \<Rightarrow> bool" where
  "on_pairs cmd = (case cmd of Version \<Rightarrow> False | Repair \<Rightarrow> False | List _ \<Rightarrow> False | _ \<Rightarrow> True)"

lemma app_main_runs:
  assumes "cli_parse (app_lexopt E) a = Some (Inr c)" and "cli_command c \<noteq> Version"
    and "app_set_logger E (cli_log_level c) = Inr ()" and "load_config E (cli_config_file c) = Inr (path, content)"
  shows "app_main E a w log = run_command E (cli_command c) (cli_names c) path content w log"
  using assms by (simp add: app_main_def)

lemma run_command_on_pairs:
  assumes "on_pairs cmd"
  shows "run_command E cmd names path content w log =
    (case start_pairs E names path content log of
       (Inl e, log') \<Rightarrow> returns (Inl e, w) log'
     | (Inr pairs, log') \<Rightarrow> pair_command E cmd pairs w log')"
  using assms by (simp add: run_command_def on_pairs_def split: command.splits)

lemma app_main_on_pairs:
  assumes "cli_parse (app_lexopt E) a = Some (Inr c)" and "on_pairs (cli_command c)"
    and "app_main E a w log = Some (out, w', log')"
  shows "(\<exists>e. out = Returns (Inl e) \<and> w' = w) \<or>
    (\<exists>path content pairs log1. app_set_logger E (cli_log_level c) = Inr () \<and>
       load_config E (cli_config_file c) = Inr (path, content) \<and>
       start_pairs E (cli_names c) path content log = (Inr pairs, log1) \<and>
       pair_command E (cli_command c) pairs w log1 = Some (out, w', log'))"
proof -
  have v: "cli_command c \<noteq> Version" using assms(2) by (auto simp: on_pairs_def)
  show ?thesis
  proof (cases "app_set_logger E (cli_log_level c)")
    case (Inl e)
    with assms v show ?thesis by (auto simp: app_main_def returns_def)
  next
    case (Inr u)
    show ?thesis
    proof (cases "load_config E (cli_config_file c)")
      case (Inl e)
      with assms v Inr show ?thesis by (auto simp: app_main_def returns_def)
    next
      case load: (Inr p)
      obtain path content where p: "p = (path, content)" by fastforce
      obtain r log1 where st: "start_pairs E (cli_names c) path content log = (r, log1)" by fastforce
      have run: "run_command E (cli_command c) (cli_names c) path content w log = Some (out, w', log')"
        using app_main_runs [OF assms(1) v] Inr load p assms(3) by simp
      show ?thesis
      proof (cases r)
        case (Inl e)
        with run st show ?thesis by (auto simp: run_command_on_pairs [OF assms(2)] returns_def)
      next
        case (Inr pairs)
        with run st have "pair_command E (cli_command c) pairs w log1 = Some (out, w', log')"
          by (simp add: run_command_on_pairs [OF assms(2)])
        with st Inr load p \<open>app_set_logger E (cli_log_level c) = Inr u\<close> show ?thesis
          by (intro disjI2 exI [of _ path] exI [of _ content] exI [of _ pairs] exI [of _ log1]) simp
      qed
    qed
  qed
qed

section \<open>A program to try\<close>

definition plain_shell :: "(string list, unit, unit, built list, unit) shell" where
  "plain_shell =
     \<lparr>sh_print = (\<lambda>s w. w @ [s]), sh_flush = (\<lambda>w. (Inr (), w)), sh_read_line = (\<lambda>w. (Inr [], w)),
      sh_temp_new = (\<lambda>w. (Inr (), w)), sh_temp_write = (\<lambda>t s w. (Inr (), w)), sh_temp_path = (\<lambda>_. []),
      sh_temp_rewind = (\<lambda>t w. (Inr (), w)), sh_temp_read = (\<lambda>t w. (Inr [], w)),
      sh_spawn = (\<lambda>_ w. (Inr (), w)), sh_wait = (\<lambda>_ w. (Inr (True, []), w)), sh_sync = id, sh_item_hash = id,
      sh_update_item = (\<lambda>_ _ _ _ _ w. (Inr (), w @ [''update''])),
      sh_set_property = (\<lambda>_ _ _ _ _ w. (Inr (), w @ [''property''])), sh_b_first = (\<lambda>_. False),
      sh_status_open = (\<lambda>_ w. (Inr None, w)), sh_status_create = (\<lambda>_ w. (Inr (), w @ [''status''])),
      sh_plan_new = (\<lambda>_ _ w. (Inr [], w)), sh_keep_side = (\<lambda>_ p. p),
      sh_execute = (\<lambda>_ _ _ w. ((Inr (Inr ()), 0), w @ [''execute''])),
      sh_discover = (\<lambda>_ _ w. (Inr [], w)), sh_monitor = (\<lambda>_ _ _ w. (bail ''no monitor'', w)),
      sh_next_event = (\<lambda>_ w. None), sh_write_fd = (\<lambda>_ s w. (Inr (), w @ [s])),
      sh_is_conflict = (\<lambda>_. False), sh_op_uid = (\<lambda>_. None), sh_show_item = (\<lambda>_. []),
      sh_show_property = (\<lambda>_. [])\<rparr>"

definition demo_env ::
  "(tree, tdir, string, string, string, built list, string list, unit, unit, unit,
    string \<times> string list, string, nat, unit, string) app_env"
where
  "demo_env =
     \<lparr>app_lexopt = demo_lexopt, app_eprint = (\<lambda>s w. w @ [s]), app_set_logger = (\<lambda>_. Inr ()),
      app_xdg = Some ''/etc'', app_home = None, app_open = Inr, app_read = Inr,
      app_scfg = tree_api file_doc, app_host = demo_host, app_pairs = demo_builder, app_shell = plain_shell,
      app_repair = \<lparr>ra_discover = (\<lambda>_ w. (Inr [], w)), ra_get_all = (\<lambda>_ _ w. (Inr [], w)),
        ra_update = (\<lambda>_ _ _ _ w. (Inr (), w)), ra_uid = (\<lambda>_. None), ra_hash = (\<lambda>_. []),
        ra_with_uid = (\<lambda>i _. i), ra_now = (\<lambda>_. None)\<rparr>,
      app_run = echo_world, app_pick = (\<lambda>_. []), app_joinerr = id, app_a_first = (\<lambda>_. True),
      app_walk = demo_walk, app_storage_order = id, app_pair_order = rev\<rparr>"

definition demo_sync_cli :: "nat cli" where
  "demo_sync_cli = \<lparr>cli_command = Sync True False, cli_log_level = 2, cli_config_file = Some ''conf'', cli_names = FilterNames (Some {''cal''})\<rparr>"

lemma demo_sync_cli_simps [simp]:
  "cli_command demo_sync_cli = Sync True False" "cli_config_file demo_sync_cli = Some ''conf''"
  "cli_names demo_sync_cli = FilterNames (Some {''cal''})"
  by (simp_all add: demo_sync_cli_def)

lemma demo_sync_args:
  "cli_parse demo_lexopt [''pimsync'', ''-c'', ''conf'', ''sync'', ''-n'', ''cal''] = Some (Inr demo_sync_cli)"
  by code_simp

definition demo_list_cli :: "nat cli" where
  "demo_list_cli = \<lparr>cli_command = List Pairs, cli_log_level = 2, cli_config_file = Some ''conf'', cli_names = new\<rparr>"

lemma demo_list_cli_simps [simp]:
  "cli_command demo_list_cli = List Pairs" "cli_config_file demo_list_cli = Some ''conf''"
  "cli_names demo_list_cli = new"
  by (simp_all add: demo_list_cli_def)

lemma demo_list_args:
  "cli_parse demo_lexopt [''pimsync'', ''-c'', ''conf'', ''list'', ''pairs''] = Some (Inr demo_list_cli)"
  by code_simp

definition demo_daemon_cli :: "nat cli" where
  "demo_daemon_cli = \<lparr>cli_command = Daemon (Some 5), cli_log_level = 2, cli_config_file = Some ''conf'', cli_names = FilterNames (Some {''cal''})\<rparr>"

lemma demo_daemon_cli_simps [simp]:
  "cli_command demo_daemon_cli = Daemon (Some 5)" "cli_config_file demo_daemon_cli = Some ''conf''"
  "cli_names demo_daemon_cli = FilterNames (Some {''cal''})"
  by (simp_all add: demo_daemon_cli_def)

lemma demo_daemon_args:
  "cli_parse demo_lexopt [''pimsync'', ''-c'', ''conf'', ''daemon'', ''-r'', ''5'', ''cal''] = Some (Inr demo_daemon_cli)"
  by code_simp

lemma demo_config_read:
  "load_config demo_env (Some ''conf'') = Inr (''conf'', ''conf'')"
  by (simp add: load_config_def demo_env_def)

lemma demo_starts:
  obtains cfg pairs where
    "parse_config (app_scfg demo_env) (app_run demo_env) (app_pick demo_env) ''conf'' (FilterNames (Some {''cal''})) [] = (Inr cfg, [])"
    and "into_named_pairs (app_scfg demo_env) (app_host demo_env) (app_pairs demo_env) (app_a_first demo_env)
       (app_joinerr demo_env) (app_walk demo_env) (app_pair_order demo_env) cfg = Inr pairs"
proof -
  let ?start = "start_pairs demo_env (FilterNames (Some {''cal''})) ''conf'' ''conf'' []"
  have ok: "is_ok (fst ?start)" "snd ?start = []" by code_simp+
  obtain r log' where p: "parse_config (app_scfg demo_env) (app_run demo_env) (app_pick demo_env) ''conf''
      (FilterNames (Some {''cal''})) [] = (r, log')" by fastforce
  from ok obtain cfg pairs where "r = Inr cfg" "log' = []" "into_named_pairs (app_scfg demo_env) (app_host demo_env)
      (app_pairs demo_env) (app_a_first demo_env) (app_joinerr demo_env) (app_walk demo_env)
      (app_pair_order demo_env) cfg = Inr pairs"
    by (auto simp: start_pairs_def p is_ok_iff rbind_eq_Inr_iff)
  with p that show thesis by simp
qed

section \<open>Which pairs a command works on\<close>

text \<open>
  C1. \<^verbatim>\<open>pimsync sync\<close> synchronises exactly the pairs it was asked for, each of them once, from
  the command line to the loop over the pairs: all pairs that the configuration file defines
  when no name is given, and otherwise exactly those named.
\<close>
theorem sync_acts_on_requested:
  assumes "scfg_laws (app_scfg E)" and "\<forall>rs. mset (app_pair_order E rs) = mset rs"
    and "cli_parse (app_lexopt E) a = Some (Inr c)" and "cli_command c = Sync dry_run interactive"
    and "app_set_logger E (cli_log_level c) = Inr ()" and "load_config E (cli_config_file c) = Inr (path, content)"
    and "parse_config (app_scfg E) (app_run E) (app_pick E) content (cli_names c) log = (Inr cfg, log')"
    and "map_of (app_walk E (cfg_pairs cfg)) = cfg_pairs cfg" and "distinct (map fst (app_walk E (cfg_pairs cfg)))"
    and "into_named_pairs (app_scfg E) (app_host E) (app_pairs E) (app_a_first E) (app_joinerr E)
      (app_walk E) (app_pair_order E) cfg = Inr pairs"
  shows "app_main E a w log = io_returns (sync (app_shell E) dry_run interactive pairs w) log' \<and>
    distinct (map pair_name pairs) \<and>
    (\<exists>ns. list_pair_names (app_scfg E) content = Inr ns \<and>
      set (map pair_name pairs) = (case wanted (cli_names c) of None \<Rightarrow> set ns | Some S \<Rightarrow> S))"
proof -
  have start: "start_pairs E (cli_names c) path content log = (Inr pairs, log')"
    by (simp add: start_pairs_def assms(7,10))
  have main: "app_main E a w log = io_returns (sync (app_shell E) dry_run interactive pairs w) log'"
    using app_main_runs [OF assms(3) _ assms(5,6), of w log] assms(4)
    by (simp add: run_command_on_pairs on_pairs_def start pair_command_def)
  show ?thesis
    using main requested_pairs [OF assms(1) assms(7)] started_pairs [OF assms(1,8,9,2,10)] by auto
qed

section \<open>What is left alone\<close>



text \<open>
  C9. A dry run of the whole program, \<^verbatim>\<open>pimsync sync -n\<close>, changes neither a storage nor a status
  database: it behaves the same whatever executing a plan, creating a status database, or
  writing to a storage would do.
\<close>
theorem dry_run_program:
  assumes "cli_parse (app_lexopt E) a = Some (Inr c)" and "cli_command c = Sync True interactive"
  shows "app_main (E\<lparr>app_shell := write_ops (app_shell E) exec create update setp\<rparr>) a w log = app_main E a w log"
proof -
  let ?E = "E\<lparr>app_shell := write_ops (app_shell E) exec create update setp\<rparr>"
  have same: "load_config ?E = load_config E" "start_pairs ?E = start_pairs E"
    by (simp_all add: load_config_def start_pairs_def fun_eq_iff split: option.split)
  have "run_command ?E (Sync True interactive) names path content w log' =
      run_command E (Sync True interactive) names path content w log'" for names path content log'
    by (simp add: run_command_on_pairs on_pairs_def same pair_command_def dry_run_sync
        split: prod.split sum.split)
  then show ?thesis using assms by (simp add: app_main_def same split: sum.split)
qed

section \<open>How runs end\<close>

lemma pair_command_daemon:
  assumes "pair_command E (Daemon fd) pairs w log = Some (out, w', log')"
  shows "(\<exists>e. out = Returns (Inl e)) \<or> out = Serves pairs"
proof -
  obtain r w1 where s: "signal_ready (app_shell E) fd w = (r, w1)" by fastforce
  show ?thesis using assms by (cases r) (auto simp: pair_command_def s returns_def)
qed

text \<open>
  C18. The daemon never reports success: a run of \<^verbatim>\<open>pimsync daemon\<close> that ends, ends with an error
  or a panic.
\<close>
theorem daemon_never_succeeds:
  assumes "cli_parse (app_lexopt E) a = Some (Inr c)" and "cli_command c = Daemon fd"
    and "program_ends E a w log out w'"
  shows "\<exists>e. out = Returns (Inl e)"
proof -
  have on: "on_pairs (cli_command c)" by (simp add: assms(2) on_pairs_def)
  have no_repair: "out' \<noteq> Repairs storages \<and> (final out' \<longrightarrow> (\<exists>e. out' = Returns (Inl e)))"
    if "app_main E a w log = Some (out', w1, log1)" for out' w1 log1 storages
    using app_main_on_pairs [OF assms(1) on that]
    by (auto simp: assms(2) dest!: pair_command_daemon)
  from assms(3) show ?thesis
  proof (cases rule: program_ends.cases)
    case (main_ends log')
    with no_repair show ?thesis by blast
  next
    case (daemon_ends pairs w1 log' tasks r)
    then show ?thesis by (auto simp: daemon_result_def bail_def split: if_splits)
  next
    case (repair_ends storages w1 log' r)
    with no_repair show ?thesis by blast
  qed
qed


section \<open>The properties on the program to try\<close>

lemma demo_env_simps [simp]:
  "app_lexopt demo_env = demo_lexopt" "app_set_logger demo_env l = Inr ()"
  "app_shell demo_env = plain_shell" "app_scfg demo_env = tree_api file_doc"
  "app_pair_order demo_env = rev" "app_walk demo_env = demo_walk"
  by (simp_all add: demo_env_def)

text \<open>Asked for \<^verbatim>\<open>cal\<close>, the program starts with one pair.\<close>

lemma demo_started:
  obtains cfg pair where
    "parse_config (app_scfg demo_env) (app_run demo_env) (app_pick demo_env) ''conf'' (FilterNames (Some {''cal''})) [] = (Inr cfg, [])"
    and "map_of (app_walk demo_env (cfg_pairs cfg)) = cfg_pairs cfg" and "distinct (map fst (app_walk demo_env (cfg_pairs cfg)))"
    and "into_named_pairs (app_scfg demo_env) (app_host demo_env) (app_pairs demo_env) (app_a_first demo_env)
       (app_joinerr demo_env) (app_walk demo_env) (app_pair_order demo_env) cfg = Inr [pair]"
    and "pair_name pair = ''cal''"
proof -
  obtain cfg pairs where cfg: "parse_config (app_scfg demo_env) (app_run demo_env) (app_pick demo_env) ''conf''
      (FilterNames (Some {''cal''})) [] = (Inr cfg, [])"
    and pairs: "into_named_pairs (app_scfg demo_env) (app_host demo_env) (app_pairs demo_env) (app_a_first demo_env)
       (app_joinerr demo_env) (app_walk demo_env) (app_pair_order demo_env) cfg = Inr pairs"
    by (rule demo_starts)
  have laws: "scfg_laws (app_scfg demo_env)" by (simp add: tree_laws)
  have "dom (cfg_pairs cfg) = {''cal''}" using requested_pairs [OF laws cfg] by auto
  then obtain b where b: "cfg_pairs cfg = [''cal'' \<mapsto> b]" by (auto simp: dom_eq_singleton_conv)
  then have walk: "map_of (app_walk demo_env (cfg_pairs cfg)) = cfg_pairs cfg"
    "distinct (map fst (app_walk demo_env (cfg_pairs cfg)))" by (simp_all add: demo_walk_def)
  have "map pair_name pairs = [''cal'']"
    using started_pairs [OF laws walk _ pairs] b by (intro distinct_singleton) simp_all
  then obtain pair where "pairs = [pair]" "pair_name pair = ''cal''" by auto
  with cfg walk pairs show thesis by (intro that) simp_all
qed

theorem sync_acts_on_requested_witness:
  "\<exists>pairs. app_main demo_env [''pimsync'', ''-c'', ''conf'', ''sync'', ''-n'', ''cal''] [] [] =
     io_returns (sync plain_shell True False pairs []) [] \<and> set (map pair_name pairs) = {''cal''}"
proof -
  obtain cfg pair where cfg: "parse_config (app_scfg demo_env) (app_run demo_env) (app_pick demo_env) ''conf''
      (cli_names demo_sync_cli) [] = (Inr cfg, [])"
    and walk: "map_of (app_walk demo_env (cfg_pairs cfg)) = cfg_pairs cfg"
      "distinct (map fst (app_walk demo_env (cfg_pairs cfg)))"
    and pairs: "into_named_pairs (app_scfg demo_env) (app_host demo_env) (app_pairs demo_env) (app_a_first demo_env)
       (app_joinerr demo_env) (app_walk demo_env) (app_pair_order demo_env) cfg = Inr [pair]"
    by (rule demo_started) simp
  have "app_main demo_env [''pimsync'', ''-c'', ''conf'', ''sync'', ''-n'', ''cal''] [] [] =
      io_returns (sync (app_shell demo_env) True False [pair] []) [] \<and> distinct (map pair_name [pair]) \<and>
      (\<exists>ns. list_pair_names (app_scfg demo_env) ''conf'' = Inr ns \<and> set (map pair_name [pair]) =
        (case wanted (cli_names demo_sync_cli) of None \<Rightarrow> set ns | Some S \<Rightarrow> S))"
    by (rule sync_acts_on_requested [OF _ _ _ _ _ _ cfg walk pairs])
      (simp_all add: tree_laws demo_sync_args demo_config_read)
  then show ?thesis by (intro exI [of _ "[pair]"]) simp
qed

definition no_conf_env where
  "no_conf_env = demo_env\<lparr>app_open := (\<lambda>_. Inl (Err [''not found'']))\<rparr>"



theorem dry_run_program_witness:
  "app_main (demo_env\<lparr>app_shell := write_ops plain_shell (\<lambda>_ _ _ w. ((bail ''no'', 7), w)) (\<lambda>_ w. (bail ''no'', w))
       (\<lambda>_ _ _ _ _ w. (bail ''no'', w)) (\<lambda>_ _ _ _ _ w. (bail ''no'', w))\<rparr>)
       [''pimsync'', ''-c'', ''conf'', ''sync'', ''-n'', ''cal''] [] [] =
     app_main demo_env [''pimsync'', ''-c'', ''conf'', ''sync'', ''-n'', ''cal''] [] []"
proof -
  have args: "cli_parse (app_lexopt demo_env) [''pimsync'', ''-c'', ''conf'', ''sync'', ''-n'', ''cal''] = Some (Inr demo_sync_cli)"
    by (simp add: demo_sync_args)
  have "cli_command demo_sync_cli = Sync True False" by simp
  from dry_run_program [OF args this] show ?thesis by simp
qed


theorem daemon_never_succeeds_witness:
  "\<exists>e. program_ends demo_env [''pimsync'', ''-c'', ''conf'', ''daemon'', ''-r'', ''5'', ''cal''] [] []
     (Returns (Inl e)) [''READY=1'' @ newline]"
proof -
  let ?a = "[''pimsync'', ''-c'', ''conf'', ''daemon'', ''-r'', ''5'', ''cal'']"
  obtain cfg pair where cfg: "parse_config (app_scfg demo_env) (app_run demo_env) (app_pick demo_env) ''conf''
      (FilterNames (Some {''cal''})) [] = (Inr cfg, [])"
    and pairs: "into_named_pairs (app_scfg demo_env) (app_host demo_env) (app_pairs demo_env) (app_a_first demo_env)
       (app_joinerr demo_env) (app_walk demo_env) (app_pair_order demo_env) cfg = Inr [pair]"
    by (rule demo_started)
  have start: "start_pairs demo_env (FilterNames (Some {''cal''})) ''conf'' ''conf'' [] = (Inr [pair], [])"
    by (simp only: start_pairs_def cfg prod.case with_context_simps rbind_simps pairs)
  have main: "app_main demo_env ?a [] [] = Some (Serves [pair], [''READY=1'' @ newline], [])"
    by (simp add: app_main_def demo_daemon_args demo_config_read run_command_on_pairs on_pairs_def start
        pair_command_def signal_ready_def scontext_def plain_shell_def fmt_def)
  let ?over = "[Ended (MonitorError (Err [''no monitor'']))]"
  have "task_step plain_shell pair NotStarted w = Some (Ended (MonitorError (Err [''no monitor''])), w)" for w
    by (simp add: start_daemon_def plain_shell_def bail_def)
  then have "daemon_step plain_shell [pair] (daemon_start [pair] [''READY=1'' @ newline]) (?over, [''READY=1'' @ newline])"
    using daemon_step.intros [of 0 "[NotStarted]" plain_shell "[pair]" "[''READY=1'' @ newline]"]
    by (simp add: daemon_start_def)
  then have ends: "program_ends demo_env ?a [] [] (Returns (bail ''All sync tasks exited.'')) [''READY=1'' @ newline]"
    by (intro program_ends.daemon_ends [OF main]) (auto simp: daemon_result_def)
  have "cli_parse (app_lexopt demo_env) ?a = Some (Inr demo_daemon_cli)" by (simp add: demo_daemon_args)
  from daemon_never_succeeds [OF this _ ends] ends show ?thesis by auto
qed

end
