(* ===== verification/Build_Script.thy ===== *)
theory Build_Script
  imports Prelude
begin

text \<open>
  \<^verbatim>\<open>src/build.rs\<close>: the version the program is built with, which its default user agent and
  \<^verbatim>\<open>pimsync version\<close> show. The environment, the text that \<^verbatim>\<open>git archive\<close> puts in place of the
  placeholder, and what running \<^verbatim>\<open>git describe\<close> gives are parameters.
\<close>

datatype git_describe = GitOutput bool string string | GitFailed string
  \<comment> \<open>success, the standard output as text and the status; or why it could not be run\<close>

definition embedded_version :: "string \<Rightarrow> git_describe \<Rightarrow> failure + string" where
  "embedded_version placeholder git =
     (case placeholder of
        c # _ \<Rightarrow>
          (if c = CHR ''$'' then
             (case git of
                GitOutput True output status \<Rightarrow> Inr (trim output)
              | GitOutput False output status \<Rightarrow> Inl (Panic (fmt [''git-describe exited non-zero: '', status]))
              | GitFailed err \<Rightarrow> Inl (Panic (fmt [''failed to execute git-describe: '', err])))
           else Inr placeholder)
      | [] \<Rightarrow> Inr placeholder)"

definition published_version :: "string \<Rightarrow> string" where
  "published_version v = (case strip_prefix ''v'' v of None \<Rightarrow> v | Some rest \<Rightarrow> rest)"

text \<open>The line printed for cargo, none when the version is given from outside.\<close>

definition build_script :: "string option \<Rightarrow> string \<Rightarrow> git_describe \<Rightarrow> failure + string option" where
  "build_script preset placeholder git =
     (if preset \<noteq> None then Inr None
      else rmap (\<lambda>v. Some (fmt [''cargo:rustc-env=PIMSYNC_VERSION='', published_version v]))
        (embedded_version placeholder git))"

text \<open>A tag and the same tag without its \<^verbatim>\<open>v\<close> give the same version.\<close>

lemma published_version_tag: "published_version (''v'' @ v) = v"
proof -
  have "strip_prefix ''v'' (''v'' @ v) = Some v" by (simp only: strip_prefix_iff)
  then show ?thesis by (simp add: published_version_def)
qed

text \<open>The build only fails when it has to ask git and git cannot tell.\<close>

lemma build_script_fails_iff:
  "\<not> is_ok (build_script preset placeholder git) \<longleftrightarrow>
     preset = None \<and> (\<exists>rest. placeholder = CHR ''$'' # rest) \<and>
     (case git of GitOutput ok _ _ \<Rightarrow> \<not> ok | GitFailed _ \<Rightarrow> True)"
proof -
  have "is_ok (rmap f r) = is_ok r" for f and r :: "failure + string"
    by (cases r) simp_all
  then show ?thesis
    by (auto simp: build_script_def embedded_version_def split: list.split git_describe.split bool.split)
qed

end
