(* ===== verification/Spec2Isabelle.thy ===== *)
theory Spec2Isabelle
  imports Config_Props Storage_Builder Repair_Props Daemon Sync_Report Transport App_Props Build_Script
begin

text \<open>
  A model of \<^verbatim>\<open>pimsync\<close>, the program that keeps calendars and address books in sync, and the
  properties that make it correct.

  \<^bold>\<open>The program.\<close> \<^verbatim>\<open>main\<close> (\<^verbatim>\<open>src/src/main.rs\<close>) reads the command line (\<^verbatim>\<open>cli.rs\<close>), opens the
  configuration file and lets \<^verbatim>\<open>config.rs\<close> read it with the help of \<^verbatim>\<open>scfg_util.rs\<close>: which
  pairs are wanted, which storages they use, and the commands that yield secrets. A
  \<^verbatim>\<open>StorageBuilder\<close> then initialises each storage once, although pairs are set up concurrently;
  \<^verbatim>\<open>tls.rs\<close> and \<^verbatim>\<open>proxy/mod.rs\<close> supply its connections. The pairs are then synchronised once
  (\<^verbatim>\<open>sync\<close>), for ever (\<^verbatim>\<open>daemon\<close>), resolved by hand (\<^verbatim>\<open>conflict.rs\<close>) or listed (\<^verbatim>\<open>discover\<close>);
  \<^verbatim>\<open>repair.rs\<close> works on storages instead of pairs.

  \<^bold>\<open>Conventions.\<close> A Rust function is a definition of the same name. \<^verbatim>\<open>anyhow::Result\<close> is
  \<open>failure + 'a\<close>, where a \<open>failure\<close> is the chain of messages of an error or a panic; a function
  on \<^verbatim>\<open>&mut T\<close> maps the structure to a result and what it leaves of the structure, on error
  paths too; a function that acts on the world maps the world likewise. Structs are records,
  enums are datatypes, \<^verbatim>\<open>u32\<close>, \<^verbatim>\<open>u64\<close> and \<^verbatim>\<open>i32\<close> are words, a \<^verbatim>\<open>HashMap\<close> is a map and a
  \<^verbatim>\<open>HashSet\<close> a set. The iteration order of hash tables, the order in which concurrent tasks
  end, and every crate the program calls (\<^verbatim>\<open>scfg\<close>, \<^verbatim>\<open>lexopt\<close>, \<^verbatim>\<open>vstorage\<close>, \<^verbatim>\<open>rustls\<close>,
  \<^verbatim>\<open>hyper\<close>) are arguments of the definitions: records of functions with, where a property
  needs it, named hypotheses on them (\<open>scfg_laws\<close>, \<open>uses_up\<close>). Concrete instances of all of
  them, \<open>tree_api\<close>, \<open>demo_host\<close>, \<open>demo_builder\<close>, \<open>demo_shell\<close>, \<open>demo_lexopt\<close> and \<open>demo_env\<close>,
  show that the hypotheses can hold.

  \<^bold>\<open>Theories and sources.\<close>
  \<^item> \<open>Prelude\<close>: results, state passing, strings, decimal numbers. \<open>Transition\<close>: the locale of
    transition systems with an invariant. \<open>Error_Counter\<close>: the locale of wrapping counters.
  \<^item> \<open>Scfg_Api\<close>, \<open>Scfg_Tree\<close>: the interface of the configuration parser and an instance of it.
  \<^item> \<open>Scfg_Util\<close>: \<^verbatim>\<open>scfg_util.rs\<close> and \<^verbatim>\<open>RawCommand\<close> of \<^verbatim>\<open>main.rs\<close>. The value of a directive may
    be the output of a command; the lemmas say which commands run, and that it happens once.
  \<^item> \<open>Filter_Names\<close>, \<open>Cli\<close>, \<open>Cli_Props\<close>: \<^verbatim>\<open>cli.rs\<close>; that reading arguments ends, and what they
    mean.
  \<^item> \<open>Tls\<close>: \<^verbatim>\<open>tls.rs\<close>; what the verifiers accept and which PEM bundles are read.
  \<^item> \<open>Storage_Config\<close>, \<open>Storage_Props\<close>: \<^verbatim>\<open>init_storage\<close> and the parsers it calls; credentials,
    transports, TLS policy, read-only wrappers, the shape of each type of storage.
  \<^item> \<open>Pair_Config\<close>: the parsers of a pair's block, up to the \<^verbatim>\<open>NamedPair\<close> its task builds.
  \<^item> \<open>Config_File\<close>, \<open>Config_Props\<close>: \<^verbatim>\<open>parse_config\<close>, \<^verbatim>\<open>parse_storages\<close>, the listing functions and
    \<^verbatim>\<open>into_named_pairs\<close>; exactly the wanted pairs and storages are kept, whatever the order of
    concurrent tasks.
  \<^item> \<open>Storage_Builder\<close>: \<^verbatim>\<open>StorageBuilder::get_storage\<close> as a step relation over any number of
    interleaved calls, which may also be dropped; \<open>into_named_pairs\<close> uses its abstract
    specification \<open>storage_outcome\<close>, and the theory shows that every call returns just that.
  \<^item> \<open>Interaction\<close>: the world of the other half, the record \<open>shell\<close>. \<open>Conflict\<close>,
    \<open>Conflict_Props\<close>: \<^verbatim>\<open>conflict.rs\<close>; prompts, merges, uploads.
  \<^item> \<open>Sync\<close>, \<open>Sync_Props\<close>, \<open>Sync_Report\<close>, \<open>Daemon\<close>: the commands on pairs of \<^verbatim>\<open>main.rs\<close>; dry runs,
    summaries, what the reported number of errors means, what stops a daemon.
  \<^item> \<open>Repair\<close>, \<open>Repair_Props\<close>: \<^verbatim>\<open>repair.rs\<close>, each task on its own and all of them interleaved;
    fresh identifiers, that a repair ends, what the reported number means.
  \<^item> \<open>Transport\<close>: \<^verbatim>\<open>proxy/mod.rs\<close>. \<open>Build_Script\<close>: \<^verbatim>\<open>src/build.rs\<close>.
  \<^item> \<open>App\<close>, \<open>App_Props\<close>: \<^verbatim>\<open>main\<close>, composed of all the above, and properties of whole runs.

  \<^bold>\<open>Loops.\<close> No fuel is used. Loops over lists are structural. The loops over arguments, the
  prompts and the daemon's loop may run for ever; they are \<^theory_text>\<open>partial_function (option)\<close>, with
  \<open>None\<close> for a loop that does not end. That the first always end is a theorem
  (\<open>cli_parse_returns\<close>), and so is that a prompt at the end of its input
  (\<open>resolution_hangs_at_eof\<close>) and a healthy daemon (\<open>one_pair_keeps_daemon_alive\<close>) do not.
  Concurrent code is an inductive step relation, whose invariants hold in every reachable
  state.

  \<^bold>\<open>Not modelled.\<close> Log messages; the tests; the crates named above, which are parameters. What
  is simplified: a string holds characters up to 255; a plan is the list of what its
  stream yields; printing never fails; temporary files are not deleted; what the network
  answers while a storage is initialised is a function of the request; and the conversion of
  paths that are not valid Unicode is left out.
\<close>

end
